theory Spec2Isabelle
  imports Main "HOL-Library.Word" "HOL-Library.Multiset"
begin

section \<open>JavaScript values of the backup layer\<close>

text \<open>
  A JavaScript string is a sequence of UTF-16 code units; \<open>charCodeAt\<close> reads one unit.
  Numbers are the integers: fractions, NaN and the infinities are outside this development,
  and the decimal and hexadecimal renderings below are the ones of JavaScript for integers
  that a double holds exactly.
\<close>

type_synonym jsstring = "16 word list"

definition str :: "string \<Rightarrow> jsstring" where
  "str s = map of_char s"

text \<open>
  The values \<open>JSON.parse\<close> produces. An object is the list of its own properties in
  enumeration order, each name once.
\<close>

datatype json =
    JNull
  | JBool bool
  | JNum int
  | JStr jsstring
  | JArr "json list"
  | JObj "(jsstring \<times> json) list"

datatype erro =
    JSONInvalido
  | TypeError
  | EstruturaInvalida
  | DadosCorrompidos
  | TotalNaoConfere
  | ChecksumInvalido
  | ItemInvalido
  | CampoAusente jsstring
  | LivroIndisponivel
  | EmprestimoInvalido
  | DataError
  | ConstraintError
  | TransacaoAbortada
  | ErroGravacao

subsection \<open>Number.prototype.toString and JSON.stringify\<close>

definition hexDigito :: "nat \<Rightarrow> 16 word" where
  "hexDigito d = (if d < 10 then of_nat (48 + d) else of_nat (87 + d))"

text \<open>\<open>n.toString(16)\<close> for a non-negative integer.\<close>

fun toString16 :: "nat \<Rightarrow> jsstring" where
  "toString16 n =
     (if n < 16 then [hexDigito n] else toString16 (n div 16) @ [hexDigito (n mod 16)])"

declare toString16.simps [simp del]

fun digitos :: "nat \<Rightarrow> jsstring" where
  "digitos n = (if n < 10 then [of_nat (48 + n)] else digitos (n div 10) @ [of_nat (48 + n mod 10)])"

declare digitos.simps [simp del]

definition numberToString :: "int \<Rightarrow> jsstring" where
  "numberToString i = (if i < 0 then 0x2D # digitos (nat (- i)) else digitos (nat i))"

text \<open>
  \<open>QuoteJSONString\<close>: the short escapes, \<open>\uXXXX\<close> for the other control characters and
  for a surrogate that is not part of a pair, every other code unit as it is.
\<close>

definition escapeUnicode :: "16 word \<Rightarrow> jsstring" where
  "escapeUnicode c =
     [0x5C, 0x75, hexDigito (unat c div 4096), hexDigito (unat c div 256 mod 16),
      hexDigito (unat c div 16 mod 16), hexDigito (unat c mod 16)]"

definition leadingSurrogate :: "16 word \<Rightarrow> bool" where
  "leadingSurrogate c = (0xD800 \<le> c \<and> c \<le> 0xDBFF)"

definition trailingSurrogate :: "16 word \<Rightarrow> bool" where
  "trailingSurrogate c = (0xDC00 \<le> c \<and> c \<le> 0xDFFF)"

definition quoteUnit :: "16 word \<Rightarrow> jsstring" where
  "quoteUnit c =
     (if c = 0x08 then [0x5C, 0x62]
      else if c = 0x09 then [0x5C, 0x74]
      else if c = 0x0A then [0x5C, 0x6E]
      else if c = 0x0C then [0x5C, 0x66]
      else if c = 0x0D then [0x5C, 0x72]
      else if c = 0x22 then [0x5C, 0x22]
      else if c = 0x5C then [0x5C, 0x5C]
      else if c < 0x20 \<or> leadingSurrogate c \<or> trailingSurrogate c then escapeUnicode c
      else [c])"

fun quoteChars :: "jsstring \<Rightarrow> jsstring" where
  "quoteChars [] = []"
| "quoteChars [c] = quoteUnit c"
| "quoteChars (c # d # ds) =
     (if leadingSurrogate c \<and> trailingSurrogate d then c # d # quoteChars ds
      else quoteUnit c @ quoteChars (d # ds))"

definition quoteJSONString :: "jsstring \<Rightarrow> jsstring" where
  "quoteJSONString s = [0x22] @ quoteChars s @ [0x22]"

fun juntar :: "jsstring list \<Rightarrow> jsstring" where
  "juntar [] = []"
| "juntar [p] = p"
| "juntar (p # q # ps) = p @ [0x2C] @ juntar (q # ps)"

text \<open>\<open>JSON.stringify(v)\<close> with no indentation argument.\<close>

fun stringify :: "json \<Rightarrow> jsstring" where
  "stringify JNull = str ''null''"
| "stringify (JBool b) = (if b then str ''true'' else str ''false'')"
| "stringify (JNum n) = numberToString n"
| "stringify (JStr s) = quoteJSONString s"
| "stringify (JArr xs) = [0x5B] @ juntar (map stringify xs) @ [0x5D]"
| "stringify (JObj fs) =
     [0x7B] @ juntar (map (\<lambda>(k, v). quoteJSONString k @ [0x3A] @ stringify v) fs) @ [0x7D]"

subsection \<open>gerarChecksumSimples\<close>

text \<open>The code units the regular expression \<open>\s\<close> matches.\<close>

definition espaco :: "16 word \<Rightarrow> bool" where
  "espaco c =
     (c = 0x09 \<or> c = 0x0A \<or> c = 0x0B \<or> c = 0x0C \<or> c = 0x0D \<or> c = 0x20 \<or> c = 0xA0
      \<or> c = 0x1680 \<or> (0x2000 \<le> c \<and> c \<le> 0x200A) \<or> c = 0x2028 \<or> c = 0x2029
      \<or> c = 0x202F \<or> c = 0x205F \<or> c = 0x3000 \<or> c = 0xFEFF)"

text \<open>\<open>s.replace(/\s/g, '')\<close>\<close>

definition semEspacos :: "jsstring \<Rightarrow> jsstring" where
  "semEspacos s = filter (\<lambda>c. \<not> espaco c) s"

text \<open>The loop \<open>for (i = 0; i < str.length; i++) hash += str.charCodeAt(i)\<close>.\<close>

fun somarCodigos :: "nat \<Rightarrow> jsstring \<Rightarrow> nat" where
  "somarCodigos hash [] = hash"
| "somarCodigos hash (c # cs) = somarCodigos (hash + unat c) cs"

definition gerarChecksumSimples :: "json \<Rightarrow> jsstring" where
  "gerarChecksumSimples objeto = toString16 (somarCodigos 0 (semEspacos (stringify objeto)))"

subsection \<open>validarBackup and validarEstrutura\<close>

text \<open>Reading a property: \<open>None\<close> is \<open>undefined\<close>.\<close>

fun campo :: "jsstring \<Rightarrow> json \<Rightarrow> json option" where
  "campo k (JObj fs) = map_of fs k"
| "campo k v = None"

text \<open>\<open>!v\<close>\<close>

fun falso :: "json option \<Rightarrow> bool" where
  "falso None = True"
| "falso (Some JNull) = True"
| "falso (Some (JBool b)) = (\<not> b)"
| "falso (Some (JNum n)) = (n = 0)"
| "falso (Some (JStr s)) = (s = [])"
| "falso (Some (JArr xs)) = False"
| "falso (Some (JObj fs)) = False"

text \<open>\<open>delete v[k]\<close>\<close>

fun apagarCampo :: "jsstring \<Rightarrow> json \<Rightarrow> json" where
  "apagarCampo k (JObj fs) = JObj (filter (\<lambda>(k', v). k' \<noteq> k) fs)"
| "apagarCampo k v = v"

text \<open>\<open>typeof item === 'object' && item !== null\<close>\<close>

fun ehObjeto :: "json \<Rightarrow> bool" where
  "ehObjeto (JObj fs) = True"
| "ehObjeto (JArr xs) = True"
| "ehObjeto v = False"

text \<open>
  \<open>k in item\<close> for an object or an array; an array has its indices and \<open>length\<close>.
\<close>

fun em :: "jsstring \<Rightarrow> json \<Rightarrow> bool" where
  "em k (JObj fs) = (k \<in> set (map fst fs))"
| "em k (JArr xs) = (k = str ''length'' \<or> k \<in> set (map digitos [0..<length xs]))"
| "em k v = False"

fun validarCampos :: "json \<Rightarrow> jsstring list \<Rightarrow> erro + unit" where
  "validarCampos item [] = Inr ()"
| "validarCampos item (c # cs) =
     (if \<not> em c item then Inl (CampoAusente c) else validarCampos item cs)"

fun validarEstrutura :: "json list \<Rightarrow> jsstring list \<Rightarrow> erro + unit" where
  "validarEstrutura [] camposObrigatorios = Inr ()"
| "validarEstrutura (item # array) camposObrigatorios =
     (if \<not> ehObjeto item then Inl ItemInvalido
      else case validarCampos item camposObrigatorios of
             Inl e \<Rightarrow> Inl e
           | Inr u \<Rightarrow> validarEstrutura array camposObrigatorios)"

definition camposLivro :: "jsstring list" where
  "camposLivro = [str ''id'', str ''titulo'', str ''autor'', str ''isbn'',
                  str ''quantidadeTotal'', str ''quantidadeDisponivel'']"

definition camposAluno :: "jsstring list" where
  "camposAluno = [str ''id'', str ''nome'', str ''matricula'', str ''turma'']"

definition camposEmprestimo :: "jsstring list" where
  "camposEmprestimo = [str ''id'', str ''idLivro'', str ''idAluno'', str ''dataEmprestimo'',
                       str ''dataPrevistaDevolucao'', str ''status'']"

text \<open>
  The checks in the order of the source. Reading a property of \<open>null\<close> raises a TypeError;
  every other non-object value has no properties and fails the first check.
\<close>

definition validarBackup :: "json \<Rightarrow> erro + unit" where
  "validarBackup json =
     (if json = JNull then Inl TypeError
      else if falso (campo (str ''versao'') json) \<or> falso (campo (str ''dataExportacao'') json)
              \<or> campo (str ''totalRegistros'') json = None \<or> falso (campo (str ''checksum'') json)
      then Inl EstruturaInvalida
      else case (campo (str ''livros'') json, campo (str ''alunos'') json,
                 campo (str ''emprestimos'') json) of
        (Some (JArr ls), Some (JArr as), Some (JArr es)) \<Rightarrow>
          if campo (str ''totalRegistros'') json
               \<noteq> Some (JNum (int (length ls + length as + length es)))
          then Inl TotalNaoConfere
          else if campo (str ''checksum'') json
               \<noteq> Some (JStr (gerarChecksumSimples (apagarCampo (str ''checksum'') json)))
          then Inl ChecksumInvalido
          else (case validarEstrutura ls camposLivro of
                  Inl e \<Rightarrow> Inl e
                | Inr u \<Rightarrow>
                   (case validarEstrutura as camposAluno of
                      Inl e \<Rightarrow> Inl e
                    | Inr u \<Rightarrow> validarEstrutura es camposEmprestimo))
      | _ \<Rightarrow> Inl DadosCorrompidos)"

section \<open>The record store (db.js)\<close>

subsection \<open>Records\<close>

text \<open>
  The records of the three stores, with the properties the handlers write and the types
  they write them with. The object stores use the key path \<open>id\<close> with a key generator;
  the property \<open>id\<close> is the field \<open>ident\<close>. A record handed to a store has no
  \<open>id\<close> property, an \<open>id\<close> that is no valid key (\<open>null\<close>, say), or a key; keys are
  the integers here. \<open>dataDevolucaoReal\<close> is \<open>null\<close> until the loan is returned.
\<close>

datatype chave = SemId | IdInvalido | Id int

record registro =
  ident :: chave

record livro = registro +
  titulo :: jsstring
  autor :: jsstring
  isbn :: jsstring
  quantidadeTotal :: int
  quantidadeDisponivel :: int

record aluno = registro +
  nome :: jsstring
  matricula :: jsstring
  turma :: jsstring

record emprestimo = registro +
  idLivro :: int
  idAluno :: int
  dataEmprestimo :: jsstring
  dataPrevistaDevolucao :: jsstring
  dataDevolucaoReal :: "jsstring option"
  status :: jsstring

subsection \<open>An object store of IndexedDB\<close>

text \<open>
  The records in ascending key order, as \<open>getAll\<close> returns them, and the current number of
  the key generator. The stores are created by \<open>initDB\<close> with \<open>autoIncrement\<close>, the
  generator starting at 1.
\<close>

record 'r objectStore =
  registros :: "(int \<times> 'r) list"
  gerador :: int

definition storeVazio :: "'r objectStore" where
  "storeVazio = \<lparr>registros = [], gerador = 1\<rparr>"

definition storeGet :: "int \<Rightarrow> 'r objectStore \<Rightarrow> 'r option" where
  "storeGet k st = map_of (registros st) k"

definition storeGetAll :: "'r objectStore \<Rightarrow> 'r list" where
  "storeGetAll st = map snd (registros st)"

definition storeClear :: "'r objectStore \<Rightarrow> 'r objectStore" where
  "storeClear st = st\<lparr>registros := []\<rparr>"

definition storeDelete :: "int \<Rightarrow> 'r objectStore \<Rightarrow> 'r objectStore" where
  "storeDelete k st = st\<lparr>registros := filter (\<lambda>(k', r). k' \<noteq> k) (registros st)\<rparr>"

fun gravar :: "int \<Rightarrow> 'r \<Rightarrow> (int \<times> 'r) list \<Rightarrow> (int \<times> 'r) list" where
  "gravar k v [] = [(k, v)]"
| "gravar k v ((k', v') # xs) =
     (if k < k' then (k, v) # (k', v') # xs
      else if k = k' then (k, v) # xs
      else (k', v') # gravar k v xs)"

text \<open>
  A unique index (\<open>idx_isbn\<close>, \<open>idx_matricula\<close>) refuses a record whose index key is held
  by a record under another primary key. \<open>uq\<close> reads the index key of a record, \<open>None\<close>
  for a store with no unique index.
\<close>

definition violaIndice :: "('r \<Rightarrow> jsstring option) \<Rightarrow> int \<Rightarrow> 'r \<Rightarrow> (int \<times> 'r) list \<Rightarrow> bool" where
  "violaIndice uq k item regs =
     (uq item \<noteq> None \<and> list_ex (\<lambda>(k', r). k' \<noteq> k \<and> uq r = uq item) regs)"

definition armazenar ::
  "('r \<Rightarrow> jsstring option) \<Rightarrow> int \<Rightarrow> 'r \<Rightarrow> 'r objectStore \<Rightarrow> erro + (int \<times> 'r objectStore)" where
  "armazenar uq k item st =
     (if violaIndice uq k item (registros st) then Inl ConstraintError
      else Inr (k, st\<lparr>registros := gravar k item (registros st)\<rparr>))"

text \<open>
  \<open>store.put(item)\<close>: a DataError for an invalid key; a generated key, written into the
  record, when the record has none; a key at or above the generator's number moves the
  generator past it.
\<close>

definition storePut ::
  "('a registro_scheme \<Rightarrow> jsstring option) \<Rightarrow> 'a registro_scheme \<Rightarrow>
     'a registro_scheme objectStore \<Rightarrow> erro + (int \<times> 'a registro_scheme objectStore)" where
  "storePut uq item st =
     (case ident item of
        IdInvalido \<Rightarrow> Inl DataError
      | SemId \<Rightarrow>
          armazenar uq (gerador st) (item\<lparr>ident := Id (gerador st)\<rparr>)
            (st\<lparr>gerador := gerador st + 1\<rparr>)
      | Id k \<Rightarrow> armazenar uq k item (st\<lparr>gerador := max (gerador st) (k + 1)\<rparr>))"

text \<open>\<open>store.add(item)\<close>: as \<open>put\<close>, but a key that is already in the store is refused.\<close>

definition storeAdd ::
  "('a registro_scheme \<Rightarrow> jsstring option) \<Rightarrow> 'a registro_scheme \<Rightarrow>
     'a registro_scheme objectStore \<Rightarrow> erro + (int \<times> 'a registro_scheme objectStore)" where
  "storeAdd uq item st =
     (case ident item of
        Id k \<Rightarrow> (if storeGet k st \<noteq> None then Inl ConstraintError else storePut uq item st)
      | _ \<Rightarrow> storePut uq item st)"

definition uqLivro :: "livro \<Rightarrow> jsstring option" where
  "uqLivro l = Some (isbn l)"

definition uqAluno :: "aluno \<Rightarrow> jsstring option" where
  "uqAluno a = Some (matricula a)"

definition uqEmprestimo :: "emprestimo \<Rightarrow> jsstring option" where
  "uqEmprestimo e = None"

subsection \<open>The database and the operations of DB\<close>

record db =
  storeLivros :: "livro objectStore"
  storeAlunos :: "aluno objectStore"
  storeEmprestimos :: "emprestimo objectStore"

definition dbVazio :: db where
  "dbVazio = \<lparr>storeLivros = storeVazio, storeAlunos = storeVazio, storeEmprestimos = storeVazio\<rparr>"

record dados =
  livros :: "livro list"
  alunos :: "aluno list"
  emprestimos :: "emprestimo list"

text \<open>
  \<open>exportAllData\<close> opens one read-only transaction per store, one after the other, and
  awaits each. Run alone it reads the three stores of one state.
\<close>

definition exportAllData :: "db \<Rightarrow> dados" where
  "exportAllData s =
     \<lparr>livros = storeGetAll (storeLivros s),
      alunos = storeGetAll (storeAlunos s),
      emprestimos = storeGetAll (storeEmprestimos s)\<rparr>"

text \<open>
  The same three reads with the writes \<open>w1\<close> and \<open>w2\<close> that other handlers commit while
  the function waits between its transactions.
\<close>

definition exportAllDataEntre :: "(db \<Rightarrow> db) \<Rightarrow> (db \<Rightarrow> db) \<Rightarrow> db \<Rightarrow> dados" where
  "exportAllDataEntre w1 w2 s =
     \<lparr>livros = storeGetAll (storeLivros s),
      alunos = storeGetAll (storeAlunos (w1 s)),
      emprestimos = storeGetAll (storeEmprestimos (w2 (w1 s)))\<rparr>"

text \<open>\<open>items.forEach(item => store.put(item))\<close>, the requests run in order.\<close>

fun putTodos ::
  "('a registro_scheme \<Rightarrow> jsstring option) \<Rightarrow> 'a registro_scheme list \<Rightarrow>
     'a registro_scheme objectStore \<Rightarrow> erro + 'a registro_scheme objectStore" where
  "putTodos uq [] st = Inr st"
| "putTodos uq (item # items) st =
     (case storePut uq item st of
        Inl e \<Rightarrow> Inl e
      | Inr (k, st') \<Rightarrow> putTodos uq items st')"

definition chaveValida :: "'a registro_scheme \<Rightarrow> bool" where
  "chaveValida item = (ident item \<noteq> IdInvalido)"

text \<open>
  \<open>importAllData\<close>: one read-write transaction over the three stores. The calls of
  \<open>put\<close> are all made before any request runs, and a call with an invalid key throws
  at once: the \<open>catch\<close> aborts the transaction. Otherwise the three \<open>clear\<close> and the
  \<open>put\<close> requests run in order, and a request that fails aborts the transaction.
  An aborted transaction leaves the database as it was.
\<close>

definition importAllData :: "'x dados_scheme \<Rightarrow> db \<Rightarrow> (erro + unit) \<times> db" where
  "importAllData data s =
     (if \<not> (list_all chaveValida (livros data) \<and> list_all chaveValida (alunos data)
             \<and> list_all chaveValida (emprestimos data))
      then (Inl TransacaoAbortada, s)
      else case putTodos uqLivro (livros data) (storeClear (storeLivros s)) of
        Inl e \<Rightarrow> (Inl e, s)
      | Inr sl \<Rightarrow>
         (case putTodos uqAluno (alunos data) (storeClear (storeAlunos s)) of
            Inl e \<Rightarrow> (Inl e, s)
          | Inr sa \<Rightarrow>
             (case putTodos uqEmprestimo (emprestimos data) (storeClear (storeEmprestimos s)) of
                Inl e \<Rightarrow> (Inl e, s)
              | Inr se \<Rightarrow>
                  (Inr (), \<lparr>storeLivros = sl, storeAlunos = sa, storeEmprestimos = se\<rparr>))))"

text \<open>\<open>DB.save\<close>, \<open>DB.getById\<close> and \<open>DB.delete\<close> on the store \<open>livros\<close>.\<close>

definition saveLivros :: "livro \<Rightarrow> db \<Rightarrow> (erro + int) \<times> db" where
  "saveLivros item s =
     (case storePut uqLivro item (storeLivros s) of
        Inl e \<Rightarrow> (Inl e, s)
      | Inr (k, t) \<Rightarrow> (Inr k, s\<lparr>storeLivros := t\<rparr>))"

definition getByIdLivros :: "int \<Rightarrow> db \<Rightarrow> livro option" where
  "getByIdLivros i s = storeGet i (storeLivros s)"

definition deleteLivros :: "int \<Rightarrow> db \<Rightarrow> db" where
  "deleteLivros i s = s\<lparr>storeLivros := storeDelete i (storeLivros s)\<rparr>"

text \<open>
  \<open>registrarEmprestimo\<close>: one transaction over \<open>livros\<close> and \<open>emprestimos\<close>.
\<close>

definition registrarEmprestimo :: "emprestimo \<Rightarrow> db \<Rightarrow> (erro + unit) \<times> db" where
  "registrarEmprestimo emp s =
     (case storeGet (idLivro emp) (storeLivros s) of
        None \<Rightarrow> (Inl LivroIndisponivel, s)
      | Some livro \<Rightarrow>
          if quantidadeDisponivel livro \<le> 0 then (Inl LivroIndisponivel, s)
          else
            (case storePut uqLivro
                    (livro\<lparr>quantidadeDisponivel := quantidadeDisponivel livro - 1\<rparr>)
                    (storeLivros s) of
               Inl e \<Rightarrow> (Inl e, s)
             | Inr (k, sl) \<Rightarrow>
                (case storeAdd uqEmprestimo emp (storeEmprestimos s) of
                   Inl e \<Rightarrow> (Inl e, s)
                 | Inr (k', se) \<Rightarrow>
                     (Inr (), s\<lparr>storeLivros := sl, storeEmprestimos := se\<rparr>))))"

text \<open>
  \<open>registrarDevolucao\<close>: one transaction over \<open>livros\<close> and \<open>emprestimos\<close>.
\<close>

definition registrarDevolucao :: "int \<Rightarrow> jsstring \<Rightarrow> db \<Rightarrow> (erro + unit) \<times> db" where
  "registrarDevolucao idEmprestimo dataDevolucao s =
     (case storeGet idEmprestimo (storeEmprestimos s) of
        None \<Rightarrow> (Inl EmprestimoInvalido, s)
      | Some emp \<Rightarrow>
          if status emp = str ''devolvido'' then (Inl EmprestimoInvalido, s)
          else
            (case storePut uqEmprestimo
                    (emp\<lparr>status := str ''devolvido'', dataDevolucaoReal := Some dataDevolucao\<rparr>)
                    (storeEmprestimos s) of
               Inl e \<Rightarrow> (Inl e, s)
             | Inr (k, se) \<Rightarrow>
                (case storeGet (idLivro emp) (storeLivros s) of
                   None \<Rightarrow> (Inr (), s\<lparr>storeEmprestimos := se\<rparr>)
                 | Some livro \<Rightarrow>
                    (case storePut uqLivro
                            (livro\<lparr>quantidadeDisponivel := quantidadeDisponivel livro + 1\<rparr>)
                            (storeLivros s) of
                       Inl e \<Rightarrow> (Inl e, s)
                     | Inr (k', sl) \<Rightarrow>
                         (Inr (), s\<lparr>storeLivros := sl, storeEmprestimos := se\<rparr>)))))"

section \<open>The handlers of the interface (script.js)\<close>

text \<open>What a handler shows to the user when it ends.\<close>

datatype aviso =
    LivroCadastrado
  | LivroAtualizado
  | ErroQuantidadeTotal
  | ErroSalvarLivro
  | EmprestimoRegistrado
  | ErroEmprestimo erro
  | RestauracaoConcluida
  | RestauracaoCancelada
  | ErroRestauracao erro

subsection \<open>handleSalvarLivro\<close>

text \<open>
  The form as the handler reads it: the hidden id (\<open>None\<close> for the empty string), the
  trimmed texts and the parsed quantity.
\<close>

record formLivro =
  livroId :: "int option"
  livroTitulo :: jsstring
  livroAutor :: jsstring
  livroIsbn :: jsstring
  livroQtd :: int

definition salvarLivro :: "bool \<Rightarrow> livro \<Rightarrow> db \<Rightarrow> aviso \<times> db" where
  "salvarLivro edicao livro s =
     (case saveLivros livro s of
        (Inl e, s') \<Rightarrow> (ErroSalvarLivro, s')
      | (Inr k, s') \<Rightarrow> (if edicao then LivroAtualizado else LivroCadastrado, s'))"

text \<open>
  With an id the old record is read first. When there is none, reading its quantity raises
  a TypeError that the handler logs, and the record is saved with the quantity of a new book.
\<close>

definition handleSalvarLivro :: "formLivro \<Rightarrow> db \<Rightarrow> aviso \<times> db" where
  "handleSalvarLivro form s =
     (let qtdTotal = livroQtd form;
          livro = \<lparr>ident = SemId, titulo = livroTitulo form, autor = livroAutor form,
                   isbn = livroIsbn form, quantidadeTotal = qtdTotal,
                   quantidadeDisponivel = qtdTotal\<rparr>
      in case livroId form of
           None \<Rightarrow> salvarLivro False livro s
         | Some i \<Rightarrow>
            (case getByIdLivros i s of
               None \<Rightarrow> salvarLivro True (livro\<lparr>ident := Id i\<rparr>) s
             | Some livroAntigo \<Rightarrow>
                (let diferencaTotal = qtdTotal - quantidadeTotal livroAntigo;
                     disponivel = quantidadeDisponivel livroAntigo + diferencaTotal
                 in if disponivel < 0 then (ErroQuantidadeTotal, s)
                    else salvarLivro True
                           (livro\<lparr>ident := Id i, quantidadeDisponivel := disponivel\<rparr>) s)))"

subsection \<open>handleRegistrarEmprestimo\<close>

record formEmprestimo =
  emprestimoLivro :: int
  emprestimoAluno :: int
  emprestimoDataPrevista :: jsstring

text \<open>\<open>hoje\<close> is the date of the day, already formatted.\<close>

definition handleRegistrarEmprestimo :: "formEmprestimo \<Rightarrow> jsstring \<Rightarrow> db \<Rightarrow> aviso \<times> db" where
  "handleRegistrarEmprestimo form hoje s =
     (let emp = \<lparr>ident = SemId, idLivro = emprestimoLivro form, idAluno = emprestimoAluno form,
                 dataEmprestimo = hoje, dataPrevistaDevolucao = emprestimoDataPrevista form,
                 dataDevolucaoReal = None, status = str ''ativo''\<rparr>
      in case registrarEmprestimo emp s of
           (Inl e, s') \<Rightarrow> (ErroEmprestimo e, s')
         | (Inr u, s') \<Rightarrow> (EmprestimoRegistrado, s'))"

subsection \<open>The backup file\<close>

text \<open>
  A backup object whose three collections hold records of the store; its root properties
  are any values, \<open>None\<close> for a property the object does not have.
\<close>

record backup = dados +
  versao :: "json option"
  dataExportacao :: "json option"
  totalRegistros :: "json option"
  checksum :: "json option"

definition chaveJson :: "chave \<Rightarrow> (jsstring \<times> json) list" where
  "chaveJson c = (case c of SemId \<Rightarrow> [] | IdInvalido \<Rightarrow> [(str ''id'', JNull)]
                          | Id k \<Rightarrow> [(str ''id'', JNum k)])"

definition livroJson :: "livro \<Rightarrow> json" where
  "livroJson l =
     JObj ([(str ''titulo'', JStr (titulo l)), (str ''autor'', JStr (autor l)),
            (str ''isbn'', JStr (isbn l)), (str ''quantidadeTotal'', JNum (quantidadeTotal l)),
            (str ''quantidadeDisponivel'', JNum (quantidadeDisponivel l))]
           @ chaveJson (ident l))"

definition alunoJson :: "aluno \<Rightarrow> json" where
  "alunoJson a =
     JObj ([(str ''nome'', JStr (nome a)), (str ''matricula'', JStr (matricula a)),
            (str ''turma'', JStr (turma a))]
           @ chaveJson (ident a))"

definition emprestimoJson :: "emprestimo \<Rightarrow> json" where
  "emprestimoJson e =
     JObj ([(str ''idLivro'', JNum (idLivro e)), (str ''idAluno'', JNum (idAluno e)),
            (str ''dataEmprestimo'', JStr (dataEmprestimo e)),
            (str ''dataPrevistaDevolucao'', JStr (dataPrevistaDevolucao e)),
            (str ''dataDevolucaoReal'',
               (case dataDevolucaoReal e of None \<Rightarrow> JNull | Some d \<Rightarrow> JStr d)),
            (str ''status'', JStr (status e))]
           @ chaveJson (ident e))"

definition raiz :: "jsstring \<Rightarrow> json option \<Rightarrow> (jsstring \<times> json) list" where
  "raiz k v = (case v of None \<Rightarrow> [] | Some x \<Rightarrow> [(k, x)])"

definition backupJson :: "backup \<Rightarrow> json" where
  "backupJson b =
     JObj (raiz (str ''versao'') (versao b)
           @ raiz (str ''dataExportacao'') (dataExportacao b)
           @ raiz (str ''totalRegistros'') (totalRegistros b)
           @ [(str ''livros'', JArr (map livroJson (livros b))),
              (str ''alunos'', JArr (map alunoJson (alunos b))),
              (str ''emprestimos'', JArr (map emprestimoJson (emprestimos b)))]
           @ raiz (str ''checksum'') (checksum b))"

subsection \<open>exportarDados\<close>

text \<open>
  The payload the handler writes to the file; \<open>agora\<close> is the time of the export.
  The checksum is computed while the payload has no \<open>checksum\<close> property.
\<close>

definition exportarDados :: "jsstring \<Rightarrow> db \<Rightarrow> backup" where
  "exportarDados agora s =
     (let d = exportAllData s;
          total = length (livros d) + length (alunos d) + length (emprestimos d);
          payload = \<lparr>livros = livros d, alunos = alunos d, emprestimos = emprestimos d,
                     versao = Some (JStr (str ''1.0'')), dataExportacao = Some (JStr agora),
                     totalRegistros = Some (JNum (int total)), checksum = None\<rparr>
      in payload\<lparr>checksum := Some (JStr (gerarChecksumSimples (backupJson payload)))\<rparr>)"

subsection \<open>handleImportarDados\<close>

text \<open>
  \<open>arquivo\<close> is the parsed file, \<open>None\<close> when \<open>JSON.parse\<close> raises; \<open>confirma\<close> is
  the answer to the confirmation dialog. A failed import is followed by the import of the
  snapshot taken before it.
\<close>

definition handleImportarDados :: "backup option \<Rightarrow> bool \<Rightarrow> db \<Rightarrow> aviso \<times> db" where
  "handleImportarDados arquivo confirma s =
     (case arquivo of
        None \<Rightarrow> (ErroRestauracao JSONInvalido, s)
      | Some json \<Rightarrow>
         (case validarBackup (backupJson json) of
            Inl e \<Rightarrow> (ErroRestauracao e, s)
          | Inr u \<Rightarrow>
              if \<not> confirma then (RestauracaoCancelada, s)
              else
                (let backupTemporario = exportAllData s
                 in case importAllData json s of
                      (Inr u, s') \<Rightarrow> (RestauracaoConcluida, s')
                    | (Inl e, s') \<Rightarrow>
                       (case importAllData backupTemporario s' of
                          (Inr u, s'') \<Rightarrow> (ErroRestauracao ErroGravacao, s'')
                        | (Inl e', s'') \<Rightarrow> (ErroRestauracao e', s'')))))"

subsection \<open>The text of the backup file\<close>

text \<open>
  \<open>exportarDados\<close> writes \<open>JSON.stringify(payload, null, 2)\<close> to the file: every
  nesting level is indented by two spaces, an empty array or object has no line break, and a
  property name is followed by a colon and one space. \<open>serializar ind v\<close> is the text of
  \<open>v\<close> at the indentation \<open>ind\<close>.
\<close>

fun juntarCom :: "jsstring \<Rightarrow> jsstring list \<Rightarrow> jsstring" where
  "juntarCom sep [] = []"
| "juntarCom sep [p] = p"
| "juntarCom sep (p # q # ps) = p @ sep @ juntarCom sep (q # ps)"

definition gap :: jsstring where
  "gap = [0x20, 0x20]"

fun serializar :: "jsstring \<Rightarrow> json \<Rightarrow> jsstring" where
  "serializar ind JNull = str ''null''"
| "serializar ind (JBool b) = (if b then str ''true'' else str ''false'')"
| "serializar ind (JNum n) = numberToString n"
| "serializar ind (JStr s) = quoteJSONString s"
| "serializar ind (JArr xs) =
     (if xs = [] then [0x5B, 0x5D]
      else [0x5B, 0x0A] @ ind @ gap
           @ juntarCom ([0x2C, 0x0A] @ ind @ gap) (map (serializar (ind @ gap)) xs)
           @ [0x0A] @ ind @ [0x5D])"
| "serializar ind (JObj fs) =
     (if fs = [] then [0x7B, 0x7D]
      else [0x7B, 0x0A] @ ind @ gap
           @ juntarCom ([0x2C, 0x0A] @ ind @ gap)
               (map (\<lambda>(k, v). quoteJSONString k @ [0x3A, 0x20] @ serializar (ind @ gap) v) fs)
           @ [0x0A] @ ind @ [0x7D])"

text \<open>
  \<open>JSON.parse\<close>, which the import handler applies to the text of the file: \<open>None\<close> is
  the \<open>SyntaxError\<close>. White space is allowed around every token; a string has no raw
  control character and only the escapes of JSON. Numbers are integers in this model, so a
  number with a fraction or an exponent is refused rather than read; the texts that
  \<open>serializar\<close> writes contain none. The parser is given as much fuel as the text has
  characters, which is more than the nesting depth it needs.
\<close>

definition espacoJSON :: "16 word \<Rightarrow> bool" where
  "espacoJSON c = (c = 0x20 \<or> c = 0x09 \<or> c = 0x0A \<or> c = 0x0D)"

definition pularEspacos :: "jsstring \<Rightarrow> jsstring" where
  "pularEspacos s = dropWhile espacoJSON s"

definition lerHex :: "16 word \<Rightarrow> nat option" where
  "lerHex c =
     (if 0x30 \<le> c \<and> c \<le> 0x39 then Some (unat c - 48)
      else if 0x61 \<le> c \<and> c \<le> 0x66 then Some (unat c - 87)
      else if 0x41 \<le> c \<and> c \<le> 0x46 then Some (unat c - 55)
      else None)"

definition escapeSimples :: "16 word \<Rightarrow> 16 word option" where
  "escapeSimples e =
     (if e = 0x22 then Some 0x22
      else if e = 0x5C then Some 0x5C
      else if e = 0x2F then Some 0x2F
      else if e = 0x62 then Some 0x08
      else if e = 0x66 then Some 0x0C
      else if e = 0x6E then Some 0x0A
      else if e = 0x72 then Some 0x0D
      else if e = 0x74 then Some 0x09
      else None)"

definition comUnidade :: "16 word \<Rightarrow> (jsstring \<times> jsstring) option \<Rightarrow> (jsstring \<times> jsstring) option" where
  "comUnidade c r = map_option (\<lambda>(t, r'). (c # t, r')) r"

function lerString :: "jsstring \<Rightarrow> (jsstring \<times> jsstring) option" where
  "lerString [] = None"
| "lerString (c # cs) =
     (if c = 0x22 then Some ([], cs)
      else if c = 0x5C then
        (case cs of
           [] \<Rightarrow> None
         | e # es \<Rightarrow>
            if e = 0x75 then
              (case map lerHex (take 4 es) of
                 [Some x, Some y, Some z, Some w] \<Rightarrow>
                   comUnidade (of_nat (4096 * x + 256 * y + 16 * z + w)) (lerString (drop 4 es))
               | _ \<Rightarrow> None)
            else (case escapeSimples e of
                    None \<Rightarrow> None
                  | Some u \<Rightarrow> comUnidade u (lerString es)))
      else if c < 0x20 then None
      else comUnidade c (lerString cs))"
  by pat_completeness auto
termination
  by (relation "measure length") auto

definition digito :: "16 word \<Rightarrow> bool" where
  "digito c = (0x30 \<le> c \<and> c \<le> 0x39)"

definition valorDecimal :: "jsstring \<Rightarrow> nat" where
  "valorDecimal ds = foldl (\<lambda>a c. 10 * a + (unat c - 48)) 0 ds"

definition lerNatural :: "jsstring \<Rightarrow> (nat \<times> jsstring) option" where
  "lerNatural s =
     (let ds = takeWhile digito s; r = dropWhile digito s
      in if ds = [] then None
         else if hd ds = 0x30 \<and> tl ds \<noteq> [] then None
         else if r \<noteq> [] \<and> (hd r = 0x2E \<or> hd r = 0x65 \<or> hd r = 0x45) then None
         else Some (valorDecimal ds, r))"

definition lerNumero :: "jsstring \<Rightarrow> (int \<times> jsstring) option" where
  "lerNumero s =
     (case s of
        [] \<Rightarrow> None
      | c # cs \<Rightarrow>
          if c = 0x2D then map_option (\<lambda>(n, r). (- int n, r)) (lerNatural cs)
          else map_option (\<lambda>(n, r). (int n, r)) (lerNatural s))"

text \<open>The properties of an object in creation order, a repeated name keeping its place
  and taking the later value; then the array indices first, in ascending order.\<close>

fun definir :: "(jsstring \<times> json) list \<Rightarrow> jsstring \<times> json \<Rightarrow> (jsstring \<times> json) list" where
  "definir [] p = [p]"
| "definir (q # qs) p = (if fst q = fst p then p # qs else q # definir qs p)"

definition indice :: "jsstring \<Rightarrow> nat option" where
  "indice k = (case lerNatural k of
                 Some (n, r) \<Rightarrow> if r = [] \<and> n \<le> 4294967294 then Some n else None
               | None \<Rightarrow> None)"

definition propriedades :: "(jsstring \<times> json) list \<Rightarrow> (jsstring \<times> json) list" where
  "propriedades fs =
     (let ps = foldl definir [] fs
      in sort_key (\<lambda>p. the (indice (fst p))) (filter (\<lambda>p. indice (fst p) \<noteq> None) ps)
         @ filter (\<lambda>p. indice (fst p) = None) ps)"

fun lerValor :: "nat \<Rightarrow> jsstring \<Rightarrow> (json \<times> jsstring) option"
  and lerItens :: "nat \<Rightarrow> jsstring \<Rightarrow> (json list \<times> jsstring) option"
  and lerCampos :: "nat \<Rightarrow> jsstring \<Rightarrow> ((jsstring \<times> json) list \<times> jsstring) option" where
  "lerValor 0 s = None"
| "lerValor (Suc n) s =
     (case s of
        [] \<Rightarrow> None
      | c # cs \<Rightarrow>
         if c = 0x22 then map_option (\<lambda>(t, r). (JStr t, r)) (lerString cs)
         else if c = 0x5B then
           (let s1 = pularEspacos cs
            in if s1 \<noteq> [] \<and> hd s1 = 0x5D then Some (JArr [], tl s1)
               else map_option (\<lambda>(xs, r). (JArr xs, r)) (lerItens n s1))
         else if c = 0x7B then
           (let s1 = pularEspacos cs
            in if s1 \<noteq> [] \<and> hd s1 = 0x7D then Some (JObj [], tl s1)
               else map_option (\<lambda>(fs, r). (JObj (propriedades fs), r)) (lerCampos n s1))
         else if take 4 s = str ''null'' then Some (JNull, drop 4 s)
         else if take 4 s = str ''true'' then Some (JBool True, drop 4 s)
         else if take 5 s = str ''false'' then Some (JBool False, drop 5 s)
         else map_option (\<lambda>(i, r). (JNum i, r)) (lerNumero s))"
| "lerItens 0 s = None"
| "lerItens (Suc n) s =
     (case lerValor n s of
        None \<Rightarrow> None
      | Some (v, r) \<Rightarrow>
         (let r1 = pularEspacos r
          in if r1 \<noteq> [] \<and> hd r1 = 0x2C
             then map_option (\<lambda>(vs, r2). (v # vs, r2)) (lerItens n (pularEspacos (tl r1)))
             else if r1 \<noteq> [] \<and> hd r1 = 0x5D then Some ([v], tl r1)
             else None))"
| "lerCampos 0 s = None"
| "lerCampos (Suc n) s =
     (case s of
        [] \<Rightarrow> None
      | c # cs \<Rightarrow>
         if c \<noteq> 0x22 then None
         else
           (case lerString cs of
              None \<Rightarrow> None
            | Some (k, r) \<Rightarrow>
               (let r1 = pularEspacos r
                in if r1 = [] \<or> hd r1 \<noteq> 0x3A then None
                   else
                     (case lerValor n (pularEspacos (tl r1)) of
                        None \<Rightarrow> None
                      | Some (v, r2) \<Rightarrow>
                         (let r3 = pularEspacos r2
                          in if r3 \<noteq> [] \<and> hd r3 = 0x2C
                             then map_option (\<lambda>(fs, r4). ((k, v) # fs, r4))
                                    (lerCampos n (pularEspacos (tl r3)))
                             else if r3 \<noteq> [] \<and> hd r3 = 0x7D then Some ([(k, v)], tl r3)
                             else None)))))"

definition JSONparse :: "jsstring \<Rightarrow> json option" where
  "JSONparse text =
     (case lerValor (Suc (length text)) (pularEspacos text) of
        None \<Rightarrow> None
      | Some (v, r) \<Rightarrow> if pularEspacos r = [] then Some v else None)"

section \<open>Well-formed stores\<close>

text \<open>
  What IndexedDB keeps true of an object store: the records are in ascending key order, each
  carries its key in \<open>id\<close>, the key generator is past every key, and no two records share
  the key of a unique index.
\<close>

definition storeOk :: "('a registro_scheme \<Rightarrow> jsstring option) \<Rightarrow>
    'a registro_scheme objectStore \<Rightarrow> bool" where
  "storeOk uq st =
     (sorted_wrt (<) (map fst (registros st))
      \<and> (\<forall>(k, r) \<in> set (registros st). ident r = Id k \<and> k < gerador st)
      \<and> (\<forall>(k, r) \<in> set (registros st). \<forall>(k', r') \<in> set (registros st).
            uq r \<noteq> None \<and> uq r = uq r' \<longrightarrow> k = k'))"

definition dbOk :: "db \<Rightarrow> bool" where
  "dbOk s = (storeOk uqLivro (storeLivros s) \<and> storeOk uqAluno (storeAlunos s)
             \<and> storeOk uqEmprestimo (storeEmprestimos s))"

text \<open>The invariant of the data model on the books of a state.\<close>

definition quantidadesOk :: "livro \<Rightarrow> bool" where
  "quantidadesOk l = (0 \<le> quantidadeDisponivel l \<and> quantidadeDisponivel l \<le> quantidadeTotal l)"

definition invLivros :: "db \<Rightarrow> bool" where
  "invLivros s = list_all quantidadesOk (storeGetAll (storeLivros s))"

section \<open>Auxiliary notions\<close>

text \<open>The number the key generator holds after the records \<open>xs\<close> have been written.\<close>

definition geradorApos :: "int \<Rightarrow> (int \<times> 'r) list \<Rightarrow> int" where
  "geradorApos g xs = foldl (\<lambda>g k. max g (k + 1)) g (map fst xs)"

text \<open>The record has an \<open>id\<close> property.\<close>

definition temId :: "'a registro_scheme \<Rightarrow> bool" where
  "temId r = (ident r \<noteq> SemId)"

text \<open>
  The sum of the code units of a text that are not white space: what the loop of
  \<open>gerarChecksumSimples\<close> computes before the hexadecimal rendering.
\<close>

definition peso :: "jsstring \<Rightarrow> nat" where
  "peso s = somarCodigos 0 (semEspacos s)"

definition pesoCampo :: "jsstring \<times> json \<Rightarrow> nat" where
  "pesoCampo f = peso (quoteJSONString (fst f)) + 58 + peso (stringify (snd f))"

text \<open>Reading a hexadecimal numeral back.\<close>

definition valorDigito :: "16 word \<Rightarrow> nat" where
  "valorDigito c = (if c < 58 then unat c - 48 else unat c - 87)"

definition valorHex :: "jsstring \<Rightarrow> nat" where
  "valorHex s = foldl (\<lambda>a c. 16 * a + valorDigito c) 0 s"

text \<open>
  Two payloads that are equal up to the order of the properties of their objects and up to
  white space in their serialization, at any depth.
\<close>

inductive mesmoPayload :: "json \<Rightarrow> json \<Rightarrow> bool" where
  igual: "mesmoPayload v v"
| simetrico: "mesmoPayload v w \<Longrightarrow> mesmoPayload w v"
| transitivo: "mesmoPayload u v \<Longrightarrow> mesmoPayload v w \<Longrightarrow> mesmoPayload u w"
| ordem: "mset fs = mset gs \<Longrightarrow> mesmoPayload (JObj fs) (JObj gs)"
| espacos: "semEspacos (stringify v) = semEspacos (stringify w) \<Longrightarrow> mesmoPayload v w"
| itens: "list_all2 mesmoPayload xs ys \<Longrightarrow> mesmoPayload (JArr xs) (JArr ys)"
| campos: "map fst fs = map fst gs \<Longrightarrow> list_all2 mesmoPayload (map snd fs) (map snd gs) \<Longrightarrow>
            mesmoPayload (JObj fs) (JObj gs)"

text \<open>
  A payload with the checksum of its other properties, as \<open>exportarDados\<close> sets it.
\<close>

definition assinado :: "backup \<Rightarrow> backup" where
  "assinado b =
     b\<lparr>checksum := Some (JStr (gerarChecksumSimples (backupJson (b\<lparr>checksum := None\<rparr>))))\<rparr>"

text \<open>The last record of a sequence that carries the key \<open>k\<close>.\<close>

fun ultimoCom :: "int \<Rightarrow> 'a registro_scheme list \<Rightarrow> 'a registro_scheme option" where
  "ultimoCom k [] = None"
| "ultimoCom k (x # xs) =
     (case ultimoCom k xs of
        Some r \<Rightarrow> Some r
      | None \<Rightarrow> if ident x = Id k then Some x else None)"

text \<open>The record carries a key.\<close>

definition temChave :: "'a registro_scheme \<Rightarrow> bool" where
  "temChave r = (case ident r of Id k \<Rightarrow> True | _ \<Rightarrow> False)"

text \<open>
  No two records of the sequence under different ids share the key of the unique index.
\<close>

definition semColisao ::
  "('a registro_scheme \<Rightarrow> jsstring option) \<Rightarrow> 'a registro_scheme list \<Rightarrow> bool" where
  "semColisao uq xs =
     list_all (\<lambda>x. list_all (\<lambda>y. uq x \<noteq> None \<and> uq x = uq y \<longrightarrow> ident x = ident y) xs) xs"

text \<open>
  For the text of the file: what may follow a number, the values whose objects have distinct
  property names, none of them an array index (\<open>JSON.parse\<close> gives their properties
  back in the order written), the first character of a value, and what it means for the
  text of a value to be read back.
\<close>

definition fimNumero :: "jsstring \<Rightarrow> bool" where
  "fimNumero rest =
     (rest = [] \<or> (\<not> digito (hd rest) \<and> hd rest \<noteq> 0x2E \<and> hd rest \<noteq> 0x65
                    \<and> hd rest \<noteq> 0x45))"

fun canonico :: "json \<Rightarrow> bool" where
  "canonico (JArr xs) = (\<forall>x \<in> set xs. canonico x)"
| "canonico (JObj fs) =
     (distinct (map fst fs) \<and> (\<forall>(k, v) \<in> set fs. indice k = None \<and> canonico v))"
| "canonico v = True"

definition inicial :: "16 word \<Rightarrow> bool" where
  "inicial c = (c = 0x22 \<or> c = 0x5B \<or> c = 0x7B \<or> c = 0x6E \<or> c = 0x74 \<or> c = 0x66
                \<or> c = 0x2D \<or> digito c)"

definition comeca :: "jsstring \<Rightarrow> bool" where
  "comeca s = (s \<noteq> [] \<and> inicial (hd s))"

definition relido :: "jsstring \<Rightarrow> json \<Rightarrow> bool" where
  "relido ind v = (\<forall>n rest. fimNumero rest \<longrightarrow> length (serializar ind v) \<le> n
                     \<longrightarrow> lerValor n (serializar ind v @ rest) = Some (v, rest))"

definition membro :: "jsstring \<Rightarrow> jsstring \<times> json \<Rightarrow> jsstring" where
  "membro ind p = quoteJSONString (fst p) @ 0x3A # 0x20 # serializar ind (snd p)"
section \<open>Example states\<close>

text \<open>
  A library with one book and one student; the same library after the only copy has been
  lent; and after it has come back.
\<close>

definition exLivro :: livro where
  "exLivro = \<lparr>ident = Id 1, titulo = str ''Iracema'', autor = str ''Alencar'', isbn = str ''85'',
              quantidadeTotal = 1, quantidadeDisponivel = 1\<rparr>"

definition exAluno :: aluno where
  "exAluno = \<lparr>ident = Id 1, nome = str ''Ana'', matricula = str ''007'', turma = str ''9A''\<rparr>"

definition exPedido :: emprestimo where
  "exPedido = \<lparr>ident = SemId, idLivro = 1, idAluno = 1, dataEmprestimo = str ''2024-03-01'',
               dataPrevistaDevolucao = str ''2024-03-08'', dataDevolucaoReal = None,
               status = str ''ativo''\<rparr>"

definition exForm :: formEmprestimo where
  "exForm = \<lparr>emprestimoLivro = 1, emprestimoAluno = 1,
             emprestimoDataPrevista = str ''2024-03-08''\<rparr>"

definition dbUm :: db where
  "dbUm = \<lparr>storeLivros = \<lparr>registros = [(1, exLivro)], gerador = 2\<rparr>,
           storeAlunos = \<lparr>registros = [(1, exAluno)], gerador = 2\<rparr>,
           storeEmprestimos = \<lparr>registros = [], gerador = 1\<rparr>\<rparr>"

definition dbEmprestado :: db where
  "dbEmprestado =
     \<lparr>storeLivros = \<lparr>registros = [(1, exLivro\<lparr>quantidadeDisponivel := 0\<rparr>)], gerador = 2\<rparr>,
      storeAlunos = \<lparr>registros = [(1, exAluno)], gerador = 2\<rparr>,
      storeEmprestimos = \<lparr>registros = [(1, exPedido\<lparr>ident := Id 1\<rparr>)], gerador = 2\<rparr>\<rparr>"

definition dbDevolvido :: db where
  "dbDevolvido =
     \<lparr>storeLivros = \<lparr>registros = [(1, exLivro)], gerador = 2\<rparr>,
      storeAlunos = \<lparr>registros = [(1, exAluno)], gerador = 2\<rparr>,
      storeEmprestimos =
        \<lparr>registros = [(1, exPedido\<lparr>ident := Id 1, status := str ''devolvido'',
                                    dataDevolucaoReal := Some (str ''2024-03-05'')\<rparr>)],
         gerador = 2\<rparr>\<rparr>"

definition exAgora :: jsstring where
  "exAgora = str ''2024-03-01T12:00:00.000Z''"

text \<open>A backup of a book with twelve copies, and the same file with 12 edited to 21.\<close>

definition exLivro12 :: livro where
  "exLivro12 = exLivro\<lparr>quantidadeTotal := 12, quantidadeDisponivel := 12\<rparr>"

definition db12 :: db where
  "db12 = \<lparr>storeLivros = \<lparr>registros = [(1, exLivro12)], gerador = 2\<rparr>,
           storeAlunos = storeVazio, storeEmprestimos = storeVazio\<rparr>"

definition exAdulterado :: backup where
  "exAdulterado = (exportarDados exAgora db12)\<lparr>livros := [exLivro12\<lparr>quantidadeTotal := 21\<rparr>]\<rparr>"

text \<open>A backup with two books under different ids and the same ISBN.\<close>

definition exConflito :: backup where
  "exConflito =
     assinado \<lparr>livros = [exLivro, exLivro\<lparr>ident := Id 2\<rparr>], alunos = [], emprestimos = [],
               versao = Some (JStr (str ''1.0'')), dataExportacao = Some (JStr exAgora),
               totalRegistros = Some (JNum 2), checksum = None\<rparr>"

text \<open>The same file with 12 edited to 13.\<close>

definition exDetectado :: backup where
  "exDetectado = (exportarDados exAgora db12)\<lparr>livros := [exLivro12\<lparr>quantidadeTotal := 13\<rparr>]\<rparr>"

text \<open>Two objects with the same properties in another order, a space apart.\<close>

definition exPayloadA :: json where
  "exPayloadA = JObj [(str ''a'', JNum 1), (str ''b'', JStr (str ''x y''))]"

definition exPayloadB :: json where
  "exPayloadB = JObj [(str ''b'', JStr (str ''xy'')), (str ''a'', JNum 1)]"

text \<open>
  A backup in which the only copy of the book is on the shelf and on loan at once, the
  database it restores, and that database after the loan has been returned.
\<close>

definition exFantasma :: backup where
  "exFantasma =
     assinado \<lparr>livros = [exLivro], alunos = [exAluno], emprestimos = [exPedido\<lparr>ident := Id 1\<rparr>],
               versao = Some (JStr (str ''1.0'')), dataExportacao = Some (JStr exAgora),
               totalRegistros = Some (JNum 3), checksum = None\<rparr>"

definition dbFantasma :: db where
  "dbFantasma =
     \<lparr>storeLivros = \<lparr>registros = [(1, exLivro)], gerador = 2\<rparr>,
      storeAlunos = \<lparr>registros = [(1, exAluno)], gerador = 2\<rparr>,
      storeEmprestimos = \<lparr>registros = [(1, exPedido\<lparr>ident := Id 1\<rparr>)], gerador = 2\<rparr>\<rparr>"

definition dbExcedido :: db where
  "dbExcedido =
     \<lparr>storeLivros = \<lparr>registros = [(1, exLivro\<lparr>quantidadeDisponivel := 2\<rparr>)], gerador = 2\<rparr>,
      storeAlunos = \<lparr>registros = [(1, exAluno)], gerador = 2\<rparr>,
      storeEmprestimos =
        \<lparr>registros = [(1, exPedido\<lparr>ident := Id 1, status := str ''devolvido'',
                                    dataDevolucaoReal := Some (str ''2024-03-05'')\<rparr>)],
         gerador = 2\<rparr>\<rparr>"

text \<open>
  A backup with two books under the id 1; and one with two books under the id 1, the
  later of which has the ISBN of the book under the id 2.
\<close>

definition exDuplicado :: backup where
  "exDuplicado =
     assinado \<lparr>livros = [exLivro, exLivro\<lparr>titulo := str ''Senhora''\<rparr>], alunos = [],
               emprestimos = [],
               versao = Some (JStr (str ''1.0'')), dataExportacao = Some (JStr exAgora),
               totalRegistros = Some (JNum 2), checksum = None\<rparr>"

definition exColisao :: backup where
  "exColisao =
     assinado \<lparr>livros = [exLivro, exLivro\<lparr>ident := Id 2, isbn := str ''86''\<rparr>,
                         exLivro\<lparr>isbn := str ''86''\<rparr>],
               alunos = [], emprestimos = [],
               versao = Some (JStr (str ''1.0'')), dataExportacao = Some (JStr exAgora),
               totalRegistros = Some (JNum 3), checksum = None\<rparr>"

text \<open>The checkout of the example request, as a write between two reads of an export.\<close>

definition emprestarPedido :: "db \<Rightarrow> db" where
  "emprestarPedido s = snd (registrarEmprestimo exPedido s)"

definition excluirLivroUm :: "db \<Rightarrow> db" where
  "excluirLivroUm s = deleteLivros 1 s"

text \<open>The form that edits the book 1 to three copies in total.\<close>

definition exFormLivro :: formLivro where
  "exFormLivro = \<lparr>livroId = Some 1, livroTitulo = str ''Iracema'', livroAutor = str ''Alencar'',
                  livroIsbn = str ''85'', livroQtd = 3\<rparr>"

section \<open>Lemmas on object stores\<close>

lemma map_of_gravar: "map_of (gravar k v xs) = (map_of xs)(k \<mapsto> v)"
  by (induction xs) (auto simp: fun_eq_iff)

lemma set_gravar_subset: "set (gravar k v xs) \<subseteq> insert (k, v) (set xs)"
  by (induction xs) (auto split: if_splits)

lemma fst_set_gravar: "fst ` set (gravar k v xs) = insert k (fst ` set xs)"
  by (simp add: dom_map_of_conv_image_fst [symmetric] map_of_gravar)

lemma sorted_gravar:
  "sorted_wrt (<) (map fst xs) \<Longrightarrow> sorted_wrt (<) (map fst (gravar k v xs))"
proof (induction xs)
  case Nil
  then show ?case by simp
next
  case (Cons a xs)
  obtain k' v' where a: "a = (k', v')" by (cases a)
  have "\<forall>x \<in> fst ` set (gravar k v xs). k' < x" if "k' < k"
    using Cons.prems that by (auto simp: fst_set_gravar a)
  with Cons show ?case by (auto simp: a)
qed

lemma set_gravar_sorted:
  "sorted_wrt (<) (map fst xs) \<Longrightarrow>
     set (gravar k v xs) = insert (k, v) {p \<in> set xs. fst p \<noteq> k}"
  by (induction xs) (auto split: if_splits, force+)

lemma gravar_snoc:
  "\<forall>p \<in> set xs. fst p < k \<Longrightarrow> gravar k v xs = xs @ [(k, v)]"
  by (induction xs) auto

lemma distinct_chaves: "sorted_wrt (<) (map fst xs) \<Longrightarrow> distinct (map fst (xs :: (int \<times> 'a) list))"
  using strict_sorted_iff by blast

lemma storeOk_ident:
  "storeOk uq st \<Longrightarrow> storeGet k st = Some r \<Longrightarrow> ident r = Id k \<and> k < gerador st"
  unfolding storeOk_def storeGet_def by (auto dest!: map_of_SomeD)

lemma violaIndice_iff:
  "violaIndice uq k item regs \<longleftrightarrow>
     uq item \<noteq> None \<and> (\<exists>(k', r) \<in> set regs. k' \<noteq> k \<and> uq r = uq item)"
  by (auto simp: violaIndice_def list_ex_iff)

lemma storeOk_gravar:
  assumes ok: "storeOk uq st"
    and id: "ident item = Id k"
    and nv: "\<not> violaIndice uq k item (registros st)"
    and g: "gerador st \<le> g" "k < g"
  shows "storeOk uq (st\<lparr>registros := gravar k item (registros st), gerador := g\<rparr>)"
proof -
  let ?xs = "registros st"
  have srt: "sorted_wrt (<) (map fst ?xs)" using ok by (simp add: storeOk_def)
  have set: "set (gravar k item ?xs) = insert (k, item) {p \<in> set ?xs. fst p \<noteq> k}"
    by (rule set_gravar_sorted [OF srt])
  have 1: "sorted_wrt (<) (map fst (gravar k item ?xs))" by (rule sorted_gravar [OF srt])
  have 2: "\<forall>(k', r) \<in> set (gravar k item ?xs). ident r = Id k' \<and> k' < g"
    using ok id g by (auto simp: set storeOk_def)
  have unq: "k1 = k2" if "(k1, r1) \<in> set ?xs" "(k2, r2) \<in> set ?xs" "uq r1 \<noteq> None" "uq r1 = uq r2"
    for k1 r1 k2 r2
    using ok that unfolding storeOk_def by blast
  have novo: "k2 = k" if "(k2, r2) \<in> set ?xs" "uq item \<noteq> None" "uq r2 = uq item" for k2 r2
    using nv that unfolding violaIndice_iff by blast
  have 3: "k1 = k2"
    if m1: "(k1, r1) \<in> set (gravar k item ?xs)" and m2: "(k2, r2) \<in> set (gravar k item ?xs)"
      and n: "uq r1 \<noteq> None" and u: "uq r1 = uq r2" for k1 r1 k2 r2
  proof -
    from m1 have c1: "(k1, r1) = (k, item) \<or> ((k1, r1) \<in> set ?xs \<and> k1 \<noteq> k)"
      by (auto simp: set)
    from m2 have c2: "(k2, r2) = (k, item) \<or> ((k2, r2) \<in> set ?xs \<and> k2 \<noteq> k)"
      by (auto simp: set)
    show "k1 = k2"
    proof (cases "(k1, r1) = (k, item)")
      case True
      show ?thesis
      proof (cases "(k2, r2) = (k, item)")
        case True
        with \<open>(k1, r1) = (k, item)\<close> show ?thesis by simp
      next
        case False
        with c2 have "(k2, r2) \<in> set ?xs" "k2 \<noteq> k" by auto
        moreover have "uq item \<noteq> None" "uq r2 = uq item" using True u n by auto
        ultimately show ?thesis using novo by blast
      qed
    next
      case False
      with c1 have i1: "(k1, r1) \<in> set ?xs" "k1 \<noteq> k" by auto
      show ?thesis
      proof (cases "(k2, r2) = (k, item)")
        case True
        then have "uq item \<noteq> None" "uq r1 = uq item" using u n by auto
        with i1 novo show ?thesis by blast
      next
        case False
        with c2 have "(k2, r2) \<in> set ?xs" by auto
        with i1 u n unq show ?thesis by blast
      qed
    qed
  qed
  have 3: "\<forall>(k1, r1) \<in> set (gravar k item ?xs). \<forall>(k2, r2) \<in> set (gravar k item ?xs).
            uq r1 \<noteq> None \<and> uq r1 = uq r2 \<longrightarrow> k1 = k2"
    using 3 by blast
  show ?thesis using 1 2 3 by (simp add: storeOk_def)
qed

lemma storePut_Inr:
  assumes ok: "storeOk uq st" and put: "storePut uq item st = Inr (k, st')"
  shows "storeOk uq st'"
    and "storeGet k st' = Some (item\<lparr>ident := Id k\<rparr>)"
    and "\<And>k'. k' \<noteq> k \<Longrightarrow> storeGet k' st' = storeGet k' st"
    and "gerador st \<le> gerador st'" and "k < gerador st'"
    and "ident item = Id k \<or> (ident item = SemId \<and> k = gerador st)"
proof -
  show "ident item = Id k \<or> (ident item = SemId \<and> k = gerador st)"
    using put by (auto simp: storePut_def armazenar_def split: chave.splits if_splits)
  show "storeOk uq st'"
  proof (cases "ident item")
    case SemId
    then have st': "st' = st\<lparr>registros := gravar k (item\<lparr>ident := Id k\<rparr>) (registros st),
                              gerador := gerador st + 1\<rparr>"
      and k: "k = gerador st"
      and nv: "\<not> violaIndice uq k (item\<lparr>ident := Id k\<rparr>) (registros st)"
      using put by (auto simp: storePut_def armazenar_def split: if_splits)
    show ?thesis unfolding st'
      by (rule storeOk_gravar [OF ok _ nv]) (simp_all add: k)
  next
    case IdInvalido
    then show ?thesis using put by (simp add: storePut_def)
  next
    case (Id k')
    then have st': "st' = st\<lparr>registros := gravar k item (registros st),
                              gerador := max (gerador st) (k + 1)\<rparr>"
      and k: "k' = k"
      and nv: "\<not> violaIndice uq k item (registros st)"
      using put by (auto simp: storePut_def armazenar_def split: if_splits)
    show ?thesis unfolding st'
      by (rule storeOk_gravar [OF ok _ nv]) (use Id k in simp_all)
  qed
  show "storeGet k st' = Some (item\<lparr>ident := Id k\<rparr>)"
    using put
    by (auto simp: storePut_def armazenar_def storeGet_def map_of_gravar
        split: chave.splits if_splits)
  show "storeGet k' st' = storeGet k' st" if "k' \<noteq> k" for k'
    using put that
    by (auto simp: storePut_def armazenar_def storeGet_def map_of_gravar
        split: chave.splits if_splits)
  show "gerador st \<le> gerador st'" "k < gerador st'"
    using put
    by (auto simp: storePut_def armazenar_def split: chave.splits if_splits)
qed

lemma storePut_regravar:
  assumes ok: "storeOk uq st" and get: "storeGet k st = Some r"
    and id: "ident r' = ident r" and uq: "uq r' = uq r"
  shows "storePut uq r' st = Inr (k, st\<lparr>registros := gravar k r' (registros st)\<rparr>)"
proof -
  have idk: "ident r = Id k" and kg: "k < gerador st"
    using storeOk_ident [OF ok get] by simp_all
  have mem: "(k, r) \<in> set (registros st)"
    using get by (auto simp: storeGet_def dest: map_of_SomeD)
  have "k2 = k" if "(k2, r2) \<in> set (registros st)" "uq r \<noteq> None" "uq r2 = uq r" for k2 r2
    using ok mem that unfolding storeOk_def by (metis (mono_tags, lifting) case_prodD)
  then have "\<not> violaIndice uq k r' (registros st)"
    unfolding violaIndice_iff uq by blast
  moreover have "max (gerador st) (k + 1) = gerador st" using kg by simp
  ultimately show ?thesis
    using idk id by (simp add: storePut_def armazenar_def)
qed

lemma storeGet_gerador:
  "storeOk uq st \<Longrightarrow> gerador st \<le> k \<Longrightarrow> storeGet k st = None"
  using storeOk_ident [of uq st k] by (cases "storeGet k st") auto

lemma storeAdd_Inr:
  assumes ok: "storeOk uq st" and add: "storeAdd uq item st = Inr (k, st')"
  shows "storePut uq item st = Inr (k, st')" and "storeGet k st = None"
proof -
  show put: "storePut uq item st = Inr (k, st')"
    using add by (auto simp: storeAdd_def split: chave.splits if_splits)
  from storePut_Inr(6) [OF ok put] show "storeGet k st = None"
  proof
    assume "ident item = Id k"
    then show ?thesis using add by (auto simp: storeAdd_def split: if_splits)
  next
    assume "ident item = SemId \<and> k = gerador st"
    then show ?thesis using storeGet_gerador [OF ok, of k] by simp
  qed
qed

lemma length_gravar:
  "sorted_wrt (<) (map fst xs) \<Longrightarrow>
     length (gravar k v xs) = (if map_of xs k = None then Suc (length xs) else length xs)"
proof (induction xs)
  case Nil
  then show ?case by simp
next
  case (Cons a xs)
  obtain k' v' where a: "a = (k', v')" by (cases a)
  have "map_of xs k = None" if "k \<le> k'"
  proof (cases "map_of xs k")
    case (Some y)
    then have "k \<in> fst ` set xs" by (force dest: map_of_SomeD)
    with Cons.prems that show ?thesis by (auto simp: a)
  qed simp
  with Cons show ?case by (auto simp: a)
qed

lemma length_storeGetAll_put:
  "storeOk uq st \<Longrightarrow> storePut uq item st = Inr (k, st') \<Longrightarrow>
     length (storeGetAll st') =
       (if storeGet k st = None then Suc (length (storeGetAll st)) else length (storeGetAll st))"
  by (auto simp: storePut_def armazenar_def storeGetAll_def storeGet_def length_gravar storeOk_def
      split: chave.splits if_splits)

lemma registrarEmprestimo_Inr:
  assumes ok: "dbOk s" and res: "registrarEmprestimo emp s = (Inr u, s')"
  obtains l sl k se where
    "storeGet (idLivro emp) (storeLivros s) = Some l" "0 < quantidadeDisponivel l"
    "storePut uqLivro (l\<lparr>quantidadeDisponivel := quantidadeDisponivel l - 1\<rparr>) (storeLivros s)
       = Inr (idLivro emp, sl)"
    "storeAdd uqEmprestimo emp (storeEmprestimos s) = Inr (k, se)"
    "s' = s\<lparr>storeLivros := sl, storeEmprestimos := se\<rparr>"
proof -
  from res obtain l where l: "storeGet (idLivro emp) (storeLivros s) = Some l"
    and pos: "0 < quantidadeDisponivel l"
    by (auto simp: registrarEmprestimo_def split: option.splits if_splits)
  have okl: "storeOk uqLivro (storeLivros s)" using ok by (simp add: dbOk_def)
  let ?l' = "l\<lparr>quantidadeDisponivel := quantidadeDisponivel l - 1\<rparr>"
  have put: "storePut uqLivro ?l' (storeLivros s)
      = Inr (idLivro emp, (storeLivros s)\<lparr>registros := gravar (idLivro emp) ?l' (registros (storeLivros s))\<rparr>)"
    by (rule storePut_regravar [OF okl l]) (simp_all add: uqLivro_def)
  from res l pos put obtain k se where
    "storeAdd uqEmprestimo emp (storeEmprestimos s) = Inr (k, se)"
    "s' = s\<lparr>storeLivros := (storeLivros s)\<lparr>registros := gravar (idLivro emp) ?l' (registros (storeLivros s))\<rparr>,
            storeEmprestimos := se\<rparr>"
    by (auto simp: registrarEmprestimo_def split: sum.splits)
  with l pos put that show thesis by blast
qed

lemma ativo_neq_devolvido: "str ''ativo'' \<noteq> str ''devolvido''"
  by (simp add: str_def)

lemma registrarDevolucao_Inr:
  assumes ok: "dbOk s" and emp: "storeGet i (storeEmprestimos s) = Some emp"
    and st: "status emp \<noteq> str ''devolvido''"
  shows "registrarDevolucao i d s =
     (Inr (),
      s\<lparr>storeLivros :=
           (case storeGet (idLivro emp) (storeLivros s) of
              None \<Rightarrow> storeLivros s
            | Some l \<Rightarrow> (storeLivros s)\<lparr>registros :=
                 gravar (idLivro emp) (l\<lparr>quantidadeDisponivel := quantidadeDisponivel l + 1\<rparr>)
                   (registros (storeLivros s))\<rparr>),
        storeEmprestimos :=
           (storeEmprestimos s)\<lparr>registros :=
              gravar i (emp\<lparr>status := str ''devolvido'', dataDevolucaoReal := Some d\<rparr>)
                (registros (storeEmprestimos s))\<rparr>\<rparr>)"
proof -
  have okl: "storeOk uqLivro (storeLivros s)" and oke: "storeOk uqEmprestimo (storeEmprestimos s)"
    using ok by (simp_all add: dbOk_def)
  let ?e = "emp\<lparr>status := str ''devolvido'', dataDevolucaoReal := Some d\<rparr>"
  have pe: "storePut uqEmprestimo ?e (storeEmprestimos s)
      = Inr (i, (storeEmprestimos s)\<lparr>registros := gravar i ?e (registros (storeEmprestimos s))\<rparr>)"
    by (rule storePut_regravar [OF oke emp]) (simp_all add: uqEmprestimo_def)
  show ?thesis
  proof (cases "storeGet (idLivro emp) (storeLivros s)")
    case None
    then show ?thesis using emp st pe by (simp add: registrarDevolucao_def)
  next
    case (Some l)
    let ?l = "l\<lparr>quantidadeDisponivel := quantidadeDisponivel l + 1\<rparr>"
    have "storePut uqLivro ?l (storeLivros s)
      = Inr (idLivro emp, (storeLivros s)\<lparr>registros := gravar (idLivro emp) ?l (registros (storeLivros s))\<rparr>)"
      by (rule storePut_regravar [OF okl Some]) (simp_all add: uqLivro_def)
    then show ?thesis using emp st pe Some by (simp add: registrarDevolucao_def)
  qed
qed

lemma storeGet_gravar:
  "storeGet j (st\<lparr>registros := gravar k v (registros st)\<rparr>) = (if j = k then Some v else storeGet j st)"
  by (simp add: storeGet_def map_of_gravar)

lemma registrarEmprestimo_sucesso:
  assumes ok: "dbOk s" and res: "registrarEmprestimo emp s = (Inr u, s')"
  shows "\<exists>l k. storeGet (idLivro emp) (storeLivros s) = Some l
      \<and> storeGet (idLivro emp) (storeLivros s')
          = Some (l\<lparr>quantidadeDisponivel := quantidadeDisponivel l - 1\<rparr>)
      \<and> (\<forall>j. j \<noteq> idLivro emp \<longrightarrow> storeGet j (storeLivros s') = storeGet j (storeLivros s))
      \<and> length (storeGetAll (storeLivros s')) = length (storeGetAll (storeLivros s))
      \<and> storeAlunos s' = storeAlunos s
      \<and> storeGet k (storeEmprestimos s) = None
      \<and> storeGet k (storeEmprestimos s') = Some (emp\<lparr>ident := Id k\<rparr>)
      \<and> (\<forall>j. j \<noteq> k \<longrightarrow> storeGet j (storeEmprestimos s') = storeGet j (storeEmprestimos s))
      \<and> length (storeGetAll (storeEmprestimos s')) = Suc (length (storeGetAll (storeEmprestimos s)))"
proof -
  from ok res obtain l sl k se where
    l: "storeGet (idLivro emp) (storeLivros s) = Some l"
    and putl: "storePut uqLivro (l\<lparr>quantidadeDisponivel := quantidadeDisponivel l - 1\<rparr>) (storeLivros s)
       = Inr (idLivro emp, sl)"
    and add: "storeAdd uqEmprestimo emp (storeEmprestimos s) = Inr (k, se)"
    and s': "s' = s\<lparr>storeLivros := sl, storeEmprestimos := se\<rparr>"
    by (rule registrarEmprestimo_Inr)
  have okl: "storeOk uqLivro (storeLivros s)" and oke: "storeOk uqEmprestimo (storeEmprestimos s)"
    using ok by (simp_all add: dbOk_def)
  have idl: "ident l = Id (idLivro emp)" using storeOk_ident [OF okl l] by simp
  note pl = storePut_Inr [OF okl putl]
  note pe = storePut_Inr [OF oke storeAdd_Inr(1) [OF oke add]]
  have novo: "storeGet k (storeEmprestimos s) = None" by (rule storeAdd_Inr(2) [OF oke add])
  have "storeGet (idLivro emp) sl = Some (l\<lparr>quantidadeDisponivel := quantidadeDisponivel l - 1\<rparr>)"
    using pl(2) idl by simp
  moreover have "length (storeGetAll sl) = length (storeGetAll (storeLivros s))"
    using length_storeGetAll_put [OF okl putl] l by simp
  moreover have "length (storeGetAll se) = Suc (length (storeGetAll (storeEmprestimos s)))"
    using length_storeGetAll_put [OF oke storeAdd_Inr(1) [OF oke add]] novo by simp
  ultimately show ?thesis
    using l pl(3) pe(2) pe(3) novo by (auto simp: s')
qed

section \<open>Lemmas on the import\<close>

lemma putTodos_ok:
  "storeOk uq st \<Longrightarrow> putTodos uq xs st = Inr st' \<Longrightarrow>
     storeOk uq st' \<and> gerador st \<le> gerador st'"
proof (induction xs arbitrary: st)
  case Nil
  then show ?case by simp
next
  case (Cons x xs)
  from Cons.prems(2) obtain k st1 where put: "storePut uq x st = Inr (k, st1)"
    and rest: "putTodos uq xs st1 = Inr st'"
    by (auto split: sum.splits)
  from storePut_Inr(1,4) [OF Cons.prems(1) put] Cons.IH [OF _ rest]
  show ?case by auto
qed

text \<open>Writing back what a well-formed store holds.\<close>

lemma geradorApos_simps [simp]:
  "geradorApos g [] = g"
  "geradorApos g ((k, r) # xs) = geradorApos (max g (k + 1)) xs"
  by (simp_all add: geradorApos_def)

lemma geradorApos_id: "\<forall>p \<in> set xs. fst p < g \<Longrightarrow> geradorApos g xs = g"
proof (induction xs)
  case Nil
  then show ?case by simp
next
  case (Cons x xs)
  obtain k r where x: "x = (k, r)" by (cases x)
  have "max g (k + 1) = g" using Cons.prems by (simp add: x)
  with Cons show ?case by (simp add: x)
qed

lemma putTodos_restaura:
  assumes "sorted_wrt (<) (map fst (ys @ xs))"
    and "\<forall>(k, r) \<in> set xs. ident r = Id k"
    and "\<forall>(k, r) \<in> set (ys @ xs). \<forall>(k', r') \<in> set (ys @ xs).
            uq r \<noteq> None \<and> uq r = uq r' \<longrightarrow> k = k'"
  shows "putTodos uq (map snd xs) \<lparr>registros = ys, gerador = g\<rparr>
           = Inr \<lparr>registros = ys @ xs, gerador = geradorApos g xs\<rparr>"
  using assms
proof (induction xs arbitrary: ys g)
  case Nil
  then show ?case by simp
next
  case (Cons x xs)
  obtain k r where x: "x = (k, r)" by (cases x)
  have idk: "ident r = Id k" using Cons.prems(2) by (auto simp: x)
  have menores: "\<forall>p \<in> set ys. fst p < k"
    using Cons.prems(1) by (auto simp: x sorted_wrt_append)
  have nv: "\<not> violaIndice uq k r ys"
  proof
    assume "violaIndice uq k r ys"
    then obtain k' r' where m: "(k', r') \<in> set ys" and ne: "k' \<noteq> k"
      and u: "uq r' = uq r" "uq r \<noteq> None"
      unfolding violaIndice_iff by blast
    have "(k', r') \<in> set (ys @ x # xs)" "(k, r) \<in> set (ys @ x # xs)"
      using m by (simp_all add: x)
    with Cons.prems(3) u have "k' = k" by (metis (mono_tags, lifting) case_prodD)
    with ne show False by simp
  qed
  have put: "storePut uq r \<lparr>registros = ys, gerador = g\<rparr>
      = Inr (k, \<lparr>registros = ys @ [(k, r)], gerador = max g (k + 1)\<rparr>)"
    using idk nv gravar_snoc [OF menores, of r]
    by (simp add: storePut_def armazenar_def)
  have "putTodos uq (map snd xs) \<lparr>registros = ys @ [(k, r)], gerador = max g (k + 1)\<rparr>
      = Inr \<lparr>registros = (ys @ [(k, r)]) @ xs, gerador = geradorApos (max g (k + 1)) xs\<rparr>"
    using Cons.prems by (intro Cons.IH) (simp_all add: x)
  then show ?case using put by (simp add: x)
qed

lemma putTodos_storeGetAll:
  assumes ok: "storeOk uq st"
  shows "putTodos uq (storeGetAll st) (storeClear st')
     = Inr \<lparr>registros = registros st, gerador = geradorApos (gerador st') (registros st)\<rparr>"
proof -
  have "putTodos uq (map snd (registros st)) \<lparr>registros = [], gerador = gerador st'\<rparr>
      = Inr \<lparr>registros = [] @ registros st, gerador = geradorApos (gerador st') (registros st)\<rparr>"
    using ok by (intro putTodos_restaura) (auto simp: storeOk_def)
  moreover have "storeClear st' = \<lparr>registros = [], gerador = gerador st'\<rparr>"
    by (simp add: storeClear_def)
  ultimately show ?thesis by (simp add: storeGetAll_def)
qed

lemma putTodos_storeGetAll_mesmo:
  assumes ok: "storeOk uq st"
  shows "putTodos uq (storeGetAll st) (storeClear st) = Inr st"
proof -
  have "geradorApos (gerador st) (registros st) = gerador st"
    using ok by (intro geradorApos_id) (auto simp: storeOk_def)
  then show ?thesis using putTodos_storeGetAll [OF ok, of st] by simp
qed

lemma chaveValida_storeGetAll: "storeOk uq st \<Longrightarrow> list_all chaveValida (storeGetAll st)"
  by (auto simp: storeOk_def storeGetAll_def list_all_iff chaveValida_def)

lemma importAllData_restaura:
  assumes ok: "dbOk s"
    and d: "livros d = storeGetAll (storeLivros s)" "alunos d = storeGetAll (storeAlunos s)"
      "emprestimos d = storeGetAll (storeEmprestimos s)"
  shows "\<exists>s''. importAllData d s' = (Inr (), s'') \<and> exportAllData s'' = exportAllData s"
    and "importAllData d s = (Inr (), s)"
proof -
  have okl: "storeOk uqLivro (storeLivros s)" and oka: "storeOk uqAluno (storeAlunos s)"
    and oke: "storeOk uqEmprestimo (storeEmprestimos s)"
    using ok by (simp_all add: dbOk_def)
  have val: "list_all chaveValida (livros d)" "list_all chaveValida (alunos d)"
    "list_all chaveValida (emprestimos d)"
    unfolding d by (rule chaveValida_storeGetAll [OF okl] chaveValida_storeGetAll [OF oka]
        chaveValida_storeGetAll [OF oke])+
  show "\<exists>s''. importAllData d s' = (Inr (), s'') \<and> exportAllData s'' = exportAllData s"
  proof -
    let ?s = "\<lparr>storeLivros = \<lparr>registros = registros (storeLivros s),
                   gerador = geradorApos (gerador (storeLivros s')) (registros (storeLivros s))\<rparr>,
                storeAlunos = \<lparr>registros = registros (storeAlunos s),
                   gerador = geradorApos (gerador (storeAlunos s')) (registros (storeAlunos s))\<rparr>,
                storeEmprestimos = \<lparr>registros = registros (storeEmprestimos s),
                   gerador = geradorApos (gerador (storeEmprestimos s'))
                               (registros (storeEmprestimos s))\<rparr>\<rparr>"
    have "importAllData d s' = (Inr (), ?s)"
      using val unfolding importAllData_def d
      by (simp add: putTodos_storeGetAll [OF okl] putTodos_storeGetAll [OF oka]
          putTodos_storeGetAll [OF oke])
    moreover have "exportAllData ?s = exportAllData s"
      by (simp add: exportAllData_def storeGetAll_def)
    ultimately show ?thesis by blast
  qed
  show "importAllData d s = (Inr (), s)"
    using val unfolding importAllData_def d
    by (simp add: putTodos_storeGetAll_mesmo [OF okl] putTodos_storeGetAll_mesmo [OF oka]
        putTodos_storeGetAll_mesmo [OF oke])
qed

lemma importAllData_Inl: "importAllData d s = (Inl e, s') \<Longrightarrow> s' = s"
  by (auto simp: importAllData_def split: if_splits sum.splits)

lemma storeOk_storeClear: "storeOk uq (storeClear st)"
  by (simp add: storeOk_def storeClear_def)

lemma importAllData_dbOk:
  assumes "importAllData d s = (Inr u, s')"
  shows "dbOk s'"
proof -
  from assms(1) obtain sl sa se where
    "putTodos uqLivro (livros d) (storeClear (storeLivros s)) = Inr sl"
    "putTodos uqAluno (alunos d) (storeClear (storeAlunos s)) = Inr sa"
    "putTodos uqEmprestimo (emprestimos d) (storeClear (storeEmprestimos s)) = Inr se"
    "s' = \<lparr>storeLivros = sl, storeAlunos = sa, storeEmprestimos = se\<rparr>"
    by (auto simp: importAllData_def split: if_splits sum.splits)
  then show ?thesis
    using putTodos_ok [OF storeOk_storeClear, of uqLivro "livros d" _ sl]
      putTodos_ok [OF storeOk_storeClear, of uqAluno "alunos d" _ sa]
      putTodos_ok [OF storeOk_storeClear, of uqEmprestimo "emprestimos d" _ se]
    by (simp add: dbOk_def)
qed

section \<open>Lemmas on the validation of a backup\<close>

lemma str_neq [simp]:
  "str ''versao'' \<noteq> str ''checksum''" "str ''dataExportacao'' \<noteq> str ''checksum''"
  "str ''totalRegistros'' \<noteq> str ''checksum''" "str ''livros'' \<noteq> str ''checksum''"
  "str ''alunos'' \<noteq> str ''checksum''" "str ''emprestimos'' \<noteq> str ''checksum''"
  by (simp_all add: str_def)

lemma campo_backupJson:
  "campo (str ''versao'') (backupJson b) = versao b"
  "campo (str ''dataExportacao'') (backupJson b) = dataExportacao b"
  "campo (str ''totalRegistros'') (backupJson b) = totalRegistros b"
  "campo (str ''checksum'') (backupJson b) = checksum b"
  "campo (str ''livros'') (backupJson b) = Some (JArr (map livroJson (livros b)))"
  "campo (str ''alunos'') (backupJson b) = Some (JArr (map alunoJson (alunos b)))"
  "campo (str ''emprestimos'') (backupJson b) = Some (JArr (map emprestimoJson (emprestimos b)))"
  by (simp_all add: backupJson_def raiz_def str_def split: option.splits)

lemma apagarCampo_backupJson:
  "apagarCampo (str ''checksum'') (backupJson b) = backupJson (b\<lparr>checksum := None\<rparr>)"
  by (simp add: backupJson_def raiz_def split: option.splits)

lemma validarCampos_livroJson:
  "validarCampos (livroJson l) camposLivro
     = (if ident l = SemId then Inl (CampoAusente (str ''id'')) else Inr ())"
  by (cases "ident l") (simp_all add: livroJson_def camposLivro_def chaveJson_def str_def)

lemma validarCampos_alunoJson:
  "validarCampos (alunoJson l) camposAluno
     = (if ident l = SemId then Inl (CampoAusente (str ''id'')) else Inr ())"
  by (cases "ident l") (simp_all add: alunoJson_def camposAluno_def chaveJson_def str_def)

lemma validarCampos_emprestimoJson:
  "validarCampos (emprestimoJson l) camposEmprestimo
     = (if ident l = SemId then Inl (CampoAusente (str ''id'')) else Inr ())"
  by (cases "ident l") (simp_all add: emprestimoJson_def camposEmprestimo_def chaveJson_def str_def)

lemma ehObjeto_registros:
  "ehObjeto (livroJson l)" "ehObjeto (alunoJson a)" "ehObjeto (emprestimoJson e)"
  by (simp_all add: livroJson_def alunoJson_def emprestimoJson_def)

lemma validarEstrutura_livros:
  "validarEstrutura (map livroJson ls) camposLivro
     = (if list_all temId ls then Inr () else Inl (CampoAusente (str ''id'')))"
  by (induction ls) (simp_all add: validarCampos_livroJson temId_def ehObjeto_registros)

lemma validarEstrutura_alunos:
  "validarEstrutura (map alunoJson ls) camposAluno
     = (if list_all temId ls then Inr () else Inl (CampoAusente (str ''id'')))"
  by (induction ls) (simp_all add: validarCampos_alunoJson temId_def ehObjeto_registros)

lemma validarEstrutura_emprestimos:
  "validarEstrutura (map emprestimoJson ls) camposEmprestimo
     = (if list_all temId ls then Inr () else Inl (CampoAusente (str ''id'')))"
  by (induction ls) (simp_all add: validarCampos_emprestimoJson temId_def ehObjeto_registros)

lemma validarBackup_backupJson:
  "validarBackup (backupJson b) =
     (if falso (versao b) \<or> falso (dataExportacao b) \<or> totalRegistros b = None
         \<or> falso (checksum b)
      then Inl EstruturaInvalida
      else if totalRegistros b
           \<noteq> Some (JNum (int (length (livros b) + length (alunos b) + length (emprestimos b))))
      then Inl TotalNaoConfere
      else if checksum b
           \<noteq> Some (JStr (gerarChecksumSimples (backupJson (b\<lparr>checksum := None\<rparr>))))
      then Inl ChecksumInvalido
      else if list_all temId (livros b) \<and> list_all temId (alunos b)
              \<and> list_all temId (emprestimos b)
      then Inr () else Inl (CampoAusente (str ''id'')))"
proof -
  have "backupJson b \<noteq> JNull" by (simp add: backupJson_def)
  then show ?thesis
    unfolding validarBackup_def campo_backupJson apagarCampo_backupJson
    by (simp add: validarEstrutura_livros validarEstrutura_alunos validarEstrutura_emprestimos)
qed

section \<open>Lemmas on the checksum\<close>

lemma somarCodigos_sum: "somarCodigos h s = h + sum_list (map unat s)"
  by (induction s arbitrary: h) simp_all

lemma peso_sum: "peso s = sum_list (map unat (semEspacos s))"
  by (simp add: peso_def somarCodigos_sum)

lemma peso_append [simp]: "peso (a @ b) = peso a + peso b"
  by (simp add: peso_sum semEspacos_def)

lemma peso_Nil [simp]: "peso [] = 0"
  by (simp add: peso_sum semEspacos_def)

lemma peso_Cons [simp]: "peso (c # s) = (if espaco c then 0 else unat c) + peso s"
  by (simp add: peso_sum semEspacos_def)

lemma peso_juntar: "peso (juntar ps) = sum_list (map peso ps) + (length ps - 1) * 44"
  by (induction ps rule: juntar.induct) (simp_all add: espaco_def)

lemma unat_hexDigito: "d < 16 \<Longrightarrow> unat (hexDigito d) = (if d < 10 then 48 + d else 87 + d)"
  by (simp add: hexDigito_def unat_of_nat del: of_nat_add)

lemma hexDigito_valor: "d < 16 \<Longrightarrow> valorDigito (hexDigito d) = d"
  by (simp add: valorDigito_def word_less_nat_alt unat_hexDigito)

lemma valorHex_snoc: "valorHex (s @ [c]) = 16 * valorHex s + valorDigito c"
  by (simp add: valorHex_def)

lemma valorHex_toString16: "valorHex (toString16 n) = n"
proof (induction n rule: toString16.induct)
  case (1 n)
  show ?case
  proof (cases "n < 16")
    case True
    then show ?thesis by (simp add: toString16.simps [of n] valorHex_def hexDigito_valor)
  next
    case False
    then show ?thesis
      using 1 by (simp add: toString16.simps [of n] valorHex_snoc hexDigito_valor)
  qed
qed

lemma toString16_inj: "toString16 m = toString16 n \<longleftrightarrow> m = n"
  by (metis valorHex_toString16)

lemma toString16_nonempty: "toString16 n \<noteq> []"
  by (subst toString16.simps) simp

lemma gerarChecksumSimples_peso: "gerarChecksumSimples v = toString16 (peso (stringify v))"
  by (simp add: gerarChecksumSimples_def peso_def)

lemma gerarChecksumSimples_eq:
  "gerarChecksumSimples v = gerarChecksumSimples w \<longleftrightarrow> peso (stringify v) = peso (stringify w)"
  by (simp add: gerarChecksumSimples_peso toString16_inj)

lemma peso_JArr:
  "peso (stringify (JArr xs))
     = 91 + (sum_list (map (\<lambda>x. peso (stringify x)) xs) + (length xs - 1) * 44) + 93"
  by (simp add: peso_juntar comp_def espaco_def)

lemma peso_JObj:
  "peso (stringify (JObj fs))
     = 123 + (sum_list (map pesoCampo fs) + (length fs - 1) * 44) + 125"
proof -
  have "(\<lambda>x. peso (case x of (k, v) \<Rightarrow> quoteJSONString k @ 58 # stringify v)) = pesoCampo"
    by (rule ext) (simp add: pesoCampo_def espaco_def split: prod.splits)
  then show ?thesis
    by (simp add: peso_juntar comp_def espaco_def)
qed

lemma mesmoPayload_peso: "mesmoPayload v w \<Longrightarrow> peso (stringify v) = peso (stringify w)"
proof (induction rule: mesmoPayload.induct)
  case (ordem fs gs)
  have "sum_mset (image_mset pesoCampo (mset fs)) = sum_mset (image_mset pesoCampo (mset gs))"
    using ordem by simp
  then have "sum_list (map pesoCampo fs) = sum_list (map pesoCampo gs)"
    by (simp add: sum_mset_sum_list [symmetric])
  moreover have "length fs = length gs" using ordem by (metis size_mset)
  ultimately show ?case by (simp only: peso_JObj)
next
  case (espacos v w)
  then show ?case by (simp add: peso_def)
next
  case (itens xs ys)
  then have "map (\<lambda>x. peso (stringify x)) xs = map (\<lambda>x. peso (stringify x)) ys"
    by (induction xs ys rule: list_all2_induct) simp_all
  moreover have "length xs = length ys" using itens by (simp add: list_all2_lengthD)
  ultimately show ?case by (simp only: peso_JArr)
next
  case (campos fs gs)
  have len: "length fs = length gs" using campos(1) by (metis length_map)
  have "map pesoCampo fs = map pesoCampo gs"
    using len campos
  proof (induction fs gs rule: list_induct2)
    case Nil
    then show ?case by simp
  next
    case (Cons x xs y ys)
    then show ?case by (simp add: pesoCampo_def)
  qed
  with len show ?case by (simp only: peso_JObj)
qed simp_all

section \<open>Lemmas on the export\<close>

lemma exportarDados_campos:
  "livros (exportarDados agora s) = storeGetAll (storeLivros s)"
  "alunos (exportarDados agora s) = storeGetAll (storeAlunos s)"
  "emprestimos (exportarDados agora s) = storeGetAll (storeEmprestimos s)"
  "versao (exportarDados agora s) = Some (JStr (str ''1.0''))"
  "dataExportacao (exportarDados agora s) = Some (JStr agora)"
  "totalRegistros (exportarDados agora s)
     = Some (JNum (int (length (storeGetAll (storeLivros s)) + length (storeGetAll (storeAlunos s))
                        + length (storeGetAll (storeEmprestimos s)))))"
  by (simp_all add: exportarDados_def exportAllData_def Let_def)

lemma exportarDados_checksum:
  "checksum (exportarDados agora s)
     = Some (JStr (gerarChecksumSimples (backupJson ((exportarDados agora s)\<lparr>checksum := None\<rparr>))))"
  by (simp add: exportarDados_def Let_def)

lemma temId_storeGetAll: "storeOk uq st \<Longrightarrow> list_all temId (storeGetAll st)"
  by (auto simp: storeOk_def storeGetAll_def list_all_iff temId_def)

lemma validarBackup_exportarDados:
  assumes ok: "dbOk s" and agora: "agora \<noteq> []"
  shows "validarBackup (backupJson (exportarDados agora s)) = Inr ()"
proof -
  have "list_all temId (storeGetAll (storeLivros s))" "list_all temId (storeGetAll (storeAlunos s))"
    "list_all temId (storeGetAll (storeEmprestimos s))"
    using ok by (auto simp: dbOk_def intro: temId_storeGetAll)
  moreover have "str ''1.0'' \<noteq> []" by (simp add: str_def)
  ultimately show ?thesis
    unfolding validarBackup_backupJson
    using agora exportarDados_checksum [of agora s]
    by (simp add: exportarDados_campos gerarChecksumSimples_peso toString16_nonempty)
qed

lemma assinado_campos [simp]:
  "livros (assinado b) = livros b" "alunos (assinado b) = alunos b"
  "emprestimos (assinado b) = emprestimos b" "versao (assinado b) = versao b"
  "dataExportacao (assinado b) = dataExportacao b" "totalRegistros (assinado b) = totalRegistros b"
  "checksum (assinado b)
     = Some (JStr (gerarChecksumSimples (backupJson (b\<lparr>checksum := None\<rparr>))))"
  "(assinado b)\<lparr>checksum := None\<rparr> = b\<lparr>checksum := None\<rparr>"
  by (simp_all add: assinado_def)

lemma peso_backupJson:
  "peso (stringify (backupJson b)) =
     123 + (sum_list (map pesoCampo
        (raiz (str ''versao'') (versao b) @ raiz (str ''dataExportacao'') (dataExportacao b)
         @ raiz (str ''totalRegistros'') (totalRegistros b)
         @ [(str ''livros'', JArr (map livroJson (livros b))),
            (str ''alunos'', JArr (map alunoJson (alunos b))),
            (str ''emprestimos'', JArr (map emprestimoJson (emprestimos b)))]
         @ raiz (str ''checksum'') (checksum b)))
      + (length (raiz (str ''versao'') (versao b) @ raiz (str ''dataExportacao'') (dataExportacao b)
         @ raiz (str ''totalRegistros'') (totalRegistros b)
         @ [(str ''livros'', JArr (map livroJson (livros b))),
            (str ''alunos'', JArr (map alunoJson (alunos b))),
            (str ''emprestimos'', JArr (map emprestimoJson (emprestimos b)))]
         @ raiz (str ''checksum'') (checksum b)) - 1) * 44) + 125"
  unfolding backupJson_def by (rule peso_JObj)

lemma peso_livroJson_total:
  "peso (stringify (livroJson (l\<lparr>quantidadeTotal := n\<rparr>))) + peso (numberToString (quantidadeTotal l))
     = peso (stringify (livroJson l)) + peso (numberToString n)"
  unfolding livroJson_def peso_JObj by (simp add: pesoCampo_def)

lemma gerarChecksumSimples_nonempty [simp]: "gerarChecksumSimples v \<noteq> []"
  by (simp add: gerarChecksumSimples_def toString16_nonempty)

lemma validarBackup_backupJson_passa:
  assumes "\<not> falso (versao b)" "\<not> falso (dataExportacao b)" "\<not> falso (checksum b)"
    and "totalRegistros b
           = Some (JNum (int (length (livros b) + length (alunos b) + length (emprestimos b))))"
  shows "validarBackup (backupJson b)
           \<notin> {Inl TypeError, Inl EstruturaInvalida, Inl DadosCorrompidos, Inl TotalNaoConfere}"
  using assms by (simp add: validarBackup_backupJson)

section \<open>Lemmas on the invariants\<close>

lemma dbOk_dbVazio: "dbOk dbVazio"
  by (simp add: dbOk_def dbVazio_def storeVazio_def storeOk_def)

lemma ident_mesmo: "ident r = c \<Longrightarrow> r\<lparr>ident := c\<rparr> = r"
  by (cases r) simp

lemma storePut_registros:
  "storePut uq item st = Inr (k, st') \<Longrightarrow>
     registros st' = gravar k (item\<lparr>ident := Id k\<rparr>) (registros st)"
  by (auto simp: storePut_def armazenar_def ident_mesmo split: chave.splits if_splits)

lemma quantidadesOk_ident [simp]: "quantidadesOk (l\<lparr>ident := c\<rparr>) = quantidadesOk l"
  by (simp add: quantidadesOk_def)

lemma invLivros_iff:
  "invLivros s \<longleftrightarrow> (\<forall>p \<in> set (registros (storeLivros s)). quantidadesOk (snd p))"
  by (auto simp: invLivros_def storeGetAll_def list_all_iff)

lemma invLivros_put:
  assumes ok: "storeOk uqLivro (storeLivros s)" and inv: "invLivros s"
    and put: "storePut uqLivro l (storeLivros s) = Inr (k, sl)"
    and sl: "storeLivros s' = sl"
  shows "invLivros s' \<longleftrightarrow> quantidadesOk l"
proof -
  have srt: "sorted_wrt (<) (map fst (registros (storeLivros s)))"
    using ok by (simp add: storeOk_def)
  have "set (registros sl)
      = insert (k, l\<lparr>ident := Id k\<rparr>) {p \<in> set (registros (storeLivros s)). fst p \<noteq> k}"
    unfolding storePut_registros [OF put] by (rule set_gravar_sorted [OF srt])
  then show ?thesis
    using inv by (auto simp: invLivros_iff sl)
qed

lemma registrarEmprestimo_Inl: "registrarEmprestimo emp s = (Inl e, s') \<Longrightarrow> s' = s"
  by (auto simp: registrarEmprestimo_def split: option.splits if_splits sum.splits)

lemma registrarDevolucao_Inl: "registrarDevolucao i d s = (Inl e, s') \<Longrightarrow> s' = s"
  by (auto simp: registrarDevolucao_def split: option.splits if_splits sum.splits)

lemma storeGet_quantidadesOk:
  "invLivros s \<Longrightarrow> storeGet k (storeLivros s) = Some l \<Longrightarrow> quantidadesOk l"
  by (force simp: invLivros_iff storeGet_def dest: map_of_SomeD)

lemma registrarEmprestimo_inv:
  assumes ok: "dbOk s" and inv: "invLivros s" and res: "registrarEmprestimo emp s = (r, s')"
  shows "invLivros s'"
proof (cases r)
  case (Inl e)
  with res inv show ?thesis by (auto dest: registrarEmprestimo_Inl)
next
  case (Inr u)
  with res have res': "registrarEmprestimo emp s = (Inr u, s')" by simp
  from ok res' obtain l sl k se where
    l: "storeGet (idLivro emp) (storeLivros s) = Some l" and pos: "0 < quantidadeDisponivel l"
    and put: "storePut uqLivro (l\<lparr>quantidadeDisponivel := quantidadeDisponivel l - 1\<rparr>)
                (storeLivros s) = Inr (idLivro emp, sl)"
    and s': "s' = s\<lparr>storeLivros := sl, storeEmprestimos := se\<rparr>"
    by (rule registrarEmprestimo_Inr)
  have "quantidadesOk l" by (rule storeGet_quantidadesOk [OF inv l])
  with pos have "quantidadesOk (l\<lparr>quantidadeDisponivel := quantidadeDisponivel l - 1\<rparr>)"
    by (simp add: quantidadesOk_def)
  moreover have "storeOk uqLivro (storeLivros s)" using ok by (simp add: dbOk_def)
  ultimately show ?thesis
    using invLivros_put [OF _ inv put, of s'] by (simp add: s')
qed

lemma registrarDevolucao_inv:
  assumes ok: "dbOk s" and inv: "invLivros s"
    and emp: "storeGet i (storeEmprestimos s) = Some emp"
    and res: "registrarDevolucao i d s = (Inr u, s')"
  shows "invLivros s' \<longleftrightarrow>
           (case storeGet (idLivro emp) (storeLivros s) of
              None \<Rightarrow> True
            | Some l \<Rightarrow> quantidadeDisponivel l < quantidadeTotal l)"
proof -
  have st: "status emp \<noteq> str ''devolvido''"
    using res emp by (auto simp: registrarDevolucao_def split: if_splits)
  note r = registrarDevolucao_Inr [OF ok emp st, of d]
  have okl: "storeOk uqLivro (storeLivros s)" using ok by (simp add: dbOk_def)
  show ?thesis
  proof (cases "storeGet (idLivro emp) (storeLivros s)")
    case None
    then have "storeLivros s' = storeLivros s" using r res by auto
    then show ?thesis using inv None by (simp add: invLivros_iff)
  next
    case (Some l)
    let ?l = "l\<lparr>quantidadeDisponivel := quantidadeDisponivel l + 1\<rparr>"
    have put: "storePut uqLivro ?l (storeLivros s)
      = Inr (idLivro emp, (storeLivros s)\<lparr>registros := gravar (idLivro emp) ?l (registros (storeLivros s))\<rparr>)"
      by (rule storePut_regravar [OF okl Some]) (simp_all add: uqLivro_def)
    have sl: "storeLivros s' = (storeLivros s)\<lparr>registros := gravar (idLivro emp) ?l (registros (storeLivros s))\<rparr>"
      using r res Some by auto
    have "quantidadesOk l" by (rule storeGet_quantidadesOk [OF inv Some])
    then have "quantidadesOk ?l \<longleftrightarrow> quantidadeDisponivel l < quantidadeTotal l"
      by (auto simp: quantidadesOk_def)
    then show ?thesis
      using invLivros_put [OF okl inv put sl] Some by simp
  qed
qed

lemma salvarLivro_inv:
  assumes ok: "dbOk s" and inv: "invLivros s" and q: "quantidadesOk l"
    and res: "salvarLivro e l s = (a, s')"
  shows "invLivros s'"
proof (cases "storePut uqLivro l (storeLivros s)")
  case (Inl x)
  then have "s' = s" using res by (simp add: salvarLivro_def saveLivros_def)
  with inv show ?thesis by simp
next
  case (Inr p)
  obtain k sl where p: "p = (k, sl)" by (cases p)
  have "storeLivros s' = sl" using res Inr p by (auto simp: salvarLivro_def saveLivros_def)
  moreover have "storeOk uqLivro (storeLivros s)" using ok by (simp add: dbOk_def)
  ultimately show ?thesis
    using invLivros_put [OF _ inv Inr [unfolded p], of s'] q by simp
qed

lemma handleSalvarLivro_inv:
  assumes ok: "dbOk s" and inv: "invLivros s"
    and c: "0 \<le> livroQtd form \<or> (\<exists>i l. livroId form = Some i \<and> getByIdLivros i s = Some l)"
    and res: "handleSalvarLivro form s = (a, s')"
  shows "invLivros s'"
proof (cases "livroId form")
  case None
  with c have "0 \<le> livroQtd form" by simp
  then show ?thesis
    using res None
    by (auto simp: handleSalvarLivro_def Let_def quantidadesOk_def
        intro!: salvarLivro_inv [OF ok inv, rotated])
next
  case (Some i)
  show ?thesis
  proof (cases "getByIdLivros i s")
    case None
    with c Some have "0 \<le> livroQtd form" by simp
    then show ?thesis
      using res Some None
      by (auto simp: handleSalvarLivro_def Let_def quantidadesOk_def
          intro!: salvarLivro_inv [OF ok inv, rotated])
  next
    case (Some antigo)
    have "quantidadesOk antigo"
      using storeGet_quantidadesOk [OF inv] Some by (simp add: getByIdLivros_def)
    then show ?thesis
      using res Some \<open>livroId form = Some i\<close> inv
      by (auto simp: handleSalvarLivro_def Let_def quantidadesOk_def split: if_splits
          intro!: salvarLivro_inv [OF ok inv, rotated])
  qed
qed

lemma putTodos_origem:
  "putTodos uq xs st = Inr st' \<Longrightarrow> (k, r) \<in> set (registros st') \<Longrightarrow>
     (\<exists>x \<in> set xs. r = x\<lparr>ident := Id k\<rparr>) \<or> (k, r) \<in> set (registros st)"
proof (induction xs arbitrary: st)
  case Nil
  then show ?case by simp
next
  case (Cons x xs)
  from Cons.prems(1) obtain k1 st1 where put: "storePut uq x st = Inr (k1, st1)"
    and rest: "putTodos uq xs st1 = Inr st'"
    by (auto split: sum.splits)
  from Cons.IH [OF rest Cons.prems(2)]
  show ?case
  proof
    assume "\<exists>x \<in> set xs. r = x\<lparr>ident := Id k\<rparr>"
    then show ?thesis by auto
  next
    assume "(k, r) \<in> set (registros st1)"
    then have "(k, r) = (k1, x\<lparr>ident := Id k1\<rparr>) \<or> (k, r) \<in> set (registros st)"
      using set_gravar_subset [of k1 "x\<lparr>ident := Id k1\<rparr>" "registros st"]
      unfolding storePut_registros [OF put] by auto
    then show ?thesis by auto
  qed
qed

lemma importAllData_inv:
  assumes res: "importAllData d s = (Inr u, s')" and q: "list_all quantidadesOk (livros d)"
  shows "invLivros s'"
proof -
  from res obtain sl where p: "putTodos uqLivro (livros d) (storeClear (storeLivros s)) = Inr sl"
    and sl: "storeLivros s' = sl"
    by (auto simp: importAllData_def split: if_splits sum.splits)
  have "quantidadesOk r" if "(k, r) \<in> set (registros sl)" for k r
    using putTodos_origem [OF p that] q by (auto simp: storeClear_def list_all_iff)
  then show ?thesis by (auto simp: invLivros_iff sl)
qed

text \<open>Every operation leaves a well-formed database well formed.\<close>

lemma registrarEmprestimo_dbOk:
  assumes ok: "dbOk s" and res: "registrarEmprestimo emp s = (r, s')"
  shows "dbOk s'"
proof (cases r)
  case (Inl e)
  with res ok show ?thesis by (auto dest: registrarEmprestimo_Inl)
next
  case (Inr u)
  with res have res': "registrarEmprestimo emp s = (Inr u, s')" by simp
  from ok res' obtain l sl k se where
    put: "storePut uqLivro (l\<lparr>quantidadeDisponivel := quantidadeDisponivel l - 1\<rparr>)
                (storeLivros s) = Inr (idLivro emp, sl)"
    and add: "storeAdd uqEmprestimo emp (storeEmprestimos s) = Inr (k, se)"
    and s': "s' = s\<lparr>storeLivros := sl, storeEmprestimos := se\<rparr>"
    by (rule registrarEmprestimo_Inr)
  have okl: "storeOk uqLivro (storeLivros s)" and oke: "storeOk uqEmprestimo (storeEmprestimos s)"
    and oka: "storeOk uqAluno (storeAlunos s)"
    using ok by (simp_all add: dbOk_def)
  show ?thesis
    using storePut_Inr(1) [OF okl put] storePut_Inr(1) [OF oke storeAdd_Inr(1) [OF oke add]] oka
    by (simp add: dbOk_def s')
qed

lemma registrarDevolucao_dbOk:
  assumes ok: "dbOk s" and res: "registrarDevolucao i d s = (r, s')"
  shows "dbOk s'"
proof (cases r)
  case (Inl e)
  with res ok show ?thesis by (auto dest: registrarDevolucao_Inl)
next
  case (Inr u)
  have okl: "storeOk uqLivro (storeLivros s)" and oke: "storeOk uqEmprestimo (storeEmprestimos s)"
    and oka: "storeOk uqAluno (storeAlunos s)"
    using ok by (simp_all add: dbOk_def)
  from res Inr obtain emp where emp: "storeGet i (storeEmprestimos s) = Some emp"
    and st: "status emp \<noteq> str ''devolvido''"
    by (auto simp: registrarDevolucao_def split: option.splits if_splits)
  let ?e = "emp\<lparr>status := str ''devolvido'', dataDevolucaoReal := Some d\<rparr>"
  have pe: "storePut uqEmprestimo ?e (storeEmprestimos s)
      = Inr (i, (storeEmprestimos s)\<lparr>registros := gravar i ?e (registros (storeEmprestimos s))\<rparr>)"
    by (rule storePut_regravar [OF oke emp]) (simp_all add: uqEmprestimo_def)
  note r = registrarDevolucao_Inr [OF ok emp st, of d]
  show ?thesis
  proof (cases "storeGet (idLivro emp) (storeLivros s)")
    case None
    then show ?thesis
      using r res storePut_Inr(1) [OF oke pe] okl oka by (auto simp: dbOk_def)
  next
    case (Some l)
    let ?l = "l\<lparr>quantidadeDisponivel := quantidadeDisponivel l + 1\<rparr>"
    have pl: "storePut uqLivro ?l (storeLivros s)
      = Inr (idLivro emp, (storeLivros s)\<lparr>registros := gravar (idLivro emp) ?l (registros (storeLivros s))\<rparr>)"
      by (rule storePut_regravar [OF okl Some]) (simp_all add: uqLivro_def)
    show ?thesis
      using r res Some storePut_Inr(1) [OF oke pe] storePut_Inr(1) [OF okl pl] oka
      by (auto simp: dbOk_def)
  qed
qed

lemma saveLivros_dbOk:
  assumes ok: "dbOk s" and res: "saveLivros l s = (r, s')"
  shows "dbOk s'"
proof (cases "storePut uqLivro l (storeLivros s)")
  case (Inl x)
  then show ?thesis using res ok by (simp add: saveLivros_def)
next
  case (Inr p)
  obtain k sl where p: "p = (k, sl)" by (cases p)
  have "storeOk uqLivro (storeLivros s)" using ok by (simp add: dbOk_def)
  from storePut_Inr(1) [OF this Inr [unfolded p]]
  show ?thesis using res ok Inr p by (auto simp: saveLivros_def dbOk_def)
qed

lemma handleSalvarLivro_dbOk:
  assumes ok: "dbOk s" and res: "handleSalvarLivro form s = (a, s')"
  shows "dbOk s'"
  using res ok
  by (auto simp: handleSalvarLivro_def salvarLivro_def Let_def
      split: option.splits if_splits prod.splits sum.splits dest: saveLivros_dbOk [OF ok])

lemma storeOk_storeDelete:
  assumes ok: "storeOk uq st"
  shows "storeOk uq (storeDelete k st)"
proof -
  let ?xs = "registros st"
  let ?ys = "filter (\<lambda>(k', r). k' \<noteq> k) (registros st)"
  have sub: "\<And>p. p \<in> set ?ys \<Longrightarrow> p \<in> set ?xs" by simp
  have 1: "sorted_wrt (<) (map fst ?ys)"
    using ok by (simp add: storeOk_def sorted_wrt_map sorted_wrt_filter)
  have 2: "\<forall>(k', r) \<in> set ?ys. ident r = Id k' \<and> k' < gerador st"
    using ok unfolding storeOk_def by auto
  have unq: "k1 = k2" if "(k1, r1) \<in> set ?xs" "(k2, r2) \<in> set ?xs" "uq r1 \<noteq> None" "uq r1 = uq r2"
    for k1 r1 k2 r2
    using ok that unfolding storeOk_def by blast
  have 3: "\<forall>(k1, r1) \<in> set ?ys. \<forall>(k2, r2) \<in> set ?ys.
            uq r1 \<noteq> None \<and> uq r1 = uq r2 \<longrightarrow> k1 = k2"
    using unq sub by blast
  have "registros (storeDelete k st) = ?ys" "gerador (storeDelete k st) = gerador st"
    by (simp_all add: storeDelete_def)
  then show ?thesis unfolding storeOk_def using 1 2 3 by (simp only: simp_thms)
qed

lemma deleteLivros_dbOk: "dbOk s \<Longrightarrow> dbOk (deleteLivros i s)"
  by (simp add: dbOk_def deleteLivros_def storeOk_storeDelete)

lemma handleImportarDados_dbOk:
  assumes ok: "dbOk s" and res: "handleImportarDados arquivo confirma s = (a, s')"
  shows "dbOk s'"
proof -
  have 1: "dbOk t'" if "dbOk t" "importAllData d t = (r, t')" for d :: "'x dados_scheme" and t r t'
    using that importAllData_Inl [of d t _ t'] importAllData_dbOk [of d t _ t'] by (cases r) auto
  show ?thesis
    using res ok
    by (auto simp: handleImportarDados_def Let_def
        split: option.splits sum.splits if_splits prod.splits
        dest: importAllData_dbOk importAllData_Inl)
qed

section \<open>Lemmas on repeated identifiers\<close>

lemma temChave_iff: "temChave r \<longleftrightarrow> (\<exists>k. ident r = Id k)"
  by (auto simp: temChave_def split: chave.splits)

lemma semColisao_iff:
  "semColisao uq xs \<longleftrightarrow>
     (\<forall>x \<in> set xs. \<forall>y \<in> set xs. uq x \<noteq> None \<and> uq x = uq y \<longrightarrow> ident x = ident y)"
  by (simp add: semColisao_def list_all_iff)

lemma putTodos_validos:
  assumes xs: "set xs \<subseteq> S"
    and st: "\<forall>(k, r) \<in> set (registros st). r \<in> S \<and> ident r = Id k"
    and ch: "\<forall>x \<in> S. temChave x"
    and un: "\<forall>x \<in> S. \<forall>y \<in> S. uq x \<noteq> None \<and> uq x = uq y \<longrightarrow> ident x = ident y"
  shows "\<exists>st'. putTodos uq xs st = Inr st'
           \<and> (\<forall>k. storeGet k st' = (case ultimoCom k xs of None \<Rightarrow> storeGet k st | Some r \<Rightarrow> Some r))"
  using xs st
proof (induction xs arbitrary: st)
  case Nil
  then show ?case by simp
next
  case (Cons x xs)
  have xS: "x \<in> S" using Cons.prems(1) by simp
  then obtain k where idk: "ident x = Id k" using ch by (auto simp: temChave_iff)
  have nv: "\<not> violaIndice uq k x (registros st)"
  proof
    assume "violaIndice uq k x (registros st)"
    then obtain k' r' where m: "(k', r') \<in> set (registros st)" and ne: "k' \<noteq> k"
      and u: "uq r' = uq x" "uq x \<noteq> None"
      unfolding violaIndice_iff by blast
    from m Cons.prems(2) have "r' \<in> S" "ident r' = Id k'" by auto
    with un xS u have "Id k' = Id k" using idk by metis
    with ne show False by simp
  qed
  let ?st1 = "st\<lparr>registros := gravar k x (registros st), gerador := max (gerador st) (k + 1)\<rparr>"
  have put: "storePut uq x st = Inr (k, ?st1)"
    using idk nv by (simp add: storePut_def armazenar_def)
  have st1: "\<forall>(k', r) \<in> set (registros ?st1). r \<in> S \<and> ident r = Id k'"
    using set_gravar_subset [of k x "registros st"] Cons.prems(2) xS idk by auto
  from Cons.IH [OF _ st1] Cons.prems(1) obtain st' where
    rest: "putTodos uq xs ?st1 = Inr st'"
    and get: "\<forall>k'. storeGet k' st'
        = (case ultimoCom k' xs of None \<Rightarrow> storeGet k' ?st1 | Some r \<Rightarrow> Some r)"
    by auto
  have g1: "storeGet k' ?st1 = (if k' = k then Some x else storeGet k' st)" for k'
    by (simp add: storeGet_def map_of_gravar)
  have "storeGet k' st'
      = (case ultimoCom k' (x # xs) of None \<Rightarrow> storeGet k' st | Some r \<Rightarrow> Some r)" for k'
    using get g1 idk by (auto split: option.splits)
  then show ?case using put rest by simp
qed

lemma putTodos_ultimoCom:
  assumes ch: "list_all temChave xs" and un: "semColisao uq xs"
  shows "\<exists>st'. putTodos uq xs (storeClear st) = Inr st' \<and> storeOk uq st'
           \<and> (\<forall>k. storeGet k st' = ultimoCom k xs)"
proof -
  have "\<exists>st'. putTodos uq xs (storeClear st) = Inr st'
           \<and> (\<forall>k. storeGet k st'
                 = (case ultimoCom k xs of None \<Rightarrow> storeGet k (storeClear st) | Some r \<Rightarrow> Some r))"
    using ch un
    by (intro putTodos_validos [where S = "set xs"])
      (auto simp: storeClear_def list_all_iff semColisao_iff)
  then obtain st' where p: "putTodos uq xs (storeClear st) = Inr st'"
    and g: "\<forall>k. storeGet k st'
                 = (case ultimoCom k xs of None \<Rightarrow> storeGet k (storeClear st) | Some r \<Rightarrow> Some r)"
    by blast
  have "storeGet k st' = ultimoCom k xs" for k
    using g by (simp add: storeClear_def storeGet_def split: option.splits)
  moreover have "storeOk uq st'"
    using putTodos_ok [OF storeOk_storeClear p] by simp
  ultimately show ?thesis using p by blast
qed

lemma ultimoCom_None: "ultimoCom k xs = None \<longleftrightarrow> Id k \<notin> ident ` set xs"
  by (induction xs) (auto split: option.splits)

lemma distinct_ident_storeGetAll:
  "storeOk uq st \<Longrightarrow> distinct (map ident (storeGetAll st))"
proof -
  assume ok: "storeOk uq st"
  have "map ident (storeGetAll st) = map Id (map fst (registros st))"
    using ok by (auto simp: storeOk_def storeGetAll_def)
  moreover have "distinct (map fst (registros st))"
    using ok distinct_chaves by (auto simp: storeOk_def)
  ultimately show ?thesis
    by (auto simp: distinct_map inj_on_def simp del: map_map)
qed

lemma length_storeGetAll_ultimoCom:
  assumes ok: "storeOk uq st" and g: "\<forall>k. storeGet k st = ultimoCom k xs"
    and ch: "list_all temChave xs"
  shows "length (storeGetAll st) = card (set (map ident xs))"
proof -
  have d: "distinct (map fst (registros st))"
    using ok distinct_chaves by (auto simp: storeOk_def)
  have "length (storeGetAll st) = card (fst ` set (registros st))"
    using distinct_card [OF d] by (simp add: storeGetAll_def)
  also have "fst ` set (registros st) = dom (\<lambda>k. storeGet k st)"
    by (simp add: storeGet_def dom_map_of_conv_image_fst)
  also have "\<dots> = {k. Id k \<in> ident ` set xs}"
    using g by (auto simp: dom_def ultimoCom_None)
  also have "card \<dots> = card (Id ` {k. Id k \<in> ident ` set xs})"
    by (rule card_image [symmetric]) (simp add: inj_on_def)
  also have "Id ` {k. Id k \<in> ident ` set xs} = ident ` set xs"
  proof (intro set_eqI iffI)
    fix c assume "c \<in> Id ` {k. Id k \<in> ident ` set xs}"
    then show "c \<in> ident ` set xs" by auto
  next
    fix c assume c: "c \<in> ident ` set xs"
    then obtain x where "x \<in> set xs" "c = ident x" by auto
    with ch obtain k where "c = Id k" by (auto simp: list_all_iff temChave_iff)
    with c show "c \<in> Id ` {k. Id k \<in> ident ` set xs}" by simp
  qed
  finally show ?thesis by simp
qed

lemma card_menor:
  assumes "\<not> distinct ys"
  shows "card (set ys) < length ys"
proof -
  have "card (set ys) \<noteq> length ys" using assms card_distinct by blast
  moreover have "card (set ys) \<le> length ys" by (rule card_length)
  ultimately show ?thesis by simp
qed

section \<open>Lemmas on the text of the backup file\<close>

subsection \<open>Strings\<close>

lemma lerHex_hexDigito: "d < 16 \<Longrightarrow> lerHex (hexDigito d) = Some d"
proof -
  assume d: "d < 16"
  have u: "unat (hexDigito d) = (if d < 10 then 48 + d else 87 + d)"
    by (rule unat_hexDigito [OF d])
  show ?thesis
    using d unfolding lerHex_def word_le_nat_alt u by simp
qed

lemma recompor:
  "4096 * (n div 4096) + 256 * (n div 256 mod 16) + 16 * (n div 16 mod 16) + n mod 16 = (n::nat)"
proof -
  define a b c r0 r1 r2 where "a = n div 16" and "b = a div 16" and "c = b div 16"
    and "r0 = n mod 16" and "r1 = a mod 16" and "r2 = b mod 16"
  have 1: "n = 16 * a + r0" "a = 16 * b + r1" "b = 16 * c + r2"
    by (simp_all add: a_def b_def c_def r0_def r1_def r2_def)
  have d: "n div 256 = b" "n div 4096 = c" "n div 16 = a"
    by (simp_all add: a_def b_def c_def div_mult2_eq)
  show ?thesis
    unfolding d r0_def [symmetric] r1_def [symmetric] r2_def [symmetric]
    using 1 by linarith
qed

lemma comUnidade_Some [simp]: "comUnidade c (Some (t, r)) = Some (c # t, r)"
  by (simp add: comUnidade_def)

lemma comUnidade_None [simp]: "comUnidade c None = None"
  by (simp add: comUnidade_def)

lemma lerString_u:
  "lerHex a = Some x \<Longrightarrow> lerHex b = Some y \<Longrightarrow> lerHex c = Some z \<Longrightarrow> lerHex d = Some w \<Longrightarrow>
   lerString (0x5C # 0x75 # a # b # c # d # t)
     = comUnidade (of_nat (4096 * x + 256 * y + 16 * z + w)) (lerString t)"
  by simp

lemma lerString_escapeUnicode:
  "lerString (escapeUnicode c @ t) = comUnidade c (lerString t)"
proof -
  let ?n = "unat c"
  have d: "?n div 4096 < 16" "?n div 256 mod 16 < 16" "?n div 16 mod 16 < 16" "?n mod 16 < 16"
    using unsigned_less [of c, where ?'a = nat] by simp_all
  have r: "(of_nat (4096 * (?n div 4096) + 256 * (?n div 256 mod 16) + 16 * (?n div 16 mod 16)
           + ?n mod 16) :: 16 word) = c"
    unfolding recompor by simp
  have "lerString (escapeUnicode c @ t)
      = lerString (0x5C # 0x75 # hexDigito (?n div 4096) # hexDigito (?n div 256 mod 16)
          # hexDigito (?n div 16 mod 16) # hexDigito (?n mod 16) # t)"
    by (simp add: escapeUnicode_def)
  also have "\<dots> = comUnidade (of_nat (4096 * (?n div 4096) + 256 * (?n div 256 mod 16)
           + 16 * (?n div 16 mod 16) + ?n mod 16)) (lerString t)"
    by (rule lerString_u) (simp_all only: lerHex_hexDigito d)
  finally show ?thesis unfolding r .
qed


lemma lerString_fim: "lerString (0x22 # t) = Some ([], t)"
  by simp

lemma lerString_literal:
  "c \<noteq> 0x22 \<Longrightarrow> c \<noteq> 0x5C \<Longrightarrow> \<not> c < 0x20 \<Longrightarrow>
     lerString (c # t) = comUnidade c (lerString t)"
  by simp

lemma lerString_escape:
  "escapeSimples e = Some u \<Longrightarrow> e \<noteq> 0x75 \<Longrightarrow>
     lerString (0x5C # e # t) = comUnidade u (lerString t)"
  by simp

declare lerString.simps [simp del]

lemma lerString_quoteUnit:
  "lerString (quoteUnit c @ t) = comUnidade c (lerString t)"
proof -
  consider "c = 0x08" | "c = 0x09" | "c = 0x0A" | "c = 0x0C" | "c = 0x0D" | "c = 0x22" | "c = 0x5C"
    | "c \<notin> {0x08, 0x09, 0x0A, 0x0C, 0x0D, 0x22, 0x5C}"
      "c < 0x20 \<or> leadingSurrogate c \<or> trailingSurrogate c"
    | "c \<notin> {0x08, 0x09, 0x0A, 0x0C, 0x0D, 0x22, 0x5C}"
      "\<not> (c < 0x20 \<or> leadingSurrogate c \<or> trailingSurrogate c)"
    by blast
  then show ?thesis
  proof cases
    case 8
    then have "quoteUnit c = escapeUnicode c" by (simp add: quoteUnit_def)
    then show ?thesis by (simp add: lerString_escapeUnicode)
  next
    case 9
    then have "quoteUnit c = [c]" by (simp add: quoteUnit_def)
    then show ?thesis using 9 by (simp add: lerString_literal)
  qed (simp_all add: quoteUnit_def lerString_escape escapeSimples_def)
qed

lemma lerString_quoteChars:
  "lerString (quoteChars s @ 0x22 # rest) = Some (s, rest)"
proof (induction s rule: quoteChars.induct)
  case 1
  show ?case by (simp add: lerString_fim)
next
  case (2 c)
  show ?case by (simp add: lerString_quoteUnit lerString_fim)
next
  case (3 c d ds)
  show ?case
  proof (cases "leadingSurrogate c \<and> trailingSurrogate d")
    case True
    then have c: "c \<noteq> 0x22" "c \<noteq> 0x5C" "\<not> c < 0x20"
      and d: "d \<noteq> 0x22" "d \<noteq> 0x5C" "\<not> d < 0x20"
      by (auto simp: leadingSurrogate_def trailingSurrogate_def word_le_nat_alt word_less_nat_alt)
    show ?thesis
      using True 3(1) by (simp add: lerString_literal c d)
  next
    case False
    then have "quoteChars (c # d # ds) = quoteUnit c @ quoteChars (d # ds)" by auto
    then show ?thesis
      using 3(2) [OF False] by (simp add: lerString_quoteUnit)
  qed
qed

lemma lerString_quoteJSONString:
  "quoteJSONString s @ rest = 0x22 # quoteChars s @ 0x22 # rest"
  by (simp add: quoteJSONString_def)

subsection \<open>Numbers\<close>

lemma unat_algarismo: "d < 10 \<Longrightarrow> unat (of_nat (48 + d) :: 16 word) = 48 + d"
  by (simp add: unat_of_nat del: of_nat_add)

lemma digito_algarismo: "d < 10 \<Longrightarrow> digito (of_nat (48 + d))"
  unfolding digito_def word_le_nat_alt by (simp only: unat_algarismo) simp

lemma algarismo_zero: "d < 10 \<Longrightarrow> (of_nat (48 + d) :: 16 word) = 0x30 \<longleftrightarrow> d = 0"
proof -
  assume d: "d < 10"
  have "(of_nat (48 + d) :: 16 word) = 0x30 \<longleftrightarrow> unat (of_nat (48 + d) :: 16 word) = unat (0x30 :: 16 word)"
    by (simp only: word_unat_eq_iff)
  then show ?thesis unfolding unat_algarismo [OF d] by simp
qed

lemma digitos_nonempty: "digitos n \<noteq> []"
  by (subst digitos.simps) simp

lemma digitos_digito: "c \<in> set (digitos n) \<Longrightarrow> digito c"
proof (induction n arbitrary: c rule: digitos.induct)
  case (1 n)
  show ?case
  proof (cases "n < 10")
    case True
    then show ?thesis using 1(2) digito_algarismo [of n]
      by (subst (asm) digitos.simps) (simp del: of_nat_add)
  next
    case False
    then have "c \<in> set (digitos (n div 10)) \<or> c = of_nat (48 + n mod 10)"
      using 1(2) by (subst (asm) digitos.simps) (auto simp del: of_nat_add)
    moreover have "digito (of_nat (48 + n mod 10))"
      by (rule digito_algarismo) simp
    ultimately show ?thesis
      using 1(1) [OF False] by blast
  qed
qed

lemma valorDecimal_snoc: "valorDecimal (ds @ [c]) = 10 * valorDecimal ds + (unat c - 48)"
  by (simp add: valorDecimal_def)

lemma valorDecimal_digitos: "valorDecimal (digitos n) = n"
proof (induction n rule: digitos.induct)
  case (1 n)
  show ?case
  proof (cases "n < 10")
    case True
    then show ?thesis
      by (subst digitos.simps) (simp add: valorDecimal_def unat_algarismo del: of_nat_add)
  next
    case False
    have "unat (of_nat (48 + n mod 10) :: 16 word) = 48 + n mod 10"
      by (rule unat_algarismo) simp
    then show ?thesis
      using 1 [OF False] False
      by (subst digitos.simps) (simp add: valorDecimal_snoc del: of_nat_add)
  qed
qed

lemma digitos_hd: "0 < n \<Longrightarrow> hd (digitos n) \<noteq> 0x30"
proof (induction n rule: digitos.induct)
  case (1 n)
  show ?case
  proof (cases "n < 10")
    case True
    then show ?thesis
      using 1(2) algarismo_zero [of n]
      by (subst digitos.simps) (simp del: of_nat_add)
  next
    case False
    then have "0 < n div 10" by simp
    from 1(1) [OF False this] show ?thesis
      using False digitos_nonempty [of "n div 10"]
      by (subst digitos.simps) simp
  qed
qed

lemma digitos_zero: "digitos 0 = [0x30]"
  by (subst digitos.simps) simp

lemma takeWhile_digitos:
  assumes "fimNumero rest"
  shows "takeWhile digito (digitos n @ rest) = digitos n"
    and "dropWhile digito (digitos n @ rest) = rest"
proof -
  have r: "takeWhile digito rest = []" "dropWhile digito rest = rest"
    using assms by (cases rest; simp add: fimNumero_def)+
  have all: "\<forall>c \<in> set (digitos n). digito c" using digitos_digito by blast
  show "takeWhile digito (digitos n @ rest) = digitos n"
    using all r by (simp add: takeWhile_append2)
  show "dropWhile digito (digitos n @ rest) = rest"
    using all r by (simp add: dropWhile_append2)
qed

lemma lerNatural_digitos:
  assumes f: "fimNumero rest"
  shows "lerNatural (digitos n @ rest) = Some (n, rest)"
proof -
  have z: "\<not> (hd (digitos n) = 0x30 \<and> tl (digitos n) \<noteq> [])"
  proof (cases "n = 0")
    case True
    then show ?thesis by (simp add: digitos_zero)
  next
    case False
    then show ?thesis using digitos_hd [of n] by simp
  qed
  have e: "\<not> (rest \<noteq> [] \<and> (hd rest = 0x2E \<or> hd rest = 0x65 \<or> hd rest = 0x45))"
    using f by (auto simp: fimNumero_def)
  show ?thesis
    unfolding lerNatural_def takeWhile_digitos [OF f] Let_def
    using z e digitos_nonempty [of n] by (simp add: valorDecimal_digitos)
qed

lemma digitos_nao_menos: "hd (digitos n) \<noteq> 0x2D"
  using digitos_digito [of "hd (digitos n)" n] digitos_nonempty [of n]
  by (auto simp: digito_def)

lemma lerNumero_numberToString:
  assumes f: "fimNumero rest"
  shows "lerNumero (numberToString i @ rest) = Some (i, rest)"
proof (cases "i < 0")
  case True
  then show ?thesis
    by (simp add: lerNumero_def numberToString_def lerNatural_digitos [OF f])
next
  case False
  obtain c cs where d: "digitos (nat i) = c # cs"
    using digitos_nonempty [of "nat i"] by (cases "digitos (nat i)") auto
  have "c \<noteq> 0x2D" using digitos_nao_menos [of "nat i"] d by simp
  moreover have "lerNatural ((c # cs) @ rest) = Some (nat i, rest)"
    using lerNatural_digitos [OF f, of "nat i"] d by simp
  ultimately show ?thesis
    using False by (simp add: lerNumero_def numberToString_def d)
qed

subsection \<open>White space and the first character of a value\<close>

lemma inicial_nao:
  "inicial c \<Longrightarrow> \<not> espacoJSON c \<and> c \<noteq> 0x5D \<and> c \<noteq> 0x7D \<and> c \<noteq> 0x2C \<and> c \<noteq> 0x3A"
  by (auto simp: inicial_def digito_def espacoJSON_def)

lemma pularEspacos_comeca: "comeca s \<Longrightarrow> pularEspacos s = s"
  using inicial_nao [of "hd s"] by (cases s) (auto simp: comeca_def pularEspacos_def)

lemma comeca_append: "comeca s \<Longrightarrow> comeca (s @ t)"
  by (cases s) (auto simp: comeca_def)

lemma comeca_nao:
  "comeca s \<Longrightarrow> s \<noteq> [] \<and> hd s \<noteq> 0x5D \<and> hd s \<noteq> 0x7D"
  using inicial_nao [of "hd s"] by (auto simp: comeca_def)

lemma pularEspacos_nl [simp]: "pularEspacos (0x0A # s) = pularEspacos s"
  by (simp add: pularEspacos_def espacoJSON_def)

lemma pularEspacos_sp [simp]: "pularEspacos (0x20 # s) = pularEspacos s"
  by (simp add: pularEspacos_def espacoJSON_def)

lemma pularEspacos_ind: "set ind \<subseteq> {0x20} \<Longrightarrow> pularEspacos (ind @ s) = pularEspacos s"
  unfolding pularEspacos_def by (rule dropWhile_append2) (auto simp: espacoJSON_def)

lemma pularEspacos_fecha [simp]:
  "pularEspacos (0x5D # s) = 0x5D # s" "pularEspacos (0x7D # s) = 0x7D # s"
  "pularEspacos (0x2C # s) = 0x2C # s" "pularEspacos (0x3A # s) = 0x3A # s"
  "pularEspacos [] = []"
  by (simp_all add: pularEspacos_def espacoJSON_def)

lemma fimNumero_sep [simp]:
  "fimNumero (0x2C # s)" "fimNumero (0x0A # s)" "fimNumero []"
  by (simp_all add: fimNumero_def digito_def)

lemma comeca_numberToString: "comeca (numberToString i)"
proof (cases "i < 0")
  case True
  then show ?thesis by (simp add: numberToString_def comeca_def inicial_def)
next
  case False
  have "digito (hd (digitos (nat i)))"
    using digitos_digito [of "hd (digitos (nat i))" "nat i"] digitos_nonempty [of "nat i"]
    by simp
  then show ?thesis
    using False digitos_nonempty [of "nat i"]
    by (simp add: numberToString_def comeca_def inicial_def)
qed

lemma comeca_serializar: "comeca (serializar ind v)"
  by (cases v)
     (simp_all add: comeca_numberToString, simp_all add: comeca_def inicial_def str_def
        quoteJSONString_def)

lemma comeca_juntarCom:
  "xs \<noteq> [] \<Longrightarrow> (\<And>x. x \<in> set xs \<Longrightarrow> comeca (f x)) \<Longrightarrow> comeca (juntarCom sep (map f xs))"
proof (cases xs)
  case Nil
  assume "xs \<noteq> []"
  with Nil show ?thesis by simp
next
  case (Cons x ys)
  assume c: "\<And>x. x \<in> set xs \<Longrightarrow> comeca (f x)"
  show ?thesis
  proof (cases ys)
    case Nil
    then show ?thesis using c [of x] Cons by simp
  next
    case (Cons y zs)
    then show ?thesis using c [of x] \<open>xs = x # ys\<close> by (simp add: comeca_append)
  qed
qed

subsection \<open>Reading back a leaf\<close>

lemma lerValor_null: "lerValor (Suc n) (str ''null'' @ rest) = Some (JNull, rest)"
  by (simp add: str_def)

lemma lerValor_true: "lerValor (Suc n) (str ''true'' @ rest) = Some (JBool True, rest)"
  by (simp add: str_def)

lemma lerValor_false: "lerValor (Suc n) (str ''false'' @ rest) = Some (JBool False, rest)"
  by (simp add: str_def)

lemma lerValor_string:
  "lerValor (Suc n) (quoteJSONString s @ rest) = Some (JStr s, rest)"
  by (simp add: lerString_quoteJSONString lerString_quoteChars)

lemma lerValor_numero:
  assumes f: "fimNumero rest"
  shows "lerValor (Suc n) (numberToString i @ rest) = Some (JNum i, rest)"
proof -
  obtain c cs where n: "numberToString i = c # cs" and c: "c = 0x2D \<or> digito c"
  proof (cases "i < 0")
    case True
    then show ?thesis using that by (simp add: numberToString_def)
  next
    case False
    obtain c cs where d: "digitos (nat i) = c # cs"
      using digitos_nonempty [of "nat i"] by (cases "digitos (nat i)") auto
    then have "digito c" using digitos_digito [of c "nat i"] by simp
    then show ?thesis using that [of c cs] False d by (simp add: numberToString_def)
  qed
  have l: "lerNumero (c # cs @ rest) = Some (i, rest)"
    using lerNumero_numberToString [OF f, of i] n by simp
  have k: "c \<noteq> 0x22" "c \<noteq> 0x5B" "c \<noteq> 0x7B" "c \<noteq> 0x6E" "c \<noteq> 0x74" "c \<noteq> 0x66"
    using c by (auto simp: digito_def)
  show ?thesis
    unfolding n using k by (simp add: str_def l)
qed

subsection \<open>Arrays and objects\<close>

declare lerValor.simps [simp del] lerItens.simps [simp del] lerCampos.simps [simp del]

lemma juntarCom_Cons: "ps \<noteq> [] \<Longrightarrow> juntarCom sep (p # ps) = p @ sep @ juntarCom sep ps"
  by (cases ps) simp_all

lemma lerItens_juntarCom:
  assumes ind: "set ind \<subseteq> {0x20}"
  shows "xs \<noteq> [] \<Longrightarrow> (\<And>x. x \<in> set xs \<Longrightarrow> relido ind x) \<Longrightarrow>
     length (juntarCom (0x2C # 0x0A # ind) (map (serializar ind) xs)) < n \<Longrightarrow>
     set fim \<subseteq> {0x20} \<Longrightarrow>
     lerItens n (juntarCom (0x2C # 0x0A # ind) (map (serializar ind) xs) @ 0x0A # fim @ 0x5D # rest)
       = Some (xs, rest)"
proof (induction xs arbitrary: n)
  case Nil
  then show ?case by simp
next
  case (Cons x ys)
  obtain m where n: "n = Suc m" using Cons.prems(3) by (cases n) auto
  have rx: "relido ind x" using Cons.prems(2) by simp
  show ?case
  proof (cases ys)
    case Nil
    have l: "length (serializar ind x) \<le> m" using Cons.prems(3) n Nil by simp
    have v: "lerValor m (serializar ind x @ 0x0A # fim @ 0x5D # rest)
               = Some (x, 0x0A # fim @ 0x5D # rest)"
      using rx l unfolding relido_def by simp
    show ?thesis
      unfolding n Nil
      by (simp add: lerItens.simps v pularEspacos_ind [OF Cons.prems(4)])
  next
    case (Cons y zs)
    let ?r = "juntarCom (0x2C # 0x0A # ind) (map (serializar ind) ys) @ 0x0A # fim @ 0x5D # rest"
    have l: "length (serializar ind x) \<le> m"
      and l2: "length (juntarCom (0x2C # 0x0A # ind) (map (serializar ind) ys)) < m"
      using Cons.prems(3) n Cons by simp_all
    have v: "lerValor m (serializar ind x @ 0x2C # 0x0A # ind @ ?r)
               = Some (x, 0x2C # 0x0A # ind @ ?r)"
      using rx l unfolding relido_def by simp
    have c: "comeca ?r"
      by (rule comeca_append, rule comeca_juntarCom) (simp_all add: Cons comeca_serializar)
    have i: "lerItens m ?r = Some (ys, rest)"
      using Cons.IH [of m] Cons.prems(2,4) l2 Cons by simp
    have ne: "map (serializar ind) ys \<noteq> []" using Cons by simp
    show ?thesis
      unfolding n
      by (simp add: juntarCom_Cons [OF ne] lerItens.simps v pularEspacos_ind [OF ind]
            pularEspacos_comeca [OF c] i)
  qed
qed

lemma membro_eq:
  "(\<lambda>(k, v). quoteJSONString k @ [0x3A, 0x20] @ serializar ind v) = membro ind"
  "(\<lambda>(k, v). quoteJSONString k @ 0x3A # 0x20 # serializar ind v) = membro ind"
  by (simp_all add: fun_eq_iff membro_def)

lemma comeca_membro: "comeca (membro ind p)"
  by (simp add: membro_def quoteJSONString_def comeca_def inicial_def)

lemma length_membro:
  "length (membro ind p) = length (quoteJSONString (fst p)) + 2 + length (serializar ind (snd p))"
  by (simp add: membro_def)

lemma comeca_juntarCom_geral:
  "ps \<noteq> [] \<Longrightarrow> (\<And>p. p \<in> set ps \<Longrightarrow> comeca p) \<Longrightarrow> comeca (juntarCom sep ps)"
  by (cases "(sep, ps)" rule: juntarCom.cases) (simp_all add: comeca_append)

lemma lerCampos_membro:
  assumes v: "lerValor m (serializar ind (snd p) @ r) = Some (snd p, r)"
  shows "lerCampos (Suc m) (membro ind p @ r) =
     (let r3 = pularEspacos r
      in if r3 \<noteq> [] \<and> hd r3 = 0x2C
         then map_option (\<lambda>(fs, r4). (p # fs, r4)) (lerCampos m (pularEspacos (tl r3)))
         else if r3 \<noteq> [] \<and> hd r3 = 0x7D then Some ([p], tl r3)
         else None)"
proof -
  have s: "lerString (quoteChars (fst p) @ 0x22 # 0x3A # 0x20 # serializar ind (snd p) @ r)
             = Some (fst p, 0x3A # 0x20 # serializar ind (snd p) @ r)"
    by (rule lerString_quoteChars)
  have c: "pularEspacos (serializar ind (snd p) @ r) = serializar ind (snd p) @ r"
    by (rule pularEspacos_comeca, rule comeca_append, rule comeca_serializar)
  show ?thesis
    using s c v by (simp add: membro_def quoteJSONString_def lerCampos.simps Let_def)
qed

lemma lerCampos_juntarCom:
  assumes ind: "set ind \<subseteq> {0x20}"
  shows "fs \<noteq> [] \<Longrightarrow> (\<And>p. p \<in> set fs \<Longrightarrow> relido ind (snd p)) \<Longrightarrow>
     length (juntarCom (0x2C # 0x0A # ind) (map (membro ind) fs)) < n \<Longrightarrow>
     set fim \<subseteq> {0x20} \<Longrightarrow>
     lerCampos n (juntarCom (0x2C # 0x0A # ind) (map (membro ind) fs) @ 0x0A # fim @ 0x7D # rest)
       = Some (fs, rest)"
proof (induction fs arbitrary: n)
  case Nil
  then show ?case by simp
next
  case (Cons p ps)
  obtain m where n: "n = Suc m" using Cons.prems(3) by (cases n) auto
  have rx: "relido ind (snd p)" using Cons.prems(2) by simp
  show ?case
  proof (cases "ps = []")
    case True
    have l: "length (serializar ind (snd p)) \<le> m"
      using Cons.prems(3) n True by (simp add: length_membro)
    have v: "lerValor m (serializar ind (snd p) @ 0x0A # fim @ 0x7D # rest)
               = Some (snd p, 0x0A # fim @ 0x7D # rest)"
      using rx l unfolding relido_def by simp
    show ?thesis
      unfolding n True
      by (simp add: lerCampos_membro [OF v] pularEspacos_ind [OF Cons.prems(4)])
  next
    case False
    let ?r = "juntarCom (0x2C # 0x0A # ind) (map (membro ind) ps) @ 0x0A # fim @ 0x7D # rest"
    have ne: "map (membro ind) ps \<noteq> []" using False by simp
    have l: "length (serializar ind (snd p)) \<le> m"
      and l2: "length (juntarCom (0x2C # 0x0A # ind) (map (membro ind) ps)) < m"
      using Cons.prems(3) n by (simp_all add: juntarCom_Cons [OF ne] length_membro)
    have v: "lerValor m (serializar ind (snd p) @ 0x2C # 0x0A # ind @ ?r)
               = Some (snd p, 0x2C # 0x0A # ind @ ?r)"
      using rx l unfolding relido_def by simp
    have c: "comeca ?r"
      by (rule comeca_append, rule comeca_juntarCom_geral) (use ne in \<open>auto simp: comeca_membro\<close>)
    have i: "lerCampos m ?r = Some (ps, rest)"
      using Cons.IH [of m] Cons.prems(2,4) l2 False by simp
    show ?thesis
      unfolding n
      by (simp add: juntarCom_Cons [OF ne] lerCampos_membro [OF v] pularEspacos_ind [OF ind]
            pularEspacos_comeca [OF c] i)
  qed
qed

subsection \<open>The properties of a canonical object\<close>

lemma definir_novo: "fst p \<notin> fst ` set qs \<Longrightarrow> definir qs p = qs @ [p]"
  by (induction qs) auto

lemma foldl_definir:
  "distinct (map fst (acc @ fs)) \<Longrightarrow> foldl definir acc fs = acc @ fs"
proof (induction fs arbitrary: acc)
  case Nil
  then show ?case by simp
next
  case (Cons p ps)
  have "definir acc p = acc @ [p]"
    by (rule definir_novo) (use Cons.prems in auto)
  then show ?case using Cons.IH [of "acc @ [p]"] Cons.prems by simp
qed

lemma propriedades_canonico:
  assumes "distinct (map fst fs)" and "\<And>p. p \<in> set fs \<Longrightarrow> indice (fst p) = None"
  shows "propriedades fs = fs"
proof -
  have f: "foldl definir [] fs = fs" using foldl_definir [of "[]" fs] assms(1) by simp
  have 1: "filter (\<lambda>p. indice (fst p) \<noteq> None) fs = []"
    using assms(2) by (simp add: filter_empty_conv)
  have 2: "filter (\<lambda>p. indice (fst p) = None) fs = fs"
    using assms(2) by (simp add: filter_id_conv)
  show ?thesis
    unfolding propriedades_def f Let_def 1 2 by simp
qed

subsection \<open>Reading back a value\<close>

lemma gap_espacos: "set gap \<subseteq> {0x20}" "length gap = 2"
  by (simp_all add: gap_def)

lemma lerValor_array:
  assumes "comeca s" "set i \<subseteq> {0x20}" "lerItens m s = Some (xs, rest)"
  shows "lerValor (Suc m) (0x5B # 0x0A # i @ s) = Some (JArr xs, rest)"
  using assms comeca_nao [OF assms(1)]
  by (simp add: lerValor.simps pularEspacos_ind pularEspacos_comeca)

lemma lerValor_object:
  assumes "comeca s" "set i \<subseteq> {0x20}" "lerCampos m s = Some (fs, rest)"
  shows "lerValor (Suc m) (0x7B # 0x0A # i @ s) = Some (JObj (propriedades fs), rest)"
  using assms comeca_nao [OF assms(1)]
  by (simp add: lerValor.simps pularEspacos_ind pularEspacos_comeca)

lemma lerValor_vazios:
  "lerValor (Suc m) (0x5B # 0x5D # rest) = Some (JArr [], rest)"
  "lerValor (Suc m) (0x7B # 0x7D # rest) = Some (JObj [], rest)"
  by (simp_all add: lerValor.simps)

lemma relido_canonico: "canonico v \<Longrightarrow> set ind \<subseteq> {0x20} \<Longrightarrow> relido ind v"
proof (induction v arbitrary: ind)
  case JNull
  show ?case unfolding relido_def
  proof (intro allI impI)
    fix n rest assume "length (serializar ind JNull) \<le> n"
    then obtain m where "n = Suc m" by (cases n) (auto simp: str_def)
    then show "lerValor n (serializar ind JNull @ rest) = Some (JNull, rest)"
      using lerValor_null [of m rest] by (simp add: lerValor.simps)
  qed
next
  case (JBool b)
  show ?case unfolding relido_def
  proof (intro allI impI)
    fix n rest assume "length (serializar ind (JBool b)) \<le> n"
    then obtain m where "n = Suc m" by (cases n) (auto simp: str_def split: if_splits)
    then show "lerValor n (serializar ind (JBool b) @ rest) = Some (JBool b, rest)"
      using lerValor_true [of m rest] lerValor_false [of m rest] by simp
  qed
next
  case (JNum i)
  show ?case unfolding relido_def
  proof (intro allI impI)
    fix n rest assume f: "fimNumero rest" and "length (serializar ind (JNum i)) \<le> n"
    then obtain m where "n = Suc m"
      using comeca_numberToString [of i] by (cases n) (auto simp: comeca_def)
    then show "lerValor n (serializar ind (JNum i) @ rest) = Some (JNum i, rest)"
      using lerValor_numero [OF f, of m i] by simp
  qed
next
  case (JStr s)
  show ?case unfolding relido_def
  proof (intro allI impI)
    fix n rest assume "length (serializar ind (JStr s)) \<le> n"
    then obtain m where "n = Suc m" by (cases n) (auto simp: quoteJSONString_def)
    then show "lerValor n (serializar ind (JStr s) @ rest) = Some (JStr s, rest)"
      using lerValor_string [of m s rest] by simp
  qed
next
  case (JArr xs)
  have ig: "set (ind @ gap) \<subseteq> {0x20}" using JArr.prems(2) gap_espacos(1) by simp
  have rl: "relido (ind @ gap) x" if "x \<in> set xs" for x
    using JArr.IH [OF that _ ig] JArr.prems(1) that by simp
  show ?case unfolding relido_def
  proof (intro allI impI)
    fix n rest assume l: "length (serializar ind (JArr xs)) \<le> n"
    show "lerValor n (serializar ind (JArr xs) @ rest) = Some (JArr xs, rest)"
    proof (cases "xs = []")
      case True
      then obtain m where "n = Suc m" using l by (cases n) auto
      then show ?thesis using True lerValor_vazios(1) [of m rest] by simp
    next
      case False
      let ?j = "juntarCom (0x2C # 0x0A # ind @ gap) (map (serializar (ind @ gap)) xs)"
      let ?s = "?j @ 0x0A # ind @ 0x5D # rest"
      obtain m where n: "n = Suc m" using l False by (cases n) auto
      have lj: "length ?j < m" using l False n by simp
      have i: "lerItens m ?s = Some (xs, rest)"
        by (rule lerItens_juntarCom [OF ig False rl lj JArr.prems(2)])
      have c: "comeca ?s"
        by (rule comeca_append, rule comeca_juntarCom [OF False]) (rule comeca_serializar)
      have "lerValor (Suc m) (0x5B # 0x0A # (ind @ gap) @ ?s) = Some (JArr xs, rest)"
        by (rule lerValor_array [OF c ig i])
      then show ?thesis using False n by simp
    qed
  qed
next
  case (JObj fs)
  have ig: "set (ind @ gap) \<subseteq> {0x20}" using JObj.prems(2) gap_espacos(1) by simp
  have rl: "relido (ind @ gap) (snd p)" if "p \<in> set fs" for p
  proof -
    have "canonico (snd p)" using JObj.prems(1) that by (cases p) auto
    moreover have "snd p \<in> Basic_BNFs.snds p" by (cases p) simp
    ultimately show ?thesis using JObj.IH [OF that _ _ ig] by blast
  qed
  have pr: "propriedades fs = fs"
    by (rule propriedades_canonico) (use JObj.prems(1) in auto)
  show ?case unfolding relido_def
  proof (intro allI impI)
    fix n rest assume l: "length (serializar ind (JObj fs)) \<le> n"
    show "lerValor n (serializar ind (JObj fs) @ rest) = Some (JObj fs, rest)"
    proof (cases "fs = []")
      case True
      then obtain m where "n = Suc m" using l by (cases n) auto
      then show ?thesis using True lerValor_vazios(2) [of m rest] by simp
    next
      case False
      let ?j = "juntarCom (0x2C # 0x0A # ind @ gap) (map (membro (ind @ gap)) fs)"
      let ?s = "?j @ 0x0A # ind @ 0x7D # rest"
      obtain m where n: "n = Suc m" using l False by (cases n) auto
      have lj: "length ?j < m" using l False n by (simp add: membro_eq)
      have i: "lerCampos m ?s = Some (fs, rest)"
        by (rule lerCampos_juntarCom [OF ig False rl lj JObj.prems(2)])
      have c: "comeca ?s"
        by (rule comeca_append, rule comeca_juntarCom_geral)
           (use False in \<open>auto simp: comeca_membro\<close>)
      have "lerValor (Suc m) (0x7B # 0x0A # (ind @ gap) @ ?s) = Some (JObj (propriedades fs), rest)"
        by (rule lerValor_object [OF c ig i])
      then show ?thesis using False n pr by (simp add: membro_eq)
    qed
  qed
qed

lemma JSONparse_serializar:
  assumes "canonico v"
  shows "JSONparse (serializar [] v) = Some v"
proof -
  have "relido [] v" using relido_canonico [OF assms, of "[]"] by simp
  then have "lerValor (Suc (length (serializar [] v))) (serializar [] v @ []) = Some (v, [])"
    unfolding relido_def using fimNumero_sep(3) le_SucI [OF order_refl] by blast
  then show ?thesis
    by (simp add: JSONparse_def pularEspacos_comeca [OF comeca_serializar])
qed

subsection \<open>The exported payload\<close>

lemma indice_nome: "s \<noteq> [] \<Longrightarrow> \<not> digito (hd s) \<Longrightarrow> indice s = None"
  by (cases s) (simp_all add: indice_def lerNatural_def)

lemma indice_campos:
  "indice (str ''id'') = None" "indice (str ''titulo'') = None" "indice (str ''autor'') = None"
  "indice (str ''isbn'') = None" "indice (str ''quantidadeTotal'') = None"
  "indice (str ''quantidadeDisponivel'') = None" "indice (str ''nome'') = None"
  "indice (str ''matricula'') = None" "indice (str ''turma'') = None"
  "indice (str ''idLivro'') = None" "indice (str ''idAluno'') = None"
  "indice (str ''dataEmprestimo'') = None" "indice (str ''dataPrevistaDevolucao'') = None"
  "indice (str ''dataDevolucaoReal'') = None" "indice (str ''status'') = None"
  "indice (str ''versao'') = None" "indice (str ''dataExportacao'') = None"
  "indice (str ''totalRegistros'') = None" "indice (str ''livros'') = None"
  "indice (str ''alunos'') = None" "indice (str ''emprestimos'') = None"
  "indice (str ''checksum'') = None"
  by (rule indice_nome; simp add: str_def digito_def)+

lemma canonico_livroJson: "canonico (livroJson l)"
  by (cases "ident l") (simp_all add: livroJson_def chaveJson_def indice_campos, simp_all add: str_def)

lemma canonico_alunoJson: "canonico (alunoJson a)"
  by (cases "ident a") (simp_all add: alunoJson_def chaveJson_def indice_campos, simp_all add: str_def)

lemma canonico_emprestimoJson: "canonico (emprestimoJson e)"
  by (cases "ident e")
     (simp_all add: emprestimoJson_def chaveJson_def indice_campos split: option.split,
      simp_all add: str_def)

lemma canonico_backupJson:
  assumes "\<And>v. versao b = Some v \<Longrightarrow> canonico v"
    and "\<And>v. dataExportacao b = Some v \<Longrightarrow> canonico v"
    and "\<And>v. totalRegistros b = Some v \<Longrightarrow> canonico v"
    and "\<And>v. checksum b = Some v \<Longrightarrow> canonico v"
  shows "canonico (backupJson b)"
proof -
  have d: "distinct [str ''versao'', str ''dataExportacao'', str ''totalRegistros'',
                     str ''livros'', str ''alunos'', str ''emprestimos'', str ''checksum'']"
    by (simp add: str_def)
  have r: "canonico (JArr (map livroJson (livros b)))" "canonico (JArr (map alunoJson (alunos b)))"
    "canonico (JArr (map emprestimoJson (emprestimos b)))"
    by (simp_all add: canonico_livroJson canonico_alunoJson canonico_emprestimoJson)
  show ?thesis
    using assms d r
    by (cases "versao b"; cases "dataExportacao b"; cases "totalRegistros b"; cases "checksum b")
       (simp_all add: backupJson_def raiz_def indice_campos del: canonico.simps(1))
qed

lemma canonico_exportarDados: "canonico (backupJson (exportarDados agora s))"
  by (rule canonico_backupJson) (auto simp: exportarDados_def Let_def)

lemma JSONparse_exportarDados:
  "JSONparse (serializar [] (backupJson (exportarDados agora s)))
     = Some (backupJson (exportarDados agora s))"
  by (rule JSONparse_serializar [OF canonico_exportarDados])
section \<open>Checkout and return\<close>

lemmas store_defs =
  storeGet_def storeGetAll_def storePut_def storeAdd_def armazenar_def violaIndice_def
  uqLivro_def uqAluno_def uqEmprestimo_def storeOk_def dbOk_def str_def

text \<open>
  Claim C4. A checkout whose book is not in the store, or has no available copy, fails with
  the error "Livro indisponivel" and leaves the database as it was: the book is not
  decremented and no loan is created.
\<close>

theorem registrarEmprestimo_indisponivel:
  "storeGet (idLivro emp) (storeLivros s) = None
     \<or> (\<exists>l. storeGet (idLivro emp) (storeLivros s) = Some l \<and> quantidadeDisponivel l \<le> 0)
   \<Longrightarrow> registrarEmprestimo emp s = (Inl LivroIndisponivel, s)"
  by (auto simp: registrarEmprestimo_def)

theorem registrarEmprestimo_indisponivel_witness:
  "(storeGet (idLivro exPedido) (storeLivros dbEmprestado) = None
     \<or> (\<exists>l. storeGet (idLivro exPedido) (storeLivros dbEmprestado) = Some l
            \<and> quantidadeDisponivel l \<le> 0))
   \<and> registrarEmprestimo exPedido dbEmprestado = (Inl LivroIndisponivel, dbEmprestado)"
proof -
  have h: "storeGet (idLivro exPedido) (storeLivros dbEmprestado) = None
     \<or> (\<exists>l. storeGet (idLivro exPedido) (storeLivros dbEmprestado) = Some l
            \<and> quantidadeDisponivel l \<le> 0)"
    by (simp add: exLivro_def exAluno_def exPedido_def dbEmprestado_def storeGet_def)
  show ?thesis
    by (intro conjI h registrarEmprestimo_indisponivel [OF h])
qed

text \<open>
  Claim C6. A checkout that succeeds takes exactly one copy from the book it names, leaves
  every other book and every student as they were, and adds exactly one loan, under a key
  that was free: the request with that key. The loan the form handler requests is
  \<open>ativo\<close> and its \<open>dataDevolucaoReal\<close> is \<open>null\<close>.
\<close>

theorem registrarEmprestimo_um_emprestimo:
  assumes ok: "dbOk s"
  shows "(registrarEmprestimo emp s = (Inr (), s') \<longrightarrow>
           (\<exists>l k. storeGet (idLivro emp) (storeLivros s) = Some l
              \<and> storeGet (idLivro emp) (storeLivros s')
                  = Some (l\<lparr>quantidadeDisponivel := quantidadeDisponivel l - 1\<rparr>)
              \<and> (\<forall>j. j \<noteq> idLivro emp \<longrightarrow>
                    storeGet j (storeLivros s') = storeGet j (storeLivros s))
              \<and> length (storeGetAll (storeLivros s')) = length (storeGetAll (storeLivros s))
              \<and> storeAlunos s' = storeAlunos s
              \<and> storeGet k (storeEmprestimos s) = None
              \<and> storeGet k (storeEmprestimos s') = Some (emp\<lparr>ident := Id k\<rparr>)
              \<and> (\<forall>j. j \<noteq> k \<longrightarrow>
                    storeGet j (storeEmprestimos s') = storeGet j (storeEmprestimos s))
              \<and> length (storeGetAll (storeEmprestimos s'))
                  = Suc (length (storeGetAll (storeEmprestimos s)))))
       \<and> (handleRegistrarEmprestimo form hoje s = (EmprestimoRegistrado, s'') \<longrightarrow>
           (\<exists>k. registrarEmprestimo
                   \<lparr>ident = SemId, idLivro = emprestimoLivro form,
                    idAluno = emprestimoAluno form, dataEmprestimo = hoje,
                    dataPrevistaDevolucao = emprestimoDataPrevista form,
                    dataDevolucaoReal = None, status = str ''ativo''\<rparr> s = (Inr (), s'')
              \<and> storeGet k (storeEmprestimos s) = None
              \<and> storeGet k (storeEmprestimos s'')
                  = Some \<lparr>ident = Id k, idLivro = emprestimoLivro form,
                          idAluno = emprestimoAluno form, dataEmprestimo = hoje,
                          dataPrevistaDevolucao = emprestimoDataPrevista form,
                          dataDevolucaoReal = None, status = str ''ativo''\<rparr>))"
proof (intro conjI impI)
  assume "registrarEmprestimo emp s = (Inr (), s')"
  from registrarEmprestimo_sucesso [OF ok this]
  show "\<exists>l k. storeGet (idLivro emp) (storeLivros s) = Some l
              \<and> storeGet (idLivro emp) (storeLivros s')
                  = Some (l\<lparr>quantidadeDisponivel := quantidadeDisponivel l - 1\<rparr>)
              \<and> (\<forall>j. j \<noteq> idLivro emp \<longrightarrow>
                    storeGet j (storeLivros s') = storeGet j (storeLivros s))
              \<and> length (storeGetAll (storeLivros s')) = length (storeGetAll (storeLivros s))
              \<and> storeAlunos s' = storeAlunos s
              \<and> storeGet k (storeEmprestimos s) = None
              \<and> storeGet k (storeEmprestimos s') = Some (emp\<lparr>ident := Id k\<rparr>)
              \<and> (\<forall>j. j \<noteq> k \<longrightarrow>
                    storeGet j (storeEmprestimos s') = storeGet j (storeEmprestimos s))
              \<and> length (storeGetAll (storeEmprestimos s'))
                  = Suc (length (storeGetAll (storeEmprestimos s)))" .
next
  let ?emp = "\<lparr>ident = SemId, idLivro = emprestimoLivro form,
                idAluno = emprestimoAluno form, dataEmprestimo = hoje,
                dataPrevistaDevolucao = emprestimoDataPrevista form,
                dataDevolucaoReal = None, status = str ''ativo''\<rparr>"
  assume "handleRegistrarEmprestimo form hoje s = (EmprestimoRegistrado, s'')"
  then have res: "registrarEmprestimo ?emp s = (Inr (), s'')"
    by (auto simp: handleRegistrarEmprestimo_def Let_def split: prod.splits sum.splits)
  from registrarEmprestimo_sucesso [OF ok res] obtain k where
    "storeGet k (storeEmprestimos s) = None"
    "storeGet k (storeEmprestimos s'') = Some (?emp\<lparr>ident := Id k\<rparr>)"
    by blast
  with res show "\<exists>k. registrarEmprestimo ?emp s = (Inr (), s'')
              \<and> storeGet k (storeEmprestimos s) = None
              \<and> storeGet k (storeEmprestimos s'')
                  = Some \<lparr>ident = Id k, idLivro = emprestimoLivro form,
                          idAluno = emprestimoAluno form, dataEmprestimo = hoje,
                          dataPrevistaDevolucao = emprestimoDataPrevista form,
                          dataDevolucaoReal = None, status = str ''ativo''\<rparr>"
    by auto
qed

theorem registrarEmprestimo_um_emprestimo_witness:
  "dbOk dbUm
   \<and> handleRegistrarEmprestimo exForm (str ''2024-03-01'') dbUm = (EmprestimoRegistrado, dbEmprestado)
   \<and> registrarEmprestimo exPedido dbUm = (Inr (), dbEmprestado)
   \<and> (\<exists>l. storeGet 1 (storeLivros dbUm) = Some l
          \<and> storeGet 1 (storeLivros dbEmprestado)
              = Some (l\<lparr>quantidadeDisponivel := quantidadeDisponivel l - 1\<rparr>))
   \<and> length (storeGetAll (storeEmprestimos dbEmprestado))
       = Suc (length (storeGetAll (storeEmprestimos dbUm)))"
proof -
  have ok: "dbOk dbUm"
    by (simp add: exLivro_def exAluno_def exPedido_def exForm_def dbUm_def dbEmprestado_def store_defs)
  have res: "registrarEmprestimo exPedido dbUm = (Inr (), dbEmprestado)"
    by (simp add: registrarEmprestimo_def exLivro_def exAluno_def exPedido_def exForm_def dbUm_def dbEmprestado_def store_defs)
  have h: "handleRegistrarEmprestimo exForm (str ''2024-03-01'') dbUm
             = (EmprestimoRegistrado, dbEmprestado)"
    using res by (simp add: handleRegistrarEmprestimo_def exPedido_def exForm_def)
  have id1: "idLivro exPedido = 1" by (simp add: exPedido_def)
  from registrarEmprestimo_um_emprestimo [OF ok, of exPedido dbEmprestado exForm "str ''2024-03-01''" dbEmprestado]
    res h
  have "(\<exists>l. storeGet 1 (storeLivros dbUm) = Some l
          \<and> storeGet 1 (storeLivros dbEmprestado)
              = Some (l\<lparr>quantidadeDisponivel := quantidadeDisponivel l - 1\<rparr>))
        \<and> length (storeGetAll (storeEmprestimos dbEmprestado))
       = Suc (length (storeGetAll (storeEmprestimos dbUm)))"
    unfolding id1 by blast
  with ok res h show ?thesis by blast
qed

text \<open>
  Claim C5. Returning an active loan sets its status to \<open>devolvido\<close> together with the
  return date and touches no other loan and no student; the book of the loan gains exactly
  one available copy when it is in the store, and the store of books is left as it is when
  the book has been deleted. Returning a loan that is absent or already \<open>devolvido\<close>
  fails with the error "Emprestimo invalido ou ja devolvido" and changes nothing, so a
  second return of the same loan fails.
\<close>

theorem registrarDevolucao_correta:
  assumes ok: "dbOk s"
  shows "(\<forall>emp. storeGet i (storeEmprestimos s) = Some emp \<and> status emp = str ''ativo'' \<longrightarrow>
           (\<exists>s'. registrarDevolucao i d s = (Inr (), s')
              \<and> storeGet i (storeEmprestimos s')
                   = Some (emp\<lparr>status := str ''devolvido'', dataDevolucaoReal := Some d\<rparr>)
              \<and> (\<forall>j. j \<noteq> i \<longrightarrow> storeGet j (storeEmprestimos s') = storeGet j (storeEmprestimos s))
              \<and> storeAlunos s' = storeAlunos s
              \<and> (case storeGet (idLivro emp) (storeLivros s) of
                    None \<Rightarrow> storeLivros s' = storeLivros s
                  | Some l \<Rightarrow>
                      storeGet (idLivro emp) (storeLivros s')
                        = Some (l\<lparr>quantidadeDisponivel := quantidadeDisponivel l + 1\<rparr>)
                      \<and> (\<forall>j. j \<noteq> idLivro emp \<longrightarrow>
                            storeGet j (storeLivros s') = storeGet j (storeLivros s)))
              \<and> (\<forall>d'. registrarDevolucao i d' s' = (Inl EmprestimoInvalido, s'))))
       \<and> ((storeGet i (storeEmprestimos s) = None
            \<or> (\<exists>emp. storeGet i (storeEmprestimos s) = Some emp \<and> status emp = str ''devolvido''))
           \<longrightarrow> registrarDevolucao i d s = (Inl EmprestimoInvalido, s))"
proof (intro conjI allI impI)
  fix emp
  assume "storeGet i (storeEmprestimos s) = Some emp \<and> status emp = str ''ativo''"
  then have emp: "storeGet i (storeEmprestimos s) = Some emp"
    and st: "status emp \<noteq> str ''devolvido''"
    using ativo_neq_devolvido by simp_all
  note r = registrarDevolucao_Inr [OF ok emp st, of d]
  define s' where "s' = snd (registrarDevolucao i d s)"
  have res: "registrarDevolucao i d s = (Inr (), s')" unfolding s'_def r by simp
  have ge: "storeGet j (storeEmprestimos s')
      = (if j = i then Some (emp\<lparr>status := str ''devolvido'', dataDevolucaoReal := Some d\<rparr>)
         else storeGet j (storeEmprestimos s))" for j
    unfolding s'_def r by (simp add: storeGet_gravar)
  have al: "storeAlunos s' = storeAlunos s" unfolding s'_def r by simp
  have lv: "case storeGet (idLivro emp) (storeLivros s) of
              None \<Rightarrow> storeLivros s' = storeLivros s
            | Some l \<Rightarrow>
                storeGet (idLivro emp) (storeLivros s')
                  = Some (l\<lparr>quantidadeDisponivel := quantidadeDisponivel l + 1\<rparr>)
                \<and> (\<forall>j. j \<noteq> idLivro emp \<longrightarrow>
                      storeGet j (storeLivros s') = storeGet j (storeLivros s))"
    unfolding s'_def r by (simp add: storeGet_gravar split: option.splits)
  have again: "registrarDevolucao i d' s' = (Inl EmprestimoInvalido, s')" for d'
    using ge [of i] by (simp add: registrarDevolucao_def)
  show "\<exists>s'. registrarDevolucao i d s = (Inr (), s')
              \<and> storeGet i (storeEmprestimos s')
                   = Some (emp\<lparr>status := str ''devolvido'', dataDevolucaoReal := Some d\<rparr>)
              \<and> (\<forall>j. j \<noteq> i \<longrightarrow> storeGet j (storeEmprestimos s') = storeGet j (storeEmprestimos s))
              \<and> storeAlunos s' = storeAlunos s
              \<and> (case storeGet (idLivro emp) (storeLivros s) of
                    None \<Rightarrow> storeLivros s' = storeLivros s
                  | Some l \<Rightarrow>
                      storeGet (idLivro emp) (storeLivros s')
                        = Some (l\<lparr>quantidadeDisponivel := quantidadeDisponivel l + 1\<rparr>)
                      \<and> (\<forall>j. j \<noteq> idLivro emp \<longrightarrow>
                            storeGet j (storeLivros s') = storeGet j (storeLivros s)))
              \<and> (\<forall>d'. registrarDevolucao i d' s' = (Inl EmprestimoInvalido, s'))"
    using res ge al lv again by (intro exI [of _ s']) simp
next
  assume "storeGet i (storeEmprestimos s) = None
            \<or> (\<exists>emp. storeGet i (storeEmprestimos s) = Some emp \<and> status emp = str ''devolvido'')"
  then show "registrarDevolucao i d s = (Inl EmprestimoInvalido, s)"
    by (auto simp: registrarDevolucao_def)
qed

theorem registrarDevolucao_correta_witness:
  "dbOk dbEmprestado
   \<and> storeGet 1 (storeEmprestimos dbEmprestado) = Some (exPedido\<lparr>ident := Id 1\<rparr>)
   \<and> status (exPedido\<lparr>ident := Id 1\<rparr>) = str ''ativo''
   \<and> registrarDevolucao 1 (str ''2024-03-05'') dbEmprestado = (Inr (), dbDevolvido)
   \<and> dbOk dbDevolvido
   \<and> (\<exists>emp. storeGet 1 (storeEmprestimos dbDevolvido) = Some emp \<and> status emp = str ''devolvido'')
   \<and> registrarDevolucao 1 (str ''2024-03-09'') dbDevolvido = (Inl EmprestimoInvalido, dbDevolvido)"
proof -
  have ok1: "dbOk dbEmprestado" and ok2: "dbOk dbDevolvido"
    by (simp_all add: exLivro_def exAluno_def exPedido_def dbEmprestado_def dbDevolvido_def store_defs)
  have emp: "storeGet 1 (storeEmprestimos dbEmprestado) = Some (exPedido\<lparr>ident := Id 1\<rparr>)"
    and st: "status (exPedido\<lparr>ident := Id 1\<rparr>) = str ''ativo''"
    by (simp_all add: exLivro_def exAluno_def exPedido_def dbEmprestado_def dbDevolvido_def storeGet_def)
  have dev: "\<exists>emp. storeGet 1 (storeEmprestimos dbDevolvido) = Some emp
               \<and> status emp = str ''devolvido''"
    by (simp add: exLivro_def exAluno_def exPedido_def dbEmprestado_def dbDevolvido_def storeGet_def)
  have res: "registrarDevolucao 1 (str ''2024-03-05'') dbEmprestado = (Inr (), dbDevolvido)"
    by (simp add: registrarDevolucao_def exLivro_def exAluno_def exPedido_def dbEmprestado_def dbDevolvido_def store_defs)
  from registrarDevolucao_correta [OF ok2, of 1 "str ''2024-03-09''"] dev
  have "registrarDevolucao 1 (str ''2024-03-09'') dbDevolvido = (Inl EmprestimoInvalido, dbDevolvido)"
    by blast
  moreover from registrarDevolucao_correta [OF ok1, of 1 "str ''2024-03-05''"] emp st
  have "\<exists>s'. registrarDevolucao 1 (str ''2024-03-05'') dbEmprestado = (Inr (), s')"
    by blast
  ultimately show ?thesis using ok1 ok2 emp st dev res by blast
qed

section \<open>Backup: export, validation, import\<close>

text \<open>
  Claim C7. A well-formed database is exported; \<open>JSON.parse\<close> of the text that
  \<open>JSON.stringify(payload, null, 2)\<close> writes for the payload of \<open>exportarDados\<close> gives
  the payload back; the payload, with its checksum, passes \<open>validarBackup\<close>; and
  \<open>importAllData\<close> of that payload, into any database, succeeds and leaves the three
  collections equal, element by element, to the exported ones. So does the whole import
  handler. The records hold integers, strings and \<open>null\<close> only. The time of the export
  is a non-empty string.
\<close>

theorem exportar_validar_importar:
  assumes ok: "dbOk s" and agora: "agora \<noteq> []"
  shows "JSONparse (serializar [] (backupJson (exportarDados agora s)))
           = Some (backupJson (exportarDados agora s))
       \<and> validarBackup (backupJson (exportarDados agora s)) = Inr ()
       \<and> (\<exists>s''. importAllData (exportarDados agora s) s' = (Inr (), s'')
                \<and> exportAllData s'' = exportAllData s)
       \<and> (\<exists>s''. handleImportarDados (Some (exportarDados agora s)) True s'
                   = (RestauracaoConcluida, s'')
                \<and> exportAllData s'' = exportAllData s)"
proof -
  have p: "JSONparse (serializar [] (backupJson (exportarDados agora s)))
             = Some (backupJson (exportarDados agora s))"
    by (rule JSONparse_exportarDados)
  have v: "validarBackup (backupJson (exportarDados agora s)) = Inr ()"
    by (rule validarBackup_exportarDados [OF ok agora])
  obtain s'' where i: "importAllData (exportarDados agora s) s' = (Inr (), s'')"
    and e: "exportAllData s'' = exportAllData s"
    using importAllData_restaura(1) [OF ok, of "exportarDados agora s" s']
    by (auto simp: exportarDados_campos)
  have "handleImportarDados (Some (exportarDados agora s)) True s' = (RestauracaoConcluida, s'')"
    using v i by (simp add: handleImportarDados_def)
  with p v i e show ?thesis by blast
qed

theorem exportar_validar_importar_witness:
  "dbOk dbEmprestado \<and> exAgora \<noteq> []
   \<and> JSONparse (serializar [] (backupJson (exportarDados exAgora dbEmprestado)))
       = Some (backupJson (exportarDados exAgora dbEmprestado))
   \<and> validarBackup (backupJson (exportarDados exAgora dbEmprestado)) = Inr ()
   \<and> (\<exists>s''. importAllData (exportarDados exAgora dbEmprestado) dbVazio = (Inr (), s'')
            \<and> exportAllData s'' = exportAllData dbEmprestado)"
proof -
  have ok: "dbOk dbEmprestado" by (simp add: exLivro_def exAluno_def exPedido_def dbEmprestado_def store_defs)
  have agora: "exAgora \<noteq> []" by (simp add: exAgora_def str_def)
  from exportar_validar_importar [OF ok agora, of dbVazio] ok agora
  show ?thesis by blast
qed

text \<open>
  Claim C3. An import that fails leaves the database exactly as it was: the transaction is
  aborted, whether a \<open>put\<close> threw or a request failed, and the three collections are
  the ones before the attempt. In the import handler the failed import is followed by the
  import of the snapshot taken before it, which succeeds on a well-formed database and
  leaves it unchanged again; the handler reports the error of the write.
\<close>

theorem importAllData_falha_restaura:
  assumes ok: "dbOk s"
  shows "(importAllData d s = (Inl e, s') \<longrightarrow> s' = s \<and> exportAllData s' = exportAllData s)
       \<and> (validarBackup (backupJson json) = Inr () \<and> fst (importAllData json s) = Inl e
            \<and> handleImportarDados (Some json) True s = (a, s'')
           \<longrightarrow> a = ErroRestauracao ErroGravacao \<and> s'' = s
               \<and> exportAllData s'' = exportAllData s)"
proof -
  have 1: "s' = s \<and> exportAllData s' = exportAllData s" if "importAllData d s = (Inl e, s')"
    using importAllData_Inl [OF that] by simp
  have 2: "a = ErroRestauracao ErroGravacao \<and> s'' = s \<and> exportAllData s'' = exportAllData s"
    if h: "validarBackup (backupJson json) = Inr () \<and> fst (importAllData json s) = Inl e
            \<and> handleImportarDados (Some json) True s = (a, s'')"
  proof -
    have "importAllData json s = (Inl e, s)"
      using h importAllData_Inl [of json s e] by (cases "importAllData json s") auto
    moreover have "importAllData (exportAllData s) s = (Inr (), s)"
      by (rule importAllData_restaura(2) [OF ok]) (simp_all add: exportAllData_def)
    ultimately have "handleImportarDados (Some json) True s = (ErroRestauracao ErroGravacao, s)"
      using h by (simp add: handleImportarDados_def)
    with h show ?thesis by simp
  qed
  from 1 2 show ?thesis by blast
qed

theorem importAllData_falha_restaura_witness:
  "dbOk dbUm
   \<and> importAllData exConflito dbUm = (Inl ConstraintError, dbUm)
   \<and> validarBackup (backupJson exConflito) = Inr ()
   \<and> handleImportarDados (Some exConflito) True dbUm = (ErroRestauracao ErroGravacao, dbUm)"
proof -
  have ok: "dbOk dbUm" by (simp add: exLivro_def exAluno_def dbUm_def store_defs)
  have imp: "importAllData exConflito dbUm = (Inl ConstraintError, dbUm)"
    by (simp add: importAllData_def exConflito_def chaveValida_def storeClear_def
        exLivro_def exAluno_def dbUm_def store_defs)
  have val: "validarBackup (backupJson exConflito) = Inr ()"
    unfolding validarBackup_backupJson
    by (simp add: exConflito_def temId_def exLivro_def exAgora_def str_def)
  obtain a s'' where h: "handleImportarDados (Some exConflito) True dbUm = (a, s'')"
    by (cases "handleImportarDados (Some exConflito) True dbUm")
  from importAllData_falha_restaura [OF ok, of exConflito ConstraintError dbUm exConflito a s'']
    imp val h
  have "a = ErroRestauracao ErroGravacao \<and> s'' = dbUm" by simp
  with ok imp val h show ?thesis by simp
qed

section \<open>The checksum\<close>

text \<open>
  Claim C9. \<open>gerarChecksumSimples\<close> is a function of the payload, and it gives the same
  hexadecimal text for two payloads that are equal up to the order of the properties of
  their objects and up to white space in their serialization. White space is what
  \<open>\s\<close> matches in the text \<open>JSON.stringify\<close> produces: a tab or a line break inside
  a string value is written there as an escape and is no white space of the serialization.
\<close>

theorem gerarChecksumSimples_mesmoPayload:
  "mesmoPayload v w \<Longrightarrow> gerarChecksumSimples v = gerarChecksumSimples w"
  by (simp add: gerarChecksumSimples_eq mesmoPayload_peso)

theorem gerarChecksumSimples_mesmoPayload_witness:
  "mesmoPayload exPayloadA exPayloadB
   \<and> gerarChecksumSimples exPayloadA = gerarChecksumSimples exPayloadB"
proof -
  have 1: "mesmoPayload exPayloadA (JObj [(str ''b'', JStr (str ''x y'')), (str ''a'', JNum 1)])"
    unfolding exPayloadA_def by (rule mesmoPayload.ordem) simp
  have "mesmoPayload (JStr (str ''x y'')) (JStr (str ''xy''))"
    by (rule mesmoPayload.espacos)
      (simp add: semEspacos_def espaco_def quoteJSONString_def quoteUnit_def
        leadingSurrogate_def trailingSurrogate_def str_def)
  then have 2: "mesmoPayload (JObj [(str ''b'', JStr (str ''x y'')), (str ''a'', JNum 1)]) exPayloadB"
    unfolding exPayloadB_def
    by (intro mesmoPayload.campos) (simp_all add: mesmoPayload.igual)
  have h: "mesmoPayload exPayloadA exPayloadB"
    by (rule mesmoPayload.transitivo [OF 1 2])
  show ?thesis
    by (intro conjI h gerarChecksumSimples_mesmoPayload [OF h])
qed

text \<open>
  Claim C2, as the code has it. The stored checksum of a payload was computed over
  \<open>original\<close>, and the payload passes the checks of the root properties, of the three
  arrays and of the total. Then \<open>validarBackup\<close> fails with the checksum error exactly
  when the sum of the codes of the characters that are no white space, over the
  serialization of the payload without its checksum, is not the sum over the serialization
  of \<open>original\<close>. A change of a value is detected when it changes this sum and is not
  detected when it keeps it.
\<close>

theorem validarBackup_checksum:
  assumes c: "campo (str ''checksum'') j = Some (JStr (gerarChecksumSimples original))"
    and v: "validarBackup j \<notin> {Inl TypeError, Inl EstruturaInvalida, Inl DadosCorrompidos,
                                 Inl TotalNaoConfere}"
  shows "validarBackup j = Inl ChecksumInvalido
          \<longleftrightarrow> peso (stringify (apagarCampo (str ''checksum'') j)) \<noteq> peso (stringify original)"
proof -
  have sem: "validarEstrutura xs cs \<noteq> Inl ChecksumInvalido" for xs cs
  proof (induction xs)
    case Nil
    then show ?case by simp
  next
    case (Cons x xs)
    have "validarCampos x cs \<noteq> Inl ChecksumInvalido" by (induction cs) auto
    with Cons show ?case by (auto split: sum.splits)
  qed
  show ?thesis
    using c v sem
    by (auto simp: validarBackup_def gerarChecksumSimples_eq
        split: if_splits option.splits json.splits sum.splits)
qed

theorem validarBackup_checksum_witness:
  "campo (str ''checksum'') (backupJson exDetectado)
     = Some (JStr (gerarChecksumSimples
                     (backupJson ((exportarDados exAgora db12)\<lparr>checksum := None\<rparr>))))
   \<and> validarBackup (backupJson exDetectado)
        \<notin> {Inl TypeError, Inl EstruturaInvalida, Inl DadosCorrompidos, Inl TotalNaoConfere}
   \<and> peso (stringify (apagarCampo (str ''checksum'') (backupJson exDetectado)))
        \<noteq> peso (stringify (backupJson ((exportarDados exAgora db12)\<lparr>checksum := None\<rparr>)))
   \<and> validarBackup (backupJson exDetectado) = Inl ChecksumInvalido"
proof -
  let ?orig = "backupJson ((exportarDados exAgora db12)\<lparr>checksum := None\<rparr>)"
  have h1: "campo (str ''checksum'') (backupJson exDetectado)
     = Some (JStr (gerarChecksumSimples ?orig))"
    by (simp add: campo_backupJson exDetectado_def exportarDados_checksum)
  have h2: "validarBackup (backupJson exDetectado)
        \<notin> {Inl TypeError, Inl EstruturaInvalida, Inl DadosCorrompidos, Inl TotalNaoConfere}"
    by (rule validarBackup_backupJson_passa)
      (simp_all add: exDetectado_def exportarDados_campos exportarDados_checksum db12_def
        storeGetAll_def storeVazio_def exAgora_def str_def)
  have "peso (numberToString 13) \<noteq> peso (numberToString 12)"
    by (simp add: numberToString_def digitos.simps espaco_def)
  then have "peso (stringify (livroJson (exLivro12\<lparr>quantidadeTotal := 13\<rparr>)))
      \<noteq> peso (stringify (livroJson exLivro12))"
    using peso_livroJson_total [where l = exLivro12 and n = 13]
    by (simp add: exLivro12_def)
  then have h3: "peso (stringify (apagarCampo (str ''checksum'') (backupJson exDetectado)))
      \<noteq> peso (stringify ?orig)"
    unfolding apagarCampo_backupJson peso_backupJson
    by (simp add: exDetectado_def exportarDados_campos pesoCampo_def peso_JArr db12_def
        storeGetAll_def)
  from validarBackup_checksum [OF h1 h2] h3
  have "validarBackup (backupJson exDetectado) = Inl ChecksumInvalido" by simp
  with h1 h2 h3 show ?thesis by blast
qed

text \<open>
  The claim as the specification states it fails: a backup of a book with 12 copies is
  written with its checksum, and the same file with the 12 edited to 21 is accepted.
\<close>

theorem validarBackup_adulterado_counterexample:
  "validarBackup (backupJson (exportarDados exAgora db12)) = Inr ()
   \<and> livros (exportarDados exAgora db12) = [exLivro12]
   \<and> quantidadeTotal exLivro12 = 12
   \<and> exAdulterado = (exportarDados exAgora db12)\<lparr>livros := [exLivro12\<lparr>quantidadeTotal := 21\<rparr>]\<rparr>
   \<and> validarBackup (backupJson exAdulterado) = Inr ()"
proof -
  have ok: "dbOk db12" by (simp add: exLivro_def exLivro12_def db12_def store_defs storeVazio_def)
  have agora: "exAgora \<noteq> []" by (simp add: exAgora_def str_def)
  have orig: "validarBackup (backupJson (exportarDados exAgora db12)) = Inr ()"
    by (rule validarBackup_exportarDados [OF ok agora])
  have l: "livros (exportarDados exAgora db12) = [exLivro12]"
    by (simp add: exportarDados_campos db12_def storeGetAll_def)
  have t: "quantidadeTotal exLivro12 = 12" by (simp add: exLivro12_def)
  have "peso (numberToString 12) = peso (numberToString 21)"
    by (simp add: numberToString_def digitos.simps espaco_def)
  then have "peso (stringify (livroJson (exLivro12\<lparr>quantidadeTotal := 21\<rparr>)))
      = peso (stringify (livroJson exLivro12))"
    using peso_livroJson_total [where l = exLivro12 and n = 21]
    by (simp add: exLivro12_def)
  then have "peso (stringify (backupJson (exAdulterado\<lparr>checksum := None\<rparr>)))
      = peso (stringify (backupJson ((exportarDados exAgora db12)\<lparr>checksum := None\<rparr>)))"
    unfolding peso_backupJson
    by (simp add: exAdulterado_def exportarDados_campos pesoCampo_def peso_JArr db12_def
        storeGetAll_def)
  then have "gerarChecksumSimples (backupJson (exAdulterado\<lparr>checksum := None\<rparr>))
      = gerarChecksumSimples (backupJson ((exportarDados exAgora db12)\<lparr>checksum := None\<rparr>))"
    by (simp add: gerarChecksumSimples_eq)
  moreover have "checksum exAdulterado = checksum (exportarDados exAgora db12)"
    by (simp add: exAdulterado_def)
  ultimately have adult: "validarBackup (backupJson exAdulterado) = Inr ()"
    unfolding validarBackup_backupJson
    by (simp add: exportarDados_checksum exAdulterado_def exportarDados_campos db12_def
        storeGetAll_def storeVazio_def temId_def exLivro12_def exLivro_def exAgora_def str_def)
  have e: "exAdulterado
      = (exportarDados exAgora db12)\<lparr>livros := [exLivro12\<lparr>quantidadeTotal := 21\<rparr>]\<rparr>"
    by (rule exAdulterado_def)
  from orig l t e adult show ?thesis by blast
qed

section \<open>The quantities of a book\<close>

text \<open>
  Claim C1, as the code has it. In a well-formed database where every book has
  \<open>0 \<le> quantidadeDisponivel \<le> quantidadeTotal\<close>: a checkout keeps this, whether it
  succeeds or fails; saving the book form keeps it when the form edits a book that is in
  the store or the quantity entered is not negative; a return that fails changes nothing,
  and a return that succeeds keeps it exactly when the book of the loan is absent or had
  fewer copies available than in total; an import that fails changes nothing, and an
  import that succeeds yields it when the books of the file satisfy it. Neither the
  return nor the validation of a backup looks at the bound.
\<close>

theorem quantidades_preservadas:
  assumes ok: "dbOk s" and inv: "invLivros s"
  shows "(registrarEmprestimo emp s = (r1, s1) \<longrightarrow> invLivros s1)
       \<and> (handleSalvarLivro form s = (a, s2)
            \<and> (0 \<le> livroQtd form \<or> (\<exists>j l. livroId form = Some j \<and> getByIdLivros j s = Some l))
           \<longrightarrow> invLivros s2)
       \<and> (registrarDevolucao i d s = (Inl e, s3) \<longrightarrow> s3 = s)
       \<and> (registrarDevolucao i d s = (Inr (), s3) \<and> storeGet i (storeEmprestimos s) = Some emp'
           \<longrightarrow> (invLivros s3 \<longleftrightarrow>
                  (case storeGet (idLivro emp') (storeLivros s) of
                     None \<Rightarrow> True
                   | Some l \<Rightarrow> quantidadeDisponivel l < quantidadeTotal l)))
       \<and> (importAllData dat s = (Inl e', s4) \<longrightarrow> s4 = s)
       \<and> (importAllData dat s = (Inr (), s4) \<and> list_all quantidadesOk (livros dat)
           \<longrightarrow> invLivros s4)"
proof -
  have 1: "invLivros s1" if "registrarEmprestimo emp s = (r1, s1)"
    by (rule registrarEmprestimo_inv [OF ok inv that])
  have 2: "invLivros s2"
    if "handleSalvarLivro form s = (a, s2)
        \<and> (0 \<le> livroQtd form \<or> (\<exists>j l. livroId form = Some j \<and> getByIdLivros j s = Some l))"
    using handleSalvarLivro_inv [OF ok inv, of form a s2] that by blast
  have 3: "s3 = s" if "registrarDevolucao i d s = (Inl e, s3)"
    by (rule registrarDevolucao_Inl [OF that])
  have 4: "invLivros s3 \<longleftrightarrow>
             (case storeGet (idLivro emp') (storeLivros s) of
                None \<Rightarrow> True
              | Some l \<Rightarrow> quantidadeDisponivel l < quantidadeTotal l)"
    if "registrarDevolucao i d s = (Inr (), s3) \<and> storeGet i (storeEmprestimos s) = Some emp'"
    using registrarDevolucao_inv [OF ok inv, of i emp' d "()" s3] that by blast
  have 5: "s4 = s" if "importAllData dat s = (Inl e', s4)"
    by (rule importAllData_Inl [OF that])
  have 6: "invLivros s4"
    if "importAllData dat s = (Inr (), s4) \<and> list_all quantidadesOk (livros dat)"
    using importAllData_inv [of dat s "()" s4] that by blast
  from 1 2 3 4 5 6 show ?thesis by blast
qed

theorem quantidades_preservadas_witness:
  "dbOk dbUm \<and> invLivros dbUm
   \<and> registrarEmprestimo exPedido dbUm = (Inr (), dbEmprestado)
   \<and> dbOk dbEmprestado \<and> invLivros dbEmprestado
   \<and> registrarDevolucao 1 (str ''2024-03-05'') dbEmprestado = (Inr (), dbDevolvido)
   \<and> storeGet 1 (storeEmprestimos dbEmprestado) = Some (exPedido\<lparr>ident := Id 1\<rparr>)
   \<and> storeGet (idLivro (exPedido\<lparr>ident := Id 1\<rparr>)) (storeLivros dbEmprestado)
        = Some (exLivro\<lparr>quantidadeDisponivel := 0\<rparr>)
   \<and> invLivros dbDevolvido
   \<and> livroId exFormLivro = Some 1
   \<and> getByIdLivros 1 dbEmprestado = Some (exLivro\<lparr>quantidadeDisponivel := 0\<rparr>)
   \<and> fst (handleSalvarLivro exFormLivro dbEmprestado) = LivroAtualizado
   \<and> storeGet 1 (storeLivros (snd (handleSalvarLivro exFormLivro dbEmprestado)))
        = Some (exLivro\<lparr>quantidadeTotal := 3, quantidadeDisponivel := 2\<rparr>)
   \<and> invLivros (snd (handleSalvarLivro exFormLivro dbEmprestado))"
proof -
  have ok0: "dbOk dbUm" by (simp add: exLivro_def exAluno_def dbUm_def store_defs)
  have inv0: "invLivros dbUm"
    by (simp add: invLivros_def quantidadesOk_def storeGetAll_def exLivro_def dbUm_def)
  have chk: "registrarEmprestimo exPedido dbUm = (Inr (), dbEmprestado)"
    by (simp add: registrarEmprestimo_def exLivro_def exAluno_def exPedido_def dbUm_def
        dbEmprestado_def store_defs)
  from quantidades_preservadas [OF ok0 inv0, where emp = exPedido and ?r1.0 = "Inr ()"
      and ?s1.0 = dbEmprestado] chk
  have inv: "invLivros dbEmprestado" by blast
  have ok: "dbOk dbEmprestado"
    by (simp add: exLivro_def exAluno_def exPedido_def dbEmprestado_def store_defs)
  have res: "registrarDevolucao 1 (str ''2024-03-05'') dbEmprestado = (Inr (), dbDevolvido)"
    by (simp add: registrarDevolucao_def exLivro_def exAluno_def exPedido_def dbEmprestado_def
        dbDevolvido_def store_defs)
  have emp: "storeGet 1 (storeEmprestimos dbEmprestado) = Some (exPedido\<lparr>ident := Id 1\<rparr>)"
    by (simp add: dbEmprestado_def storeGet_def)
  have l: "storeGet (idLivro (exPedido\<lparr>ident := Id 1\<rparr>)) (storeLivros dbEmprestado)
        = Some (exLivro\<lparr>quantidadeDisponivel := 0\<rparr>)"
    by (simp add: exPedido_def dbEmprestado_def storeGet_def)
  from quantidades_preservadas [OF ok inv, where i = 1 and d = "str ''2024-03-05''"
      and ?s3.0 = dbDevolvido and emp' = "exPedido\<lparr>ident := Id 1\<rparr>"] res emp
  have "invLivros dbDevolvido \<longleftrightarrow>
          (case storeGet (idLivro (exPedido\<lparr>ident := Id 1\<rparr>)) (storeLivros dbEmprestado) of
             None \<Rightarrow> True
           | Some l \<Rightarrow> quantidadeDisponivel l < quantidadeTotal l)"
    by blast
  then have dev: "invLivros dbDevolvido" unfolding l by (simp add: exLivro_def)
  have f: "livroId exFormLivro = Some 1" by (simp add: exFormLivro_def)
  have g: "getByIdLivros 1 dbEmprestado = Some (exLivro\<lparr>quantidadeDisponivel := 0\<rparr>)"
    by (simp add: getByIdLivros_def dbEmprestado_def storeGet_def)
  have ed: "fst (handleSalvarLivro exFormLivro dbEmprestado) = LivroAtualizado"
    "storeGet 1 (storeLivros (snd (handleSalvarLivro exFormLivro dbEmprestado)))
        = Some (exLivro\<lparr>quantidadeTotal := 3, quantidadeDisponivel := 2\<rparr>)"
    by (simp_all add: handleSalvarLivro_def salvarLivro_def saveLivros_def getByIdLivros_def
        exFormLivro_def exLivro_def exAluno_def exPedido_def dbEmprestado_def store_defs)
  from quantidades_preservadas [OF ok inv, where form = exFormLivro
      and a = "fst (handleSalvarLivro exFormLivro dbEmprestado)"
      and ?s2.0 = "snd (handleSalvarLivro exFormLivro dbEmprestado)",
      THEN conjunct2, THEN conjunct1] f g
  have edi: "invLivros (snd (handleSalvarLivro exFormLivro dbEmprestado))" by simp
  from ok0 inv0 chk ok inv res emp l dev f g ed edi show ?thesis by blast
qed

text \<open>
  The claim as the specification states it fails. A backup that passes the validation is
  restored into the empty database; every book of the restored database is within its
  bounds; the loan of the backup is returned, and the book then has two copies available
  of one in total.
\<close>

theorem quantidades_counterexample:
  "validarBackup (backupJson exFantasma) = Inr ()
   \<and> handleImportarDados (Some exFantasma) True dbVazio = (RestauracaoConcluida, dbFantasma)
   \<and> dbOk dbFantasma \<and> invLivros dbFantasma
   \<and> registrarDevolucao 1 (str ''2024-03-05'') dbFantasma = (Inr (), dbExcedido)
   \<and> storeGet 1 (storeLivros dbExcedido) = Some (exLivro\<lparr>quantidadeDisponivel := 2\<rparr>)
   \<and> quantidadeTotal exLivro = 1
   \<and> \<not> invLivros dbExcedido"
proof -
  have val: "validarBackup (backupJson exFantasma) = Inr ()"
    unfolding validarBackup_backupJson
    by (simp add: exFantasma_def temId_def exLivro_def exAluno_def exPedido_def exAgora_def str_def)
  have imp: "importAllData exFantasma dbVazio = (Inr (), dbFantasma)"
    by (simp add: importAllData_def exFantasma_def dbFantasma_def dbVazio_def storeVazio_def
        chaveValida_def storeClear_def exLivro_def exAluno_def exPedido_def store_defs)
  have h: "handleImportarDados (Some exFantasma) True dbVazio = (RestauracaoConcluida, dbFantasma)"
    using val imp by (simp add: handleImportarDados_def)
  have ok: "dbOk dbFantasma" by (simp add: exLivro_def exAluno_def exPedido_def dbFantasma_def dbExcedido_def store_defs)
  have inv: "invLivros dbFantasma"
    by (simp add: invLivros_def quantidadesOk_def storeGetAll_def exLivro_def exAluno_def exPedido_def dbFantasma_def dbExcedido_def)
  have res: "registrarDevolucao 1 (str ''2024-03-05'') dbFantasma = (Inr (), dbExcedido)"
    by (simp add: registrarDevolucao_def exLivro_def exAluno_def exPedido_def dbFantasma_def dbExcedido_def store_defs)
  have l: "storeGet 1 (storeLivros dbExcedido) = Some (exLivro\<lparr>quantidadeDisponivel := 2\<rparr>)"
    by (simp add: exLivro_def exAluno_def exPedido_def dbFantasma_def dbExcedido_def storeGet_def)
  have t: "quantidadeTotal exLivro = 1" by (simp add: exLivro_def)
  have n: "\<not> invLivros dbExcedido"
    by (simp add: invLivros_def quantidadesOk_def storeGetAll_def exLivro_def exAluno_def exPedido_def dbFantasma_def dbExcedido_def)
  from val h ok inv res l t n show ?thesis by blast
qed

section \<open>Repeated identifiers in an import\<close>

text \<open>
  Claim C10, as the code has it. Every record of the snapshot carries a key, and no two
  books under different ids share an ISBN, no two students under different ids a
  matricula. Then \<open>importAllData\<close> succeeds, each store holds under every key the last
  record of its sequence with that key and nothing else, no two records of a store share
  an id, and a store whose sequence repeats an id holds fewer records than the sequence
  has.
\<close>

theorem importAllData_ids_repetidos:
  assumes cl: "list_all temChave (livros d)" and ca: "list_all temChave (alunos d)"
    and ce: "list_all temChave (emprestimos d)"
    and ul: "semColisao uqLivro (livros d)" and ua: "semColisao uqAluno (alunos d)"
  shows "\<exists>s'. importAllData d s = (Inr (), s')
      \<and> (\<forall>k. storeGet k (storeLivros s') = ultimoCom k (livros d))
      \<and> (\<forall>k. storeGet k (storeAlunos s') = ultimoCom k (alunos d))
      \<and> (\<forall>k. storeGet k (storeEmprestimos s') = ultimoCom k (emprestimos d))
      \<and> distinct (map ident (storeGetAll (storeLivros s')))
      \<and> distinct (map ident (storeGetAll (storeAlunos s')))
      \<and> distinct (map ident (storeGetAll (storeEmprestimos s')))
      \<and> (\<not> distinct (map ident (livros d)) \<longrightarrow>
            length (storeGetAll (storeLivros s')) < length (livros d))
      \<and> (\<not> distinct (map ident (alunos d)) \<longrightarrow>
            length (storeGetAll (storeAlunos s')) < length (alunos d))
      \<and> (\<not> distinct (map ident (emprestimos d)) \<longrightarrow>
            length (storeGetAll (storeEmprestimos s')) < length (emprestimos d))"
proof -
  have ue: "semColisao uqEmprestimo (emprestimos d)"
    by (simp add: semColisao_def uqEmprestimo_def list_all_iff)
  obtain sl where pl: "putTodos uqLivro (livros d) (storeClear (storeLivros s)) = Inr sl"
    and okl: "storeOk uqLivro sl" and gl: "\<forall>k. storeGet k sl = ultimoCom k (livros d)"
    using putTodos_ultimoCom [OF cl ul] by blast
  obtain sa where pa: "putTodos uqAluno (alunos d) (storeClear (storeAlunos s)) = Inr sa"
    and oka: "storeOk uqAluno sa" and ga: "\<forall>k. storeGet k sa = ultimoCom k (alunos d)"
    using putTodos_ultimoCom [OF ca ua] by blast
  obtain se where pe: "putTodos uqEmprestimo (emprestimos d) (storeClear (storeEmprestimos s)) = Inr se"
    and oke: "storeOk uqEmprestimo se" and ge: "\<forall>k. storeGet k se = ultimoCom k (emprestimos d)"
    using putTodos_ultimoCom [OF ce ue] by blast
  have val: "list_all chaveValida (livros d)" "list_all chaveValida (alunos d)"
    "list_all chaveValida (emprestimos d)"
    using cl ca ce by (auto simp: list_all_iff temChave_iff chaveValida_def)
  let ?s = "\<lparr>storeLivros = sl, storeAlunos = sa, storeEmprestimos = se\<rparr>"
  have imp: "importAllData d s = (Inr (), ?s)"
    using val pl pa pe by (simp add: importAllData_def)
  have nl: "length (storeGetAll sl) < length (livros d)" if "\<not> distinct (map ident (livros d))"
    using length_storeGetAll_ultimoCom [OF okl gl cl] card_menor [OF that] by simp
  have na: "length (storeGetAll sa) < length (alunos d)" if "\<not> distinct (map ident (alunos d))"
    using length_storeGetAll_ultimoCom [OF oka ga ca] card_menor [OF that] by simp
  have ne: "length (storeGetAll se) < length (emprestimos d)"
    if "\<not> distinct (map ident (emprestimos d))"
    using length_storeGetAll_ultimoCom [OF oke ge ce] card_menor [OF that] by simp
  show ?thesis
    using imp gl ga ge nl na ne distinct_ident_storeGetAll [OF okl]
      distinct_ident_storeGetAll [OF oka] distinct_ident_storeGetAll [OF oke]
    by (intro exI [of _ ?s]) simp
qed

theorem importAllData_ids_repetidos_witness:
  "list_all temChave (livros exDuplicado) \<and> list_all temChave (alunos exDuplicado)
   \<and> list_all temChave (emprestimos exDuplicado)
   \<and> semColisao uqLivro (livros exDuplicado) \<and> semColisao uqAluno (alunos exDuplicado)
   \<and> \<not> distinct (map ident (livros exDuplicado))
   \<and> validarBackup (backupJson exDuplicado) = Inr ()
   \<and> totalRegistros exDuplicado = Some (JNum 2)
   \<and> (\<exists>s'. importAllData exDuplicado dbUm = (Inr (), s')
          \<and> storeGet 1 (storeLivros s') = Some (exLivro\<lparr>titulo := str ''Senhora''\<rparr>)
          \<and> length (storeGetAll (storeLivros s')) < 2)"
proof -
  have c: "list_all temChave (livros exDuplicado)" "list_all temChave (alunos exDuplicado)"
    "list_all temChave (emprestimos exDuplicado)"
    by (simp_all add: exDuplicado_def temChave_def exLivro_def)
  have u: "semColisao uqLivro (livros exDuplicado)" "semColisao uqAluno (alunos exDuplicado)"
    by (simp_all add: exDuplicado_def semColisao_def exLivro_def)
  have n: "\<not> distinct (map ident (livros exDuplicado))"
    by (simp add: exDuplicado_def exLivro_def)
  have val: "validarBackup (backupJson exDuplicado) = Inr ()"
    unfolding validarBackup_backupJson
    by (simp add: exDuplicado_def temId_def exLivro_def exAgora_def str_def)
  have t: "totalRegistros exDuplicado = Some (JNum 2)" by (simp add: exDuplicado_def)
  have ult: "ultimoCom 1 (livros exDuplicado) = Some (exLivro\<lparr>titulo := str ''Senhora''\<rparr>)"
    by (simp add: exDuplicado_def exLivro_def)
  have len: "length (livros exDuplicado) = 2" by (simp add: exDuplicado_def)
  from importAllData_ids_repetidos [OF c u, of dbUm] n
  have "\<exists>s'. importAllData exDuplicado dbUm = (Inr (), s')
          \<and> storeGet 1 (storeLivros s') = Some (exLivro\<lparr>titulo := str ''Senhora''\<rparr>)
          \<and> length (storeGetAll (storeLivros s')) < 2"
    unfolding ult [symmetric] len [symmetric] by blast
  with c u n val t show ?thesis by blast
qed

text \<open>
  The claim as the specification states it fails: the sequence of books of this backup
  holds two records under the id 1, the backup passes the validation, and its import
  fails on the unique index of the ISBN and changes nothing.
\<close>

theorem importAllData_ids_repetidos_counterexample:
  "\<not> distinct (map ident (livros exColisao))
   \<and> validarBackup (backupJson exColisao) = Inr ()
   \<and> importAllData exColisao dbVazio = (Inl ConstraintError, dbVazio)"
proof -
  have n: "\<not> distinct (map ident (livros exColisao))"
    by (simp add: exColisao_def exLivro_def)
  have val: "validarBackup (backupJson exColisao) = Inr ()"
    unfolding validarBackup_backupJson
    by (simp add: exColisao_def temId_def exLivro_def exAgora_def str_def)
  have imp: "importAllData exColisao dbVazio = (Inl ConstraintError, dbVazio)"
    by (simp add: importAllData_def exColisao_def dbVazio_def storeVazio_def chaveValida_def
        storeClear_def exLivro_def store_defs)
  from n val imp show ?thesis by blast
qed

section \<open>The snapshot of an export\<close>

text \<open>
  Claim C8, as the code has it. \<open>exportAllData\<close> reads the three stores in three
  successive read-only transactions: the books it returns are those of the state it
  started in, the students those of the state at the second read, the loans those of the
  state at the third. When the writes committed in between leave the stores not yet read
  as they were, the result is the snapshot of the state it started in.
\<close>

theorem exportAllDataEntre_leituras:
  "livros (exportAllDataEntre w1 w2 s) = livros (exportAllData s)
   \<and> alunos (exportAllDataEntre w1 w2 s) = alunos (exportAllData (w1 s))
   \<and> emprestimos (exportAllDataEntre w1 w2 s) = emprestimos (exportAllData (w2 (w1 s)))
   \<and> (storeAlunos (w1 s) = storeAlunos s \<and> storeEmprestimos (w2 (w1 s)) = storeEmprestimos s
        \<longrightarrow> exportAllDataEntre w1 w2 s = exportAllData s)"
  by (simp add: exportAllDataEntre_def exportAllData_def)

theorem exportAllDataEntre_leituras_witness:
  "storeAlunos (excluirLivroUm dbUm) = storeAlunos dbUm
   \<and> storeEmprestimos (id (excluirLivroUm dbUm)) = storeEmprestimos dbUm
   \<and> excluirLivroUm dbUm \<noteq> dbUm
   \<and> exportAllDataEntre excluirLivroUm id dbUm = exportAllData dbUm"
proof -
  have a: "storeAlunos (excluirLivroUm dbUm) = storeAlunos dbUm"
    and e: "storeEmprestimos (id (excluirLivroUm dbUm)) = storeEmprestimos dbUm"
    by (simp_all add: excluirLivroUm_def deleteLivros_def)
  have n: "excluirLivroUm dbUm \<noteq> dbUm"
    by (simp add: excluirLivroUm_def deleteLivros_def storeDelete_def dbUm_def)
  from exportAllDataEntre_leituras [of excluirLivroUm id dbUm] a e
  have "exportAllDataEntre excluirLivroUm id dbUm = exportAllData dbUm" by blast
  with a e n show ?thesis by blast
qed

text \<open>
  The claim as the specification states it fails: a checkout commits between the read of
  the books and the read of the loans, and the export returns the book with its copy
  available together with the loan of that copy, the snapshot of no state.
\<close>

theorem exportAllDataEntre_counterexample:
  "emprestarPedido dbUm = dbEmprestado
   \<and> livros (exportAllDataEntre emprestarPedido id dbUm) = [exLivro]
   \<and> emprestimos (exportAllDataEntre emprestarPedido id dbUm) = [exPedido\<lparr>ident := Id 1\<rparr>]
   \<and> exportAllDataEntre emprestarPedido id dbUm \<noteq> exportAllData dbUm
   \<and> exportAllDataEntre emprestarPedido id dbUm \<noteq> exportAllData dbEmprestado"
proof -
  have w: "emprestarPedido dbUm = dbEmprestado"
    by (simp add: emprestarPedido_def registrarEmprestimo_def exLivro_def exAluno_def exPedido_def dbUm_def dbEmprestado_def store_defs)
  have l: "livros (exportAllDataEntre emprestarPedido id dbUm) = [exLivro]"
    by (simp add: exportAllDataEntre_def storeGetAll_def dbUm_def)
  have e: "emprestimos (exportAllDataEntre emprestarPedido id dbUm) = [exPedido\<lparr>ident := Id 1\<rparr>]"
    by (simp add: exportAllDataEntre_def w storeGetAll_def dbEmprestado_def)
  have 1: "exportAllDataEntre emprestarPedido id dbUm \<noteq> exportAllData dbUm"
  proof
    assume "exportAllDataEntre emprestarPedido id dbUm = exportAllData dbUm"
    then have "emprestimos (exportAllDataEntre emprestarPedido id dbUm)
        = emprestimos (exportAllData dbUm)" by simp
    then show False unfolding e by (simp add: exportAllData_def storeGetAll_def dbUm_def)
  qed
  have 2: "exportAllDataEntre emprestarPedido id dbUm \<noteq> exportAllData dbEmprestado"
  proof
    assume "exportAllDataEntre emprestarPedido id dbUm = exportAllData dbEmprestado"
    then have "livros (exportAllDataEntre emprestarPedido id dbUm)
        = livros (exportAllData dbEmprestado)" by simp
    then show False unfolding l
      by (simp add: exportAllData_def storeGetAll_def dbEmprestado_def exLivro_def)
  qed
  from w l e 1 2 show ?thesis by blast
qed


end
